(* ===== verification/Prelude.thy ===== *)
theory Prelude
  imports Main "HOL-Library.Signed_Division"
begin

text \<open>
  Shared vocabulary of the development: the theorem collections, the Go values every component
  uses (errors, the clock, calls into code behind an interface), and the lemmas on lists, options
  and Go's truncating division that several components rest on.
\<close>

section \<open>Theorem collections\<close>

named_theorems layer_arith \<open>integer facts about the VRAM budget\<close>
named_theorems frame \<open>what an operation leaves unchanged\<close>
named_theorems inv_intro \<open>an operation keeps the invariant of its component\<close>

section \<open>Errors\<close>

text \<open>
  A Go error value. A backend error keeps its machine-readable code and its wrapped cause;
  the message text is for people only and is not modelled. \<open>OomError\<close> is the sentinel type
  of the vram package, \<open>PlainError\<close> any other error.
\<close>

datatype go_error =
    BackendError (err_code: string) (err_cause: "go_error option")
  | OomError string
  | PlainError string

abbreviation berr :: "string \<Rightarrow> go_error" where
  "berr c \<equiv> BackendError c None"

fun isBackendErr :: "go_error \<Rightarrow> string option" where
  "isBackendErr (BackendError c _) = Some c"
| "isBackendErr _ = None"

type_synonym 'a res = "go_error + 'a"

abbreviation Err :: "go_error \<Rightarrow> 'a res" where "Err \<equiv> Inl"
abbreviation Ok :: "'a \<Rightarrow> 'a res" where "Ok \<equiv> Inr"

definition is_ok :: "'a + 'b \<Rightarrow> bool" where
  "is_ok r = (case r of Inl _ \<Rightarrow> False | Inr _ \<Rightarrow> True)"

lemma is_ok_simps [simp]: "is_ok (Inr x) = True" "is_ok (Inl e) = False"
  by (simp_all add: is_ok_def)

lemma is_ok_iff: "is_ok r \<longleftrightarrow> (\<exists>x. r = Inr x)"
  by (cases r) simp_all

section \<open>The clock and calls across an interface\<close>

text \<open>
  Times and durations are integers in milliseconds. Everything behind an interface (a GPU driver,
  a subprocess, a database) is a function on an opaque world \<open>'w\<close>; a call answers with the next
  world, the time it took and its result, so the clock can only move forward.
\<close>

type_synonym time = int

record 'w sys =
  clock :: time
  ext :: 'w

type_synonym ('w, 'r) call = "'w \<Rightarrow> 'w \<times> nat \<times> 'r"

definition do_call :: "('w, 'r) call \<Rightarrow> 'w sys \<Rightarrow> 'w sys \<times> 'r" where
  "do_call f s = (case f (ext s) of (w, dt, r) \<Rightarrow> (s\<lparr>clock := clock s + int dt, ext := w\<rparr>, r))"

lemma do_call_clock: "do_call f s = (s', r) \<Longrightarrow> clock s \<le> clock s'"
  by (auto simp: do_call_def split: prod.splits)

section \<open>Go integer division\<close>

text \<open>Go's \<open>/\<close> truncates towards zero, which is the library's \<open>sdiv\<close>.\<close>

lemma sdiv_nonneg [layer_arith]:
  fixes a b :: int
  assumes "0 \<le> a" and "0 \<le> b"
  shows "a sdiv b = a div b"
proof (cases "a = 0 \<or> b = 0")
  case True
  then show ?thesis by (auto simp: signed_divide_int_def)
next
  case False
  with assms show ?thesis by (simp add: signed_divide_int_def)
qed

lemma mult_div_le:
  fixes a b c :: int
  assumes "0 < c" and "0 \<le> b" and "b < c"
  shows "a * b div c \<le> a \<or> a < 0"
proof (cases "0 \<le> a")
  case True
  have "a * b \<le> a * c" using True assms by (intro mult_left_mono) auto
  then have "a * b div c \<le> a * c div c" using assms by (intro zdiv_mono1) auto
  then show ?thesis using assms by simp
qed simp

lemma div_le_iff_mult:
  fixes a b c :: int
  assumes "0 < c"
  shows "b \<le> a div c \<longleftrightarrow> b * c \<le> a"
proof
  assume "b \<le> a div c"
  then have "b * c \<le> (a div c) * c" using assms by (intro mult_right_mono) auto
  also have "\<dots> \<le> a" using assms by (simp add: minus_mod_eq_div_mult [symmetric])
  finally show "b * c \<le> a" .
next
  assume "b * c \<le> a"
  then have "b * c div c \<le> a div c" using assms by (rule zdiv_mono1)
  then show "b \<le> a div c" using assms by simp
qed

section \<open>Lists\<close>

definition take_int :: "int \<Rightarrow> 'a list \<Rightarrow> 'a list" where
  "take_int n xs = take (nat n) xs"

lemma length_take_int: "0 \<le> n \<Longrightarrow> int (length (take_int n xs)) \<le> n"
  by (simp add: take_int_def)

lemma find_Some_mem: "find P xs = Some x \<Longrightarrow> x \<in> set xs \<and> P x"
  by (induction xs) (auto split: if_splits)

lemma find_None_all: "find P xs = None \<longleftrightarrow> (\<forall>x\<in>set xs. \<not> P x)"
  by (induction xs) auto

lemma find_append: "find P (xs @ ys) = (case find P xs of None \<Rightarrow> find P ys | Some x \<Rightarrow> Some x)"
  by (induction xs) auto

text \<open>Counting list elements as an integer, so that an update in place is an equation.\<close>

definition count_if :: "('a \<Rightarrow> bool) \<Rightarrow> 'a list \<Rightarrow> int" where
  "count_if P xs = int (length (filter P xs))"

lemma count_if_simps [simp]:
  "count_if P [] = 0" "count_if P (x # xs) = of_bool (P x) + count_if P xs"
  "count_if P (xs @ ys) = count_if P xs + count_if P ys"
  by (simp_all add: count_if_def)

lemma count_if_nonneg: "0 \<le> count_if P xs"
  by (simp add: count_if_def)

lemma count_if_update:
  "i < length xs \<Longrightarrow> count_if P (xs[i := y]) = count_if P xs - of_bool (P (xs ! i)) + of_bool (P y)"
proof (induction xs arbitrary: i)
  case (Cons x xs)
  then show ?case by (cases i) auto
qed simp

lemma count_if_pos: "i < length xs \<Longrightarrow> P (xs ! i) \<Longrightarrow> 0 < count_if P xs"
  by (auto simp: count_if_def filter_empty_conv)

lemma count_if_mono: "(\<And>x. P x \<Longrightarrow> Q x) \<Longrightarrow> count_if P xs \<le> count_if Q xs"
  by (induction xs) auto

lemma count_if_zero: "count_if P xs = 0 \<longleftrightarrow> (\<forall>x\<in>set xs. \<not> P x)"
  by (simp add: count_if_def filter_empty_conv)

definition has_prefix :: "string \<Rightarrow> string \<Rightarrow> bool" where
  "has_prefix s p = (take (length p) s = p)"

definition trim_prefix :: "string \<Rightarrow> string \<Rightarrow> string" where
  "trim_prefix s p = (if has_prefix s p then drop (length p) s else s)"

lemma has_prefix_append [simp]: "has_prefix (p @ s) p"
  by (simp add: has_prefix_def)

lemma trim_prefix_append [simp]: "trim_prefix (p @ s) p = s"
  by (simp add: trim_prefix_def)

section \<open>Strings\<close>

text \<open>
  A Go string is its bytes. \<open>trim_space\<close> and \<open>to_upper\<close> are \<open>strings.TrimSpace\<close> and \<open>strings.ToUpper\<close>
  on ASCII (other Unicode white space and case pairs are left alone), \<open>runes\<close> is the conversion to
  \<open>[]rune\<close> of valid UTF-8: each rune is its leading byte with the continuation bytes that follow.
\<close>

definition is_space :: "char \<Rightarrow> bool" where
  "is_space c = (c \<in> {CHR 0x09, CHR 0x0A, CHR 0x0B, CHR 0x0C, CHR 0x0D, CHR '' ''})"

definition trim_space :: "string \<Rightarrow> string" where
  "trim_space s = rev (dropWhile is_space (rev (dropWhile is_space s)))"

definition to_upper :: "string \<Rightarrow> string" where
  "to_upper s = map (\<lambda>c. let n = of_char c :: nat in if 97 \<le> n \<and> n \<le> 122 then char_of (n - 32) else c) s"

definition to_lower :: "string \<Rightarrow> string" where
  "to_lower s = map (\<lambda>c. let n = of_char c :: nat in if 65 \<le> n \<and> n \<le> 90 then char_of (n + 32) else c) s"

definition is_cont :: "char \<Rightarrow> bool" where
  "is_cont c = (let n = of_char c :: nat in 128 \<le> n \<and> n < 192)"

definition is_ascii :: "char \<Rightarrow> bool" where
  "is_ascii c = ((of_char c :: nat) < 128)"

function runes :: "string \<Rightarrow> string list" where
  "runes [] = []"
| "runes (c # cs) = (if is_ascii c then [c] # runes cs
     else (c # takeWhile is_cont cs) # runes (dropWhile is_cont cs))"
  by pat_completeness auto
termination
  by (relation "measure length") (auto simp: le_imp_less_Suc length_dropWhile_le)

lemma concat_runes [simp]: "concat (runes s) = s"
  by (induction s rule: runes.induct) simp_all

lemma length_runes_le: "length (runes s) \<le> length s"
proof (induction s rule: runes.induct)
  case (2 c cs)
  then show ?case using length_dropWhile_le [of is_cont cs] by auto
qed simp

lemma runes_shape: "r \<in> set (runes s) \<Longrightarrow> (\<exists>c. r = [c] \<and> is_ascii c) \<or> list_all (\<lambda>c. \<not> is_ascii c) r"
proof (induction s rule: runes.induct)
  case (2 c cs)
  have "list_all (\<lambda>c. \<not> is_ascii c) (takeWhile is_cont cs)"
    by (auto simp: list_all_iff is_ascii_def is_cont_def Let_def dest!: set_takeWhileD)
  with 2 show ?case by (auto split: if_splits)
qed simp

text \<open>Decimal digits, as \<open>strconv.Itoa\<close> writes them.\<close>

function decimal :: "nat \<Rightarrow> string" where
  "decimal n = (if n < 10 then [char_of (48 + n)] else decimal (n div 10) @ [char_of (48 + n mod 10)])"
  by pat_completeness auto
termination
  by (relation "measure id") auto

definition Itoa :: "int \<Rightarrow> string" where
  "Itoa n = (if n < 0 then CHR ''-'' # decimal (nat (- n)) else decimal (nat n))"

lemma trim_space_blank: "trim_space s = [] \<longleftrightarrow> (\<forall>c\<in>set s. is_space c)"
proof
  assume "trim_space s = []"
  then have "\<forall>c\<in>set (dropWhile is_space s). is_space c" by (simp add: trim_space_def dropWhile_eq_Nil_conv)
  then show "\<forall>c\<in>set s. is_space c"
    by (metis dropWhile_eq_Nil_conv hd_dropWhile list.set_sel(1))
qed (auto simp: trim_space_def dropWhile_eq_Nil_conv dest: set_dropWhileD)

end
