(* ===== verification/Model_Types.thy ===== *)
theory Model_Types
  imports Prelude Complex_Main
begin

text \<open>
  The shared data of the server: \<open>src/types\<close> (model descriptors, job entries), the request and
  response that cross the backend interface (\<open>src/backend/backend.go\<close>) and the job statuses.
  A tier label is a Go string, so labels outside weak/mid/strong are representable.
  Sampling rates and temperatures (Go floats) are rationals: the code only compares them.
\<close>

section \<open>Tiers and descriptors\<close>

type_synonym ModelTierLabel = string

definition TierWeak :: ModelTierLabel where "TierWeak = ''weak''"
definition TierMid :: ModelTierLabel where "TierMid = ''mid''"
definition TierStrong :: ModelTierLabel where "TierStrong = ''strong''"

lemmas tier_label_defs = TierWeak_def TierMid_def TierStrong_def

record ModelDescriptor =
  TierLabel :: ModelTierLabel
  Name :: string
  FilePath :: string
  MMProjPath :: string
  RequiredVRAMMB :: int
  Modality :: string
  GPULayers :: int
  Port :: int
  TotalLayers :: int
  KVOverheadMB :: int
  KVCacheMB :: int
  KVFixedMB :: int
  VisionRequiredVRAMMB :: int
  VisionKVCacheMB :: int
  VisionKVFixedMB :: int
  RequireChatTemplate :: bool

definition HasVision :: "ModelDescriptor \<Rightarrow> bool" where
  "HasVision d = (MMProjPath d \<noteq> '''')"

definition KVParts :: "ModelDescriptor \<Rightarrow> int \<times> int" where
  "KVParts d = (if KVCacheMB d > 0 \<or> KVFixedMB d > 0 then (KVCacheMB d, KVFixedMB d)
                else (KVOverheadMB d, 0))"

definition VisionKVParts :: "ModelDescriptor \<Rightarrow> int \<times> int" where
  "VisionKVParts d = (VisionKVCacheMB d, VisionKVFixedMB d)"

definition WeightMB :: "ModelDescriptor \<Rightarrow> bool \<Rightarrow> int" where
  "WeightMB d needsVision =
     (if needsVision \<and> HasVision d then VisionRequiredVRAMMB d else RequiredVRAMMB d)"

text \<open>A descriptor whose sizes are sizes: no negative megabytes.\<close>

definition wf_desc :: "ModelDescriptor \<Rightarrow> bool" where
  "wf_desc d = (0 \<le> RequiredVRAMMB d \<and> 0 \<le> KVOverheadMB d \<and> 0 \<le> KVCacheMB d \<and> 0 \<le> KVFixedMB d
     \<and> 0 \<le> VisionRequiredVRAMMB d \<and> 0 \<le> VisionKVCacheMB d \<and> 0 \<le> VisionKVFixedMB d)"

lemma KVParts_nonneg: "wf_desc d \<Longrightarrow> KVParts d = (c, f) \<Longrightarrow> 0 \<le> c \<and> 0 \<le> f"
  by (auto simp: wf_desc_def KVParts_def split: if_splits)

lemma VisionKVParts_nonneg: "wf_desc d \<Longrightarrow> VisionKVParts d = (c, f) \<Longrightarrow> 0 \<le> c \<and> 0 \<le> f"
  by (auto simp: wf_desc_def VisionKVParts_def)

lemma WeightMB_nonneg [layer_arith]: "wf_desc d \<Longrightarrow> 0 \<le> WeightMB d v"
  by (simp add: wf_desc_def WeightMB_def)

section \<open>Requests and responses of the backend interface\<close>

record ToolCall =
  tc_ID :: string
  tc_Name :: string
  tc_Arguments :: string

record Message =
  Role :: string
  Content :: string
  ToolCalls :: "ToolCall list"
  ToolCallID :: string
  MsgName :: string

record Tool =
  tool_Type :: string
  tool_Name :: string
  tool_Description :: string
  tool_Parameters :: string

record Request =
  CorrelationID :: string
  RequestID :: string
  ReqModality :: string
  Prompt :: string
  Messages :: "Message list"
  ImageData :: "nat list"
  SystemPrompt :: string
  MaxTokens :: int
  Temperature :: rat
  Priority :: string
  MinTier :: string
  PreferredTier :: string
  Stream :: bool
  ResponseFormat :: string
  Tools :: "Tool list"
  Reasoning :: string

record Response =
  Output :: string
  TokensGenerated :: int
  RespReasoning :: string
  ModelTier :: string
  QualityDegraded :: bool
  TokPerSecSample :: rat
  RespToolCalls :: "ToolCall list"
  LengthLimited :: bool

definition zeroRequest :: Request where
  "zeroRequest = \<lparr>CorrelationID = '''', RequestID = '''', ReqModality = '''', Prompt = '''',
     Messages = [], ImageData = [], SystemPrompt = '''', MaxTokens = 0, Temperature = 0,
     Priority = '''', MinTier = '''', PreferredTier = '''', Stream = False, ResponseFormat = '''',
     Tools = [], Reasoning = ''''\<rparr>"

definition zeroResponse :: Response where
  "zeroResponse = \<lparr>Output = '''', TokensGenerated = 0, RespReasoning = '''', ModelTier = '''',
     QualityDegraded = False, TokPerSecSample = 0, RespToolCalls = [], LengthLimited = False\<rparr>"

datatype ChunkKind = ChunkContent | ChunkReasoning

type_synonym chunk = "ChunkKind \<times> string"

section \<open>Job history entries\<close>

datatype JobStatus = JobStatusQueued | JobStatusDone | JobStatusFailed | JobStatusCancelled

datatype JobSource = JobSourceLocal | JobSourceOffline

record JobEntry =
  je_RequestID :: string
  je_CorrelationID :: string
  je_Source :: JobSource
  je_Status :: JobStatus
  je_Modality :: string
  je_ModelTier :: string
  je_Priority :: string
  je_MinTier :: string
  je_EnqueuedAt :: "time option"
  je_StartedAt :: "time option"
  je_FinishedAt :: "time option"
  je_DurationMS :: int
  je_QueueWaitMS :: int
  je_InferenceMS :: int
  je_TokensGenerated :: int
  je_Deferred :: bool
  je_ErrorCode :: string

end
