(* ===== verification/Layers.thy ===== *)
theory Layers
  imports Model_Types
begin

text \<open>
  The VRAM arithmetic of \<open>src/internal/backend/vram/layers.go\<close> and the two fit tests of
  \<open>vram.go\<close> built on it. Sizes are \<open>int64\<close> megabytes; the integer model is exact as long as no
  product overflows, which theory \<open>Layers_Machine\<close> shows for all sizes up to \<open>2 ^ 40\<close> MB.
\<close>

section \<open>The computations\<close>

definition defaultTotalLayers :: int where "defaultTotalLayers = 32"

definition ScaledKVOverheadMB :: "ModelDescriptor \<Rightarrow> int \<Rightarrow> bool \<Rightarrow> int" where
  "ScaledKVOverheadMB d slots needsVision =
     (let slots = (if slots < 1 then 1 else slots);
          (cache, fixed) = (if needsVision \<and> HasVision d then VisionKVParts d else KVParts d)
      in cache * slots + fixed)"

text \<open>The proportional split is computed in floats; the truncated product is the exact quotient for every size
  below \<open>2\<^sup>4\<^sup>0\<close> MB.\<close>

definition ComputeGPULayers :: "int \<Rightarrow> int \<Rightarrow> int" where
  "ComputeGPULayers modelWeightMB availableVRAMMB =
     (if modelWeightMB \<le> 0 then -1
      else if availableVRAMMB < 0 then -1
      else if availableVRAMMB \<ge> modelWeightMB + modelWeightMB sdiv 10 then -1
      else if availableVRAMMB < modelWeightMB sdiv 5 then 0
      else let layers = availableVRAMMB * defaultTotalLayers div modelWeightMB in if layers < 1 then 1 else layers)"

definition FitLayers :: "int \<Rightarrow> int \<Rightarrow> int \<Rightarrow> int \<Rightarrow> int \<Rightarrow> int" where
  "FitLayers weightMB kvOverheadMB availableVRAMMB totalLayers bufferPct =
     (if weightMB \<le> 0 \<or> availableVRAMMB < 0 then -1
      else let total = (if totalLayers \<le> 0 then defaultTotalLayers else totalLayers);
               budget = availableVRAMMB * 100 sdiv (100 + bufferPct) - kvOverheadMB
           in if budget \<ge> weightMB then -1
              else if budget \<le> 0 then 0
              else let layers = budget * total sdiv weightMB
                   in if layers < 1 then 0 else if layers \<ge> total then -1 else layers)"

definition GPUResidentMB :: "int \<Rightarrow> int \<Rightarrow> int \<Rightarrow> int \<Rightarrow> int" where
  "GPUResidentMB weightMB kvOverheadMB gpuLayers totalLayers =
     (let total = (if totalLayers \<le> 0 then defaultTotalLayers else totalLayers)
      in if gpuLayers < 0 then weightMB + kvOverheadMB
         else if gpuLayers = 0 then kvOverheadMB
         else let gpuLayers = (if gpuLayers > total then total else gpuLayers)
              in weightMB * gpuLayers sdiv total + kvOverheadMB)"

definition fitsWithBuffer :: "int \<Rightarrow> int \<Rightarrow> int \<Rightarrow> bool" where
  "fitsWithBuffer resident avail pct = (resident + resident * pct sdiv 100 \<le> avail)"

definition residentOf :: "ModelDescriptor \<Rightarrow> int \<Rightarrow> bool \<Rightarrow> int \<Rightarrow> int" where
  "residentOf d layers vision slots =
     GPUResidentMB (WeightMB d vision) (ScaledKVOverheadMB d slots vision) layers (TotalLayers d)"

definition effectiveHeadroomFits :: "ModelDescriptor \<Rightarrow> int \<Rightarrow> bool \<Rightarrow> int \<Rightarrow> int \<Rightarrow> int \<Rightarrow> bool" where
  "effectiveHeadroomFits loaded loadedLayers needsVision slots availRaw bufferPct =
     (let resident = residentOf loaded loadedLayers needsVision slots
      in fitsWithBuffer resident (availRaw + resident) bufferPct)"

section \<open>Sizes are never negative\<close>

lemma ScaledKVOverheadMB_nonneg [layer_arith]:
  assumes "wf_desc d"
  shows "0 \<le> ScaledKVOverheadMB d slots v"
proof -
  obtain c f where cf: "(if v \<and> HasVision d then VisionKVParts d else KVParts d) = (c, f)"
    by (cases "if v \<and> HasVision d then VisionKVParts d else KVParts d") auto
  with assms have "0 \<le> c" "0 \<le> f"
    using KVParts_nonneg [of d c f] VisionKVParts_nonneg [of d c f] by (auto split: if_splits)
  then show ?thesis by (simp add: ScaledKVOverheadMB_def cf Let_def)
qed

lemma GPUResidentMB_nonneg [layer_arith]:
  assumes "0 \<le> w" and "0 \<le> kv"
  shows "0 \<le> GPUResidentMB w kv l t"
  using assms
  by (auto simp: GPUResidentMB_def Let_def sdiv_nonneg defaultTotalLayers_def
      intro!: add_nonneg_nonneg pos_imp_zdiv_nonneg_iff [THEN iffD2])

lemma residentOf_nonneg [layer_arith]: "wf_desc d \<Longrightarrow> 0 \<le> residentOf d l v n"
  by (simp add: residentOf_def GPUResidentMB_nonneg WeightMB_nonneg ScaledKVOverheadMB_nonneg)

section \<open>Monotonicity: more memory, more of everything\<close>

lemma ScaledKVOverheadMB_mono_slots:
  assumes "wf_desc d" and "m \<le> n"
  shows "ScaledKVOverheadMB d m v \<le> ScaledKVOverheadMB d n v"
proof -
  obtain c f where cf: "(if v \<and> HasVision d then VisionKVParts d else KVParts d) = (c, f)"
    by (cases "if v \<and> HasVision d then VisionKVParts d else KVParts d") auto
  with assms have c: "0 \<le> c"
    using KVParts_nonneg [of d c f] VisionKVParts_nonneg [of d c f] by (auto split: if_splits)
  have "(if m < 1 then 1 else m) \<le> (if n < 1 then 1 else n)" using assms by simp
  with c show ?thesis
    unfolding ScaledKVOverheadMB_def cf Let_def prod.case
    by (intro add_right_mono mult_left_mono) auto
qed

lemma fitsWithBuffer_mono: "fitsWithBuffer r a p \<Longrightarrow> a \<le> b \<Longrightarrow> fitsWithBuffer r b p"
  by (simp add: fitsWithBuffer_def)

section \<open>The budget: what fits inside the buffer\<close>

lemma budget_fits:
  assumes r: "0 \<le> r" and a: "0 \<le> a" and p: "0 \<le> p"
    and le: "r \<le> a * 100 sdiv (100 + p)"
  shows "fitsWithBuffer r a p"
proof -
  have "r \<le> a * 100 div (100 + p)" using le a p by (simp add: sdiv_nonneg)
  then have "r * (100 + p) \<le> a * 100" using p by (simp add: div_le_iff_mult)
  then have "r * p \<le> (a - r) * 100" by (simp add: algebra_simps)
  then have "r * p div 100 \<le> (a - r) * 100 div 100" by (intro zdiv_mono1) auto
  then have "r * p div 100 \<le> a - r" by simp
  then show ?thesis using r p by (simp add: fitsWithBuffer_def sdiv_nonneg)
qed

text \<open>The partial count \<open>FitLayers\<close> returns lies strictly between none and all.\<close>

lemma FitLayers_range:
  "FitLayers w kv a t p = -1 \<or> FitLayers w kv a t p = 0 \<or>
   (0 < FitLayers w kv a t p \<and> FitLayers w kv a t p < (if t \<le> 0 then defaultTotalLayers else t))"
  by (auto simp: FitLayers_def Let_def)

lemma FitLayers_full:
  assumes "0 < w" "0 \<le> a" "0 \<le> p" "FitLayers w kv a t p = -1"
  shows "w \<le> a * 100 sdiv (100 + p) - kv"
proof -
  let ?b = "a * 100 sdiv (100 + p) - kv"
  let ?t = "if t \<le> 0 then defaultTotalLayers else t"
  have t: "0 < ?t" by (simp add: defaultTotalLayers_def)
  show ?thesis
  proof (rule ccontr)
    assume n: "\<not> w \<le> ?b"
    with assms have pos: "0 < ?b" and lay: "?t \<le> ?b * ?t sdiv w"
      by (auto simp: FitLayers_def Let_def split: if_splits)
    then have "?t \<le> ?b * ?t div w" using assms t by (simp add: sdiv_nonneg)
    then have "?t * w \<le> ?b * ?t" using assms by (simp only: div_le_iff_mult)
    with t have "w \<le> ?b" by (simp add: mult.commute)
    with n show False by simp
  qed
qed

lemma FitLayers_partial:
  assumes "0 < w" "0 \<le> a" "0 < FitLayers w kv a t p"
  shows "let b = a * 100 sdiv (100 + p) - kv; T = (if t \<le> 0 then defaultTotalLayers else t)
         in 0 < b \<and> b < w \<and> FitLayers w kv a t p * w \<le> b * T \<and> b * T < (FitLayers w kv a t p + 1) * w"
proof -
  define b where "b = a * 100 sdiv (100 + p) - kv"
  define T where "T = (if t \<le> 0 then defaultTotalLayers else t)"
  have T: "0 < T" by (simp add: T_def defaultTotalLayers_def)
  from assms have b: "0 < b" "b < w" and L: "FitLayers w kv a t p = b * T sdiv w"
    by (auto simp: FitLayers_def Let_def b_def T_def split: if_splits)
  then have L': "FitLayers w kv a t p = b * T div w" using assms T by (simp add: sdiv_nonneg)
  have "FitLayers w kv a t p * w \<le> b * T"
    unfolding L' using div_le_iff_mult [of w "b * T div w" "b * T"] assms by simp
  moreover have "\<not> (b * T div w + 1) * w \<le> b * T"
    using div_le_iff_mult [of w "b * T div w + 1" "b * T"] assms by simp
  then have "b * T < (FitLayers w kv a t p + 1) * w" by (simp add: L')
  ultimately show ?thesis
    using b unfolding b_def [symmetric] T_def [symmetric] by (simp add: Let_def)
qed

text \<open>The GPU-resident footprint of the returned split stays inside the budget.\<close>

lemma GPUResidentMB_FitLayers:
  assumes w: "0 < w" and kv: "0 \<le> kv" and a: "0 \<le> a" and p: "0 \<le> p"
    and nz: "FitLayers w kv a t p \<noteq> 0"
  shows "GPUResidentMB w kv (FitLayers w kv a t p) t \<le> a * 100 sdiv (100 + p)"
proof (cases "FitLayers w kv a t p = -1")
  case True
  with FitLayers_full [OF w a p True] show ?thesis by (simp add: GPUResidentMB_def)
next
  case False
  let ?L = "FitLayers w kv a t p"
  define T where "T = (if t \<le> 0 then defaultTotalLayers else t)"
  have pos: "0 < ?L" and lt: "?L < T"
    using FitLayers_range [of w kv a t p] False nz by (auto simp: T_def)
  have T: "0 < T" by (simp add: T_def defaultTotalLayers_def)
  from FitLayers_partial [OF w a pos] have "w * ?L \<le> (a * 100 sdiv (100 + p) - kv) * T"
    by (simp add: Let_def T_def mult.commute)
  then have "w * ?L div T \<le> a * 100 sdiv (100 + p) - kv"
    using T zdiv_mono1 [of "w * ?L" "(a * 100 sdiv (100 + p) - kv) * T" T] by simp
  then show ?thesis
    using pos lt w T unfolding GPUResidentMB_def T_def [symmetric]
    by (simp add: Let_def sdiv_nonneg)
qed

text \<open>
  Admission is safe: whenever \<open>FitLayers\<close> offers any GPU offload, full or partial, the memory
  that split really occupies (weights on the card plus the KV overhead), enlarged by the safety
  buffer, is at most the free VRAM it was computed from.
\<close>

lemma FitLayers_fits:
  assumes "0 < weightMB" and "0 \<le> kvOverheadMB" and "0 \<le> availableVRAMMB" and "0 \<le> bufferPct"
    and "FitLayers weightMB kvOverheadMB availableVRAMMB totalLayers bufferPct \<noteq> 0"
  shows "fitsWithBuffer
           (GPUResidentMB weightMB kvOverheadMB
             (FitLayers weightMB kvOverheadMB availableVRAMMB totalLayers bufferPct) totalLayers)
           availableVRAMMB bufferPct"
  using assms by (intro budget_fits GPUResidentMB_FitLayers GPUResidentMB_nonneg) auto

lemma FitLayers_fits_witness:
  "FitLayers 4700 1200 4000 34 10 = 17 \<and> fitsWithBuffer (GPUResidentMB 4700 1200 17 34) 4000 10"
proof -
  have e: "FitLayers 4700 1200 4000 34 10 = 17"
    by (simp add: FitLayers_def signed_divide_int_def)
  show ?thesis using FitLayers_fits [of 4700 1200 4000 10 34] by (simp add: e)
qed

text \<open>
  C4. \<open>FitLayers\<close> is the best such split. With \<open>b\<close> the megabytes left for weights: it answers full
  offload exactly when all the weights fit \<open>b\<close>; otherwise the returned count of layers fits \<open>b\<close> in
  exact proportion and one layer more would not.
\<close>

theorem FitLayers_optimal:
  fixes weightMB kvOverheadMB availableVRAMMB totalLayers bufferPct :: int
  assumes "0 < weightMB" and "0 \<le> availableVRAMMB" and "0 \<le> bufferPct"
  defines "b \<equiv> availableVRAMMB * 100 sdiv (100 + bufferPct) - kvOverheadMB"
    and "T \<equiv> (if totalLayers \<le> 0 then defaultTotalLayers else totalLayers)"
    and "L \<equiv> FitLayers weightMB kvOverheadMB availableVRAMMB totalLayers bufferPct"
  shows "(L = -1 \<longleftrightarrow> weightMB \<le> b) \<and>
         (L \<noteq> -1 \<longrightarrow> 0 \<le> L \<and> L < T \<and> L * weightMB \<le> max 0 b * T \<and> b * T < (L + 1) * weightMB)"
proof -
  have T: "0 < T" by (simp add: T_def defaultTotalLayers_def)
  have full: "L = -1 \<longleftrightarrow> weightMB \<le> b"
  proof
    assume "L = -1"
    then show "weightMB \<le> b" unfolding L_def b_def by (rule FitLayers_full [OF assms(1-3)])
  next
    assume "weightMB \<le> b"
    then show "L = -1" using assms(1,2) by (simp add: L_def b_def FitLayers_def Let_def)
  qed
  consider "L = -1" | "L = 0" | "0 < L" "L < T"
    using FitLayers_range [of weightMB kvOverheadMB availableVRAMMB totalLayers bufferPct]
    by (auto simp: L_def T_def)
  then show ?thesis
  proof cases
    case 1
    with full show ?thesis by simp
  next
    case 2
    have "b * T < weightMB"
    proof (cases "b \<le> 0")
      case True
      then have "b * T \<le> 0" using T by (simp add: mult_nonpos_nonneg)
      with assms(1) show ?thesis by simp
    next
      case False
      with 2 assms(1,2) full have "b * T sdiv weightMB < 1"
        by (auto simp: L_def b_def T_def FitLayers_def Let_def split: if_splits)
      then have "\<not> 1 \<le> b * T div weightMB" using False T assms(1) by (simp add: sdiv_nonneg)
      then show ?thesis using div_le_iff_mult [of weightMB 1 "b * T"] assms(1) by simp
    qed
    with 2 T full show ?thesis by simp
  next
    case 3
    from FitLayers_partial [OF assms(1,2), of kvOverheadMB totalLayers bufferPct] 3
    have "L * weightMB \<le> b * T" "b * T < (L + 1) * weightMB" "0 < b"
      by (auto simp: L_def b_def T_def Let_def)
    with 3 full show ?thesis by (simp add: max_def)
  qed
qed

theorem FitLayers_optimal_witness:
  "FitLayers 4700 1200 4000 34 10 = 17 \<and> 17 * 4700 \<le> (2436 * 34 :: int) \<and> 2436 * 34 < (18 * 4700 :: int)"
proof -
  have e: "FitLayers 4700 1200 4000 34 10 = 17" and b: "4000 * 100 sdiv (100 + 10) - 1200 = (2436::int)"
    by (simp_all add: FitLayers_def signed_divide_int_def)
  show ?thesis using FitLayers_optimal [of 4700 4000 10 1200 34] unfolding b by (simp add: e)
qed

section \<open>Reuse of a loaded model\<close>

text \<open>
  A healthy model is never mistaken for a starved one. If a split was admitted for \<open>avail\<close> free
  megabytes, then once the model itself has taken its footprint out of that memory (or less than
  that has been lost), the reuse test still passes, so loading cannot start an evict-and-reload loop.
\<close>

lemma admitted_model_is_reusable:
  assumes "fitsWithBuffer (residentOf d layers vision slots) avail bufferPct"
    and "avail - residentOf d layers vision slots \<le> availNow"
  shows "effectiveHeadroomFits d layers vision slots availNow bufferPct"
  using assms by (simp add: effectiveHeadroomFits_def Let_def fitsWithBuffer_def)

definition exampleStrong :: ModelDescriptor where
  "exampleStrong = \<lparr>TierLabel = TierStrong, Name = ''strong'', FilePath = ''s.gguf'', MMProjPath = '''',
     RequiredVRAMMB = 4700, Modality = ''text'', GPULayers = 0, Port = 8090, TotalLayers = 34,
     KVOverheadMB = 0, KVCacheMB = 400, KVFixedMB = 400, VisionRequiredVRAMMB = 0,
     VisionKVCacheMB = 0, VisionKVFixedMB = 0, RequireChatTemplate = False\<rparr>"

lemma residentOf_exampleStrong: "residentOf exampleStrong 17 False 2 = 3550"
  by (simp add: residentOf_def exampleStrong_def GPUResidentMB_def WeightMB_def HasVision_def
      ScaledKVOverheadMB_def KVParts_def signed_divide_int_def)

lemma admitted_model_is_reusable_witness:
  "effectiveHeadroomFits exampleStrong 17 False 2 450 10"
  by (rule admitted_model_is_reusable [where avail = 4000])
     (simp_all add: residentOf_exampleStrong fitsWithBuffer_def signed_divide_int_def)

end
