(* ===== verification/Layers_Machine.thy ===== *)
theory Layers_Machine
  imports Layers "HOL-Library.Word"
begin

text \<open>
  The computations of \<open>src/internal/backend/vram/layers.go\<close> at Go's width: every sum, difference,
  product and quotient is an \<open>int64\<close> that wraps. For megabyte counts up to \<open>2 ^ 40\<close>, layer counts
  and buffer percentages up to \<open>2 ^ 20\<close> no operation wraps, so the integer model is exact there.
\<close>

definition int64 :: "int \<Rightarrow> int" where
  "int64 x = sint (word_of_int x :: 64 word)"

lemma int64_id: "- (2 ^ 63) \<le> x \<Longrightarrow> x < 2 ^ 63 \<Longrightarrow> int64 x = x"
  by (simp add: int64_def signed_take_bit_int_eq_self sint_sbintrunc')

lemma int64_wraps: "int64 (2 ^ 63) = - (2 ^ 63)"
  by (simp add: int64_def)

definition FitLayers64 :: "int \<Rightarrow> int \<Rightarrow> int \<Rightarrow> int \<Rightarrow> int \<Rightarrow> int" where
  "FitLayers64 weightMB kvOverheadMB availableVRAMMB totalLayers bufferPct =
     (if weightMB \<le> 0 \<or> availableVRAMMB < 0 then -1
      else let total = (if totalLayers \<le> 0 then defaultTotalLayers else totalLayers);
               budget = int64 (int64 (int64 (availableVRAMMB * 100) sdiv int64 (100 + bufferPct)) - kvOverheadMB)
           in if budget \<ge> weightMB then -1
              else if budget \<le> 0 then 0
              else let layers = int64 (int64 (budget * total) sdiv weightMB)
                   in if layers < 1 then 0 else if layers \<ge> total then -1 else layers)"

definition GPUResidentMB64 :: "int \<Rightarrow> int \<Rightarrow> int \<Rightarrow> int \<Rightarrow> int" where
  "GPUResidentMB64 weightMB kvOverheadMB gpuLayers totalLayers =
     (let total = (if totalLayers \<le> 0 then defaultTotalLayers else totalLayers)
      in if gpuLayers < 0 then int64 (weightMB + kvOverheadMB)
         else if gpuLayers = 0 then kvOverheadMB
         else let gpuLayers = (if gpuLayers > total then total else gpuLayers)
              in int64 (int64 (int64 (weightMB * gpuLayers) sdiv total) + kvOverheadMB))"

abbreviation sizeBound :: int where "sizeBound \<equiv> 2 ^ 40"
abbreviation countBound :: int where "countBound \<equiv> 2 ^ 20"

lemma int64_small_product:
  assumes "0 \<le> a" "a \<le> sizeBound" "0 \<le> n" "n \<le> countBound"
  shows "0 \<le> a * n \<and> a * n \<le> 2 ^ 60 \<and> int64 (a * n) = a * n"
proof -
  have "a * n \<le> sizeBound * countBound" using assms by (intro mult_mono) auto
  moreover have "0 \<le> a * n" using assms by simp
  ultimately show ?thesis by (auto intro!: int64_id)
qed

lemma small_quotient:
  assumes "0 \<le> (a::int)" "a \<le> 2 ^ 60" "0 < b"
  shows "0 \<le> a sdiv b \<and> a sdiv b \<le> a \<and> int64 (a sdiv b) = a sdiv b"
proof -
  have "a sdiv b = a div b" using assms by (simp add: sdiv_nonneg)
  moreover have "0 \<le> a div b" using assms by (simp add: pos_imp_zdiv_nonneg_iff)
  moreover have "a div b \<le> a" using assms zdiv_mono2 [of a 1 b] by simp
  ultimately show ?thesis using assms by (auto intro!: int64_id)
qed

text \<open>
  C5. The integer model of the VRAM arithmetic is exact at machine width: for sizes up to \<open>2 ^ 40\<close>
  megabytes and layer counts and buffer percentages up to \<open>2 ^ 20\<close>, the wrapping \<open>int64\<close>
  computations of \<open>FitLayers\<close> and \<open>GPUResidentMB\<close> give exactly the mathematical result.
\<close>

theorem machine_arithmetic_exact:
  fixes w kv avail total pct layers :: int
  assumes "0 \<le> w" "w \<le> 2 ^ 40" and "0 \<le> kv" "kv \<le> 2 ^ 40" and "avail \<le> 2 ^ 40"
    and "total \<le> 2 ^ 20" and "0 \<le> pct" "pct \<le> 2 ^ 20"
  shows "FitLayers64 w kv avail total pct = FitLayers w kv avail total pct
    \<and> GPUResidentMB64 w kv layers total = GPUResidentMB w kv layers total"
proof
  define t where "t = (if total \<le> 0 then defaultTotalLayers else total)"
  have t: "0 < t" "t \<le> 2 ^ 20" using assms(6) by (auto simp: t_def defaultTotalLayers_def)
  show "FitLayers64 w kv avail total pct = FitLayers w kv avail total pct"
  proof (cases "w \<le> 0 \<or> avail < 0")
    case True
    then show ?thesis by (auto simp: FitLayers64_def FitLayers_def)
  next
    case False
    then have w: "0 < w" "0 \<le> avail" by auto
    note p = int64_small_product [of avail 100]
    have pct: "int64 (100 + pct) = 100 + pct" using assms by (intro int64_id) auto
    note q = small_quotient [of "avail * 100" "100 + pct"]
    define bud where "bud = avail * 100 sdiv (100 + pct) - kv"
    have le: "bud < w \<Longrightarrow> bud \<le> 2 ^ 40" using assms(2) by simp
    have b: "int64 bud = bud" unfolding bud_def using p q w assms by (intro int64_id) auto
    have r: "int64 (bud * t) = bud * t \<and> int64 (bud * t sdiv w) = bud * t sdiv w" if "\<not> bud \<le> 0" "bud < w"
      using int64_small_product [of bud t] small_quotient [of "bud * t" w] that le t w by auto
    have *: "int64 (int64 (int64 (avail * 100) sdiv int64 (100 + pct)) - kv) = bud"
      using p q w assms b pct by (auto simp: bud_def)
    show ?thesis
      unfolding FitLayers64_def FitLayers_def Let_def t_def [symmetric] * bud_def [symmetric]
      using r by auto
  qed
  have g: "int64 (int64 (w * g) sdiv t) = w * g sdiv t \<and> int64 (w * g sdiv t + kv) = w * g sdiv t + kv"
    if "0 \<le> g" "g \<le> t" for g
    using int64_small_product [of w g] small_quotient [of "w * g" t] that t assms
    by (auto intro!: int64_id)
  have wk: "int64 (w + kv) = w + kv" using assms by (intro int64_id) auto
  show "GPUResidentMB64 w kv layers total = GPUResidentMB w kv layers total"
    unfolding GPUResidentMB64_def GPUResidentMB_def Let_def t_def [symmetric]
    using g [of layers] g [of t] t wk by auto
qed

theorem machine_arithmetic_exact_witness:
  "FitLayers64 4700 1200 3000 34 10 = FitLayers 4700 1200 3000 34 10 \<and>
   GPUResidentMB64 4700 1200 11 34 = GPUResidentMB 4700 1200 11 34"
  by (rule machine_arithmetic_exact) simp_all

end
