(* ===== verification/Channels.thy ===== *)
theory Channels
  imports Model_Types
begin

text \<open>
  Go's buffered channels, and the interface the pipeline relies on: a bounded first-in first-out
  buffer. The interface is a locale; its client lemma (nothing is lost, duplicated or reordered over
  any run of sends and receives) is proved once and holds of every channel of the program.
\<close>

section \<open>Bounded FIFO buffers\<close>

datatype 'a fifo_op = Send 'a | Recv

text \<open>A run of operations; one that cannot proceed is skipped. Returned: the buffer, what was
  accepted and what was received, both in order.\<close>

fun fifo_run :: "('q \<Rightarrow> 'a \<Rightarrow> 'q option) \<Rightarrow> ('q \<Rightarrow> ('a \<times> 'q) option) \<Rightarrow> 'q \<Rightarrow> 'a fifo_op list \<Rightarrow> 'q \<times> 'a list \<times> 'a list" where
  "fifo_run send recv q [] = (q, [], [])"
| "fifo_run send recv q (Send x # ops) =
     (case send q x of
        None \<Rightarrow> fifo_run send recv q ops
      | Some q1 \<Rightarrow> (case fifo_run send recv q1 ops of (q2, sent, got) \<Rightarrow> (q2, x # sent, got)))"
| "fifo_run send recv q (Recv # ops) =
     (case recv q of
        None \<Rightarrow> fifo_run send recv q ops
      | Some (x, q1) \<Rightarrow> (case fifo_run send recv q1 ops of (q2, sent, got) \<Rightarrow> (q2, sent, x # got)))"

locale bounded_fifo =
  fixes send :: "'q \<Rightarrow> 'a \<Rightarrow> 'q option"
    and recv :: "'q \<Rightarrow> ('a \<times> 'q) option"
    and contents :: "'q \<Rightarrow> 'a list"
    and capacity :: "'q \<Rightarrow> nat"
    and invar :: "'q \<Rightarrow> bool"
  assumes send_contents: "invar q \<Longrightarrow> send q x = Some q' \<Longrightarrow> contents q' = contents q @ [x]"
    and send_room: "invar q \<Longrightarrow> send q x = Some q' \<Longrightarrow> length (contents q) < capacity q"
    and send_keeps: "invar q \<Longrightarrow> send q x = Some q' \<Longrightarrow> invar q' \<and> capacity q' = capacity q"
    and recv_contents: "invar q \<Longrightarrow> recv q = Some (x, q') \<Longrightarrow> contents q = x # contents q'"
    and recv_keeps: "invar q \<Longrightarrow> recv q = Some (x, q') \<Longrightarrow> invar q' \<and> capacity q' = capacity q"
    and recv_none: "invar q \<Longrightarrow> recv q = None \<longleftrightarrow> contents q = []"
    and within: "invar q \<Longrightarrow> length (contents q) \<le> capacity q"
begin

lemma run_fifo:
  assumes "invar q" and "fifo_run send recv q ops = (q', sent, got)"
  shows "invar q' \<and> capacity q' = capacity q \<and> contents q @ sent = got @ contents q'"
  using assms
proof (induction ops arbitrary: q q' sent got)
  case (Cons op ops)
  show ?case
  proof (cases op)
    case (Send x)
    show ?thesis
    proof (cases "send q x")
      case None
      with Cons Send show ?thesis by simp
    next
      case (Some q1)
      with Cons.prems(2) Send obtain sent1 where r: "fifo_run send recv q1 ops = (q', sent1, got)" "sent = x # sent1"
        by (auto split: prod.splits)
      from send_keeps [OF Cons.prems(1) Some] send_contents [OF Cons.prems(1) Some] r(2) Cons.IH [OF _ r(1)]
      show ?thesis by simp
    qed
  next
    case Recv
    show ?thesis
    proof (cases "recv q")
      case None
      with Cons Recv show ?thesis by simp
    next
      case (Some xq)
      obtain x q1 where xq: "xq = (x, q1)" by (cases xq)
      with Some Cons.prems(2) Recv obtain got1 where r: "fifo_run send recv q1 ops = (q', sent, got1)" "got = x # got1"
        by (auto split: prod.splits)
      from recv_keeps [OF Cons.prems(1), of x q1] recv_contents [OF Cons.prems(1), of x q1] Some xq r(2) Cons.IH [OF _ r(1)]
      show ?thesis by simp
    qed
  qed
qed simp

lemma run_bounded:
  assumes "invar q" and "fifo_run send recv q ops = (q', sent, got)"
  shows "length (contents q') \<le> capacity q"
  using run_fifo [OF assms] within by fastforce

end

section \<open>Buffered channels\<close>

record 'a chan =
  chan_cap :: nat
  chan_buf :: "'a list"
  chan_closed :: bool

definition make_chan :: "nat \<Rightarrow> 'a chan" where
  "make_chan n = \<lparr>chan_cap = n, chan_buf = [], chan_closed = False\<rparr>"

text \<open>\<open>None\<close>: the operation cannot proceed now (a full, empty or closed channel).\<close>

definition chan_send :: "'a chan \<Rightarrow> 'a \<Rightarrow> 'a chan option" where
  "chan_send c x = (if chan_closed c \<or> length (chan_buf c) \<ge> chan_cap c then None
                    else Some (c\<lparr>chan_buf := chan_buf c @ [x]\<rparr>))"

definition chan_recv :: "'a chan \<Rightarrow> ('a \<times> 'a chan) option" where
  "chan_recv c = (case chan_buf c of [] \<Rightarrow> None | x # xs \<Rightarrow> Some (x, c\<lparr>chan_buf := xs\<rparr>))"

definition chan_close :: "'a chan \<Rightarrow> 'a chan" where
  "chan_close c = c\<lparr>chan_closed := True\<rparr>"

definition chan_ok :: "'a chan \<Rightarrow> bool" where
  "chan_ok c = (length (chan_buf c) \<le> chan_cap c)"

interpretation go_chan: bounded_fifo chan_send chan_recv chan_buf chan_cap chan_ok
  by unfold_locales (auto simp: chan_send_def chan_recv_def chan_ok_def split: if_splits list.splits)

lemma make_chan_ok [simp]: "chan_ok (make_chan n)" "chan_buf (make_chan n) = []" "chan_cap (make_chan n) = n"
  by (simp_all add: chan_ok_def make_chan_def)

lemma chan_send_Some:
  "chan_send c x = Some c' \<Longrightarrow> chan_buf c' = chan_buf c @ [x] \<and> chan_cap c' = chan_cap c"
  by (auto simp: chan_send_def split: if_splits)

lemma chan_recv_Some:
  "chan_recv c = Some (x, c') \<Longrightarrow> chan_buf c = x # chan_buf c' \<and> chan_cap c' = chan_cap c"
  by (auto simp: chan_recv_def split: list.splits)

end
