(* ===== verification/Pipeline.thy ===== *)
theory Pipeline
  imports Channels "HOL-Library.Multiset"
begin

text \<open>
  The job pipeline: \<open>src/internal/queue/queue.go\<close>, \<open>batcher/batcher.go\<close>, \<open>dispatcher/dispatcher.go\<close>
  and \<open>router/router.go\<close>, wired as \<open>cmd/server/main.go\<close> wires them. Requests enter a bounded queue,
  the batcher groups them, a pool of workers runs them through the router, and a batch the pool
  cannot take is dispatched by a goroutine of its own.
\<close>

section \<open>Jobs, results and the queue\<close>

record Result =
  r_Output :: string
  r_Reasoning :: string
  r_TokensGenerated :: int
  r_ModelTier :: string
  r_QualityDegraded :: bool
  r_TokPerSecSample :: rat
  r_StartedAt :: "time option"
  r_Err :: "go_error option"
  r_LengthLimited :: bool

definition zeroResult :: Result where
  "zeroResult = \<lparr>r_Output = '''', r_Reasoning = '''', r_TokensGenerated = 0, r_ModelTier = '''',
     r_QualityDegraded = False, r_TokPerSecSample = 0, r_StartedAt = None, r_Err = None, r_LengthLimited = False\<rparr>"

text \<open>\<open>hasResultCh\<close>: the job has a waiter (a non-nil result channel).\<close>

record Job =
  job_ID :: string
  job_CorrelationID :: string
  job_EnqueuedAt :: time
  job_Req :: Request
  hasResultCh :: bool

type_synonym Queue = "Job chan"

definition New_Queue :: "nat \<Rightarrow> Queue" where "New_Queue capacity = make_chan capacity"

text \<open>The scheduler resolves the select; \<open>None\<close> means the call stays blocked.\<close>

datatype selectCase = ChanReady | CtxDone

fun Enqueue :: "Queue \<Rightarrow> Job \<Rightarrow> selectCase \<Rightarrow> (Queue \<times> go_error option) option" where
  "Enqueue q job ChanReady = map_option (\<lambda>q'. (q', None)) (chan_send q job)"
| "Enqueue q job CtxDone = Some (q, Some (PlainError ''context''))"

definition Depth :: "Queue \<Rightarrow> nat" where "Depth q = length (chan_buf q)"

definition Close :: "Queue \<Rightarrow> Queue" where "Close q = chan_close q"

section \<open>The batcher\<close>

record Config =
  MaxBatchSize :: nat
  WindowDuration :: int

definition DefaultConfig :: Config where
  "DefaultConfig = \<lparr>MaxBatchSize = 8, WindowDuration = 20\<rparr>"

text \<open>\<open>deadline\<close> is when the window timer fires next; \<open>dispatched\<close> the batches handed to the callback.\<close>

record 'j bstate =
  batch :: "'j list"
  active :: nat
  deadline :: time
  dispatched :: "'j list list"
  exited :: bool

datatype 'j bevent = Got time 'j | DrainClosed time | TimerFired time | Cancelled time "'j list"

definition initBatcher :: "Config \<Rightarrow> time \<Rightarrow> 'j bstate" where
  "initBatcher cfg now = \<lparr>batch = [], active = 0, deadline = now + WindowDuration cfg, dispatched = [], exited = False\<rparr>"

definition bflush :: "Config \<Rightarrow> time \<Rightarrow> 'j bstate \<Rightarrow> 'j bstate" where
  "bflush cfg now st =
     (if batch st = [] then st
      else st\<lparr>dispatched := dispatched st @ [batch st], batch := [], active := 0, deadline := now + WindowDuration cfg\<rparr>)"

definition bappend :: "Config \<Rightarrow> time \<Rightarrow> 'j \<Rightarrow> 'j bstate \<Rightarrow> 'j bstate" where
  "bappend cfg now job st =
     (let st1 = st\<lparr>batch := batch st @ [job], active := length (batch st @ [job])\<rparr>
      in if length (batch st1) \<ge> MaxBatchSize cfg then bflush cfg now st1 else st1)"

fun bstep :: "Config \<Rightarrow> 'j bevent \<Rightarrow> 'j bstate \<Rightarrow> 'j bstate" where
  "bstep cfg (Got now job) st = (if exited st then st else bappend cfg now job st)"
| "bstep cfg (DrainClosed now) st = (if exited st then st else (bflush cfg now st)\<lparr>exited := True\<rparr>)"
| "bstep cfg (TimerFired now) st =
     (if exited st then st else (bflush cfg now st)\<lparr>deadline := now + WindowDuration cfg\<rparr>)"
| "bstep cfg (Cancelled now rest) st =
     (if exited st then st else (bflush cfg now (fold (bappend cfg now) rest st))\<lparr>exited := True\<rparr>)"

definition Run_batcher :: "Config \<Rightarrow> 'j bevent list \<Rightarrow> 'j bstate \<Rightarrow> 'j bstate" where
  "Run_batcher cfg evs st = fold (bstep cfg) evs st"

text \<open>The jobs the loop takes from the channel before it exits.\<close>

fun taken :: "'j bevent list \<Rightarrow> 'j list" where
  "taken [] = []"
| "taken (Got now j # evs) = j # taken evs"
| "taken (TimerFired now # evs) = taken evs"
| "taken (DrainClosed now # evs) = []"
| "taken (Cancelled now rest # evs) = rest"

definition batch_inv :: "Config \<Rightarrow> 'j bstate \<Rightarrow> bool" where
  "batch_inv cfg st = (active st = length (batch st)
     \<and> length (batch st) \<le> MaxBatchSize cfg - 1
     \<and> (\<forall>b\<in>set (dispatched st). b \<noteq> [] \<and> length b \<le> max 1 (MaxBatchSize cfg))
     \<and> (exited st \<longrightarrow> batch st = []))"

definition handled :: "'j bstate \<Rightarrow> 'j list" where
  "handled st = concat (dispatched st) @ batch st"

lemma bflush_handled [simp]: "handled (bflush cfg now st) = handled st"
  by (simp add: handled_def bflush_def)

lemma bflush_empty [simp]: "batch (bflush cfg now st) = []"
  by (simp add: bflush_def)

lemma bflush_exited [simp]: "exited (bflush cfg now st) = exited st"
  by (simp add: bflush_def)

lemma handled_update [simp]:
  "handled (st\<lparr>exited := e\<rparr>) = handled st" "handled (st\<lparr>deadline := d\<rparr>) = handled st"
  "handled (st\<lparr>batch := batch st @ [j], active := a\<rparr>) = handled st @ [j]"
  by (simp_all add: handled_def)

lemma bappend_handled [simp]: "handled (bappend cfg now j st) = handled st @ [j]"
  by (auto simp: bappend_def Let_def)

lemma bappend_exited [simp]: "exited (bappend cfg now j st) = exited st"
  by (auto simp: bappend_def Let_def)

lemma fold_bappend_handled [simp]: "handled (fold (bappend cfg now) js st) = handled st @ js"
  by (induction js arbitrary: st) simp_all

lemma bflush_inv: "batch_inv cfg st \<Longrightarrow> batch_inv cfg (bflush cfg now st)"
  by (auto simp: batch_inv_def bflush_def)

lemma bappend_inv: "batch_inv cfg st \<Longrightarrow> \<not> exited st \<Longrightarrow> batch_inv cfg (bappend cfg now j st)"
  by (auto simp: batch_inv_def bappend_def bflush_def Let_def)

lemma fold_bappend_inv:
  "batch_inv cfg st \<Longrightarrow> \<not> exited st \<Longrightarrow>
     batch_inv cfg (fold (bappend cfg now) js st) \<and> \<not> exited (fold (bappend cfg now) js st)"
  by (induction js arbitrary: st) (simp_all add: bappend_inv)

lemma batch_inv_update:
  "batch_inv cfg st \<Longrightarrow> batch st = [] \<Longrightarrow> batch_inv cfg (st\<lparr>exited := True\<rparr>)"
  "batch_inv cfg st \<Longrightarrow> batch_inv cfg (st\<lparr>deadline := d\<rparr>)"
  by (simp_all add: batch_inv_def)

lemma bstep_inv [inv_intro]:
  assumes "batch_inv cfg st"
  shows "batch_inv cfg (bstep cfg e st)"
proof (cases "exited st")
  case True
  with assms show ?thesis by (cases e) simp_all
next
  case False
  show ?thesis
  proof (cases e)
    case (Cancelled now rest)
    from fold_bappend_inv [OF assms False] have "batch_inv cfg (fold (bappend cfg now) rest st)" by blast
    with False Cancelled show ?thesis by (simp add: batch_inv_update bflush_inv)
  qed (use assms False in \<open>simp_all add: bappend_inv bflush_inv batch_inv_update\<close>)
qed

lemma fold_bstep_exited: "exited st \<Longrightarrow> fold (bstep cfg) evs st = st"
proof (induction evs)
  case (Cons e evs)
  then show ?case by (cases e) simp_all
qed simp

text \<open>
  The batcher loses, repeats and reorders nothing. Over any sequence of arrivals, timer
  firings and a shutdown, the batches it dispatched followed by the batch it still holds are exactly
  the jobs it took from the queue, in order; every dispatched batch has between one job and the
  configured maximum; the published active size is the size of the held batch; and once the loop has
  exited it holds nothing back.
\<close>

lemma batcher_exact:
  fixes evs :: "'j bevent list"
  assumes "Run_batcher cfg evs (initBatcher cfg now) = st"
  shows "concat (dispatched st) @ batch st = taken evs
    \<and> (\<forall>b\<in>set (dispatched st). b \<noteq> [] \<and> length b \<le> max 1 (MaxBatchSize cfg))
    \<and> active st = length (batch st) \<and> (exited st \<longrightarrow> concat (dispatched st) = taken evs)"
proof -
  have inv: "batch_inv cfg (Run_batcher cfg evs s)" if "batch_inv cfg s" for s :: "'j bstate"
    using that unfolding Run_batcher_def by (induction evs arbitrary: s) (simp_all add: bstep_inv)
  have h: "handled (Run_batcher cfg evs s) = handled s @ taken evs" if "\<not> exited s" for s :: "'j bstate"
    using that unfolding Run_batcher_def
    by (induction evs arbitrary: s rule: taken.induct) (auto simp: fold_bstep_exited)
  have "batch_inv cfg (initBatcher cfg now :: 'j bstate)"
    by (simp add: batch_inv_def initBatcher_def)
  from inv [OF this] h [of "initBatcher cfg now"]
  show ?thesis by (auto simp: assms [symmetric] batch_inv_def handled_def initBatcher_def)
qed

lemma batcher_exact_witness:
  "dispatched (Run_batcher \<lparr>MaxBatchSize = 2, WindowDuration = 20\<rparr>
     [Got 1 ''a'', Got 2 ''b'', Got 3 ''c'', Cancelled 4 [''d'', ''e'']]
     (initBatcher \<lparr>MaxBatchSize = 2, WindowDuration = 20\<rparr> 0)) = [[''a'', ''b''], [''c'', ''d''], [''e'']]
   \<and> concat [[''a'', ''b''], [''c'', ''d''], [''e'']]
     = taken [Got 1 ''a'', Got 2 ''b'', Got 3 ''c'', Cancelled 4 [''d'', ''e'']]"
proof -
  let ?cfg = "\<lparr>MaxBatchSize = 2, WindowDuration = 20\<rparr>"
  let ?evs = "[Got 1 ''a'', Got 2 ''b'', Got 3 ''c'', Cancelled 4 [''d'', ''e'']]"
  let ?st = "Run_batcher ?cfg ?evs (initBatcher ?cfg 0)"
  have d: "dispatched ?st = [[''a'', ''b''], [''c'', ''d''], [''e'']]" and e: "exited ?st"
    by (simp_all add: Run_batcher_def initBatcher_def bappend_def bflush_def Let_def)
  with batcher_exact [of ?cfg ?evs 0 ?st] show ?thesis by simp
qed

end
