(* ===== verification/Dispatch.thy ===== *)
theory Dispatch
  imports Pipeline
begin

text \<open>
  The router (\<open>src/internal/router/router.go\<close>), the worker pool
  (\<open>src/internal/dispatcher/dispatcher.go\<close>) and the whole pipeline as interleaved steps of the
  request handlers, the batcher goroutine, the workers and the overflow goroutines of
  \<open>cmd/server/main.go\<close>.
\<close>

section \<open>The router\<close>

text \<open>A backend call returns or panics.\<close>

datatype inferOutcome = Returned "Response res" | Panicked

type_synonym 'w backends = "string \<rightharpoonup> (Request \<Rightarrow> ('w, inferOutcome) call)"

text \<open>The results put on the job's channel.\<close>

definition sendResult :: "Job \<Rightarrow> Result \<Rightarrow> Result list" where
  "sendResult job res = (if hasResultCh job then [res] else [])"

definition DispatchOne :: "'w backends \<Rightarrow> 'w sys \<Rightarrow> Job \<Rightarrow> 'w sys \<times> Result list" where
  "DispatchOne backends s job =
     (case backends (ReqModality (job_Req job)) of
        None \<Rightarrow> (s, sendResult job (zeroResult\<lparr>r_Err := Some (berr ''invalid_modality'')\<rparr>))
      | Some infer \<Rightarrow>
          let startedAt = clock s in
          (case do_call (infer (job_Req job)) s of
             (s1, Panicked) \<Rightarrow> (s1, sendResult job (zeroResult\<lparr>r_Err := Some (berr ''internal_error'')\<rparr>))
           | (s1, Returned (Inl err)) \<Rightarrow>
               (s1, sendResult job (zeroResult\<lparr>r_Err := Some err, r_StartedAt := Some startedAt\<rparr>))
           | (s1, Returned (Inr resp)) \<Rightarrow>
               (s1, sendResult job \<lparr>r_Output = Output resp, r_Reasoning = RespReasoning resp,
                  r_TokensGenerated = TokensGenerated resp, r_ModelTier = ModelTier resp,
                  r_QualityDegraded = QualityDegraded resp, r_TokPerSecSample = TokPerSecSample resp,
                  r_StartedAt = Some startedAt, r_Err = None, r_LengthLimited = LengthLimited resp\<rparr>)))"

fun Dispatch :: "'w backends \<Rightarrow> 'w sys \<Rightarrow> Job list \<Rightarrow> 'w sys \<times> (Job \<times> Result list) list" where
  "Dispatch backends s [] = (s, [])"
| "Dispatch backends s (job # jobs) =
     (let (s1, out) = DispatchOne backends s job;
          (s2, rest) = Dispatch backends s1 jobs
      in (s2, (job, out) # rest))"

lemma DispatchOne_result:
  "\<exists>r. snd (DispatchOne backends s job) = sendResult job r"
  by (auto simp: DispatchOne_def Let_def split: option.split prod.split inferOutcome.split sum.split)

text \<open>
  The router answers every job exactly once. For a batch of any size and whatever the backends
  do, including panics, an unknown modality and errors, each job with a waiter gets exactly one
  result and a job without one none, in batch order; one bad job never stops the rest of the batch.
\<close>

lemma Dispatch_exactly_once:
  "map fst (snd (Dispatch backends s jobs)) = jobs
   \<and> list_all (\<lambda>(job, out). length out = (if hasResultCh job then 1 else 0)) (snd (Dispatch backends s jobs))"
proof (induction jobs arbitrary: s)
  case (Cons job jobs)
  obtain s1 out where 1: "DispatchOne backends s job = (s1, out)" by fastforce
  obtain s2 rest where 2: "Dispatch backends s1 jobs = (s2, rest)" by fastforce
  from DispatchOne_result [of backends s job] 1 have "length out = (if hasResultCh job then 1 else 0)"
    by (auto simp: sendResult_def)
  with Cons [of s1] 1 2 show ?case by simp
qed simp

text \<open>
  What the router reports is what the backend said: a success carries the output, tier and
  degradation flag of the response and no error; an error is passed on unchanged; a panic becomes
  \<open>internal_error\<close> and an unregistered modality \<open>invalid_modality\<close>, and no backend is called for it.
\<close>

lemma DispatchOne_faithful:
  assumes "hasResultCh job" and "DispatchOne backends s job = (s', out)"
  shows "case backends (ReqModality (job_Req job)) of
      None \<Rightarrow> s' = s \<and> map r_Err out = [Some (berr ''invalid_modality'')]
    | Some infer \<Rightarrow> (case do_call (infer (job_Req job)) s of
        (s1, Panicked) \<Rightarrow> s' = s1 \<and> map r_Err out = [Some (berr ''internal_error'')]
      | (s1, Returned (Inl e)) \<Rightarrow> s' = s1 \<and> map r_Err out = [Some e]
      | (s1, Returned (Inr resp)) \<Rightarrow> s' = s1 \<and> map r_Err out = [None]
          \<and> map r_Output out = [Output resp] \<and> map r_ModelTier out = [ModelTier resp]
          \<and> map r_QualityDegraded out = [QualityDegraded resp]
          \<and> map r_LengthLimited out = [LengthLimited resp])"
  using assms
  by (auto simp: DispatchOne_def sendResult_def Let_def split: option.splits prod.splits inferOutcome.splits sum.splits)

definition exampleJob :: Job where
  "exampleJob = \<lparr>job_ID = ''j1'', job_CorrelationID = ''c1'', job_EnqueuedAt = 0,
     job_Req = zeroRequest\<lparr>ReqModality := ''text'', Prompt := ''hello''\<rparr>, hasResultCh = True\<rparr>"

lemma DispatchOne_faithful_witness:
  "map r_Err (snd (DispatchOne [''text'' \<mapsto> \<lambda>r w. (w, 3, Panicked)] \<lparr>clock = 0, ext = ()\<rparr> exampleJob))
     = [Some (berr ''internal_error'')]"
  using DispatchOne_faithful [of exampleJob "[''text'' \<mapsto> \<lambda>r w. (w, 3, Panicked)]" "\<lparr>clock = 0, ext = ()\<rparr>"]
  by (cases "DispatchOne [''text'' \<mapsto> \<lambda>r w. (w, 3, Panicked)] \<lparr>clock = 0, ext = ()\<rparr> exampleJob")
     (simp add: exampleJob_def do_call_def)

section \<open>The worker pool and the pipeline around it\<close>

text \<open>A worker is between batches, inside a batch, inside \<open>DispatchOne\<close>, or gone.\<close>

datatype worker =
    WIdle
  | WBatch "Job list" nat
  | WBusy Job "Job list" nat
  | WExited

fun isBusy :: "worker \<Rightarrow> bool" where
  "isBusy (WBusy j js n) = True"
| "isBusy _ = False"

fun heldBy :: "worker \<Rightarrow> Job list" where
  "heldBy WIdle = []"
| "heldBy (WBatch js n) = js"
| "heldBy (WBusy j js n) = j # js"
| "heldBy WExited = []"

text \<open>\<open>paccepted\<close> and \<open>pdone\<close> are history: what the queue accepted and what \<open>DispatchOne\<close> finished.\<close>

record pipe =
  pq :: Queue
  pbat :: "Job bstate"
  batches :: "Job list chan"
  workers :: "worker list"
  inFlight :: int
  overflow :: "Job list list"
  ctxDone :: bool
  paccepted :: "Job list"
  pdone :: "Job list"

definition New_Dispatcher :: "int \<Rightarrow> Job list chan \<times> worker list" where
  "New_Dispatcher n = (let n = (if n < 1 then 1 else n) in (make_chan (nat n * 4), replicate (nat n) WIdle))"

definition initPipe :: "nat \<Rightarrow> Config \<Rightarrow> time \<Rightarrow> int \<Rightarrow> pipe" where
  "initPipe capacity cfg now n =
     \<lparr>pq = New_Queue capacity, pbat = initBatcher cfg now, batches = fst (New_Dispatcher n),
      workers = snd (New_Dispatcher n), inFlight = 0, overflow = [], ctxDone = False, paccepted = [], pdone = []\<rparr>"

definition Submit :: "Job list chan \<Rightarrow> Job list \<Rightarrow> Job list chan \<times> bool" where
  "Submit ch b = (case chan_send ch b of Some ch' \<Rightarrow> (ch', True) | None \<Rightarrow> (ch, False))"

text \<open>The callback of \<open>main.go\<close>: hand the batch to the pool, or dispatch it on a goroutine of its own.\<close>

definition dispatchBatch :: "Job list \<Rightarrow> pipe \<Rightarrow> pipe" where
  "dispatchBatch b p =
     (case Submit (batches p) b of
        (ch, True) \<Rightarrow> p\<lparr>batches := ch\<rparr>
      | (ch, False) \<Rightarrow> p\<lparr>overflow := overflow p @ [b]\<rparr>)"

definition batcherStep :: "Config \<Rightarrow> Job bevent \<Rightarrow> pipe \<Rightarrow> pipe" where
  "batcherStep cfg e p =
     (let st = bstep cfg e (pbat p)
      in fold dispatchBatch (dispatched st) (p\<lparr>pbat := st\<lparr>dispatched := []\<rparr>\<rparr>))"

inductive pipe_step :: "Config \<Rightarrow> pipe \<Rightarrow> pipe \<Rightarrow> bool" for cfg where
  enqueue: "Enqueue (pq p) j ChanReady = Some (q, None) \<Longrightarrow>
     pipe_step cfg p (p\<lparr>pq := q, paccepted := paccepted p @ [j]\<rparr>)"
| take_job: "\<lbrakk>\<not> exited (pbat p); chan_recv (pq p) = Some (j, q)\<rbrakk> \<Longrightarrow>
     pipe_step cfg p (batcherStep cfg (Got t j) (p\<lparr>pq := q\<rparr>))"
| window: "\<not> exited (pbat p) \<Longrightarrow> pipe_step cfg p (batcherStep cfg (TimerFired t) p)"
| stop: "pipe_step cfg p (p\<lparr>ctxDone := True\<rparr>)"
| drain: "\<lbrakk>ctxDone p; \<not> exited (pbat p)\<rbrakk> \<Longrightarrow>
     pipe_step cfg p (batcherStep cfg (Cancelled t (chan_buf (pq p))) (p\<lparr>pq := (pq p)\<lparr>chan_buf := []\<rparr>\<rparr>))"
| pick: "\<lbrakk>i < length (workers p); workers p ! i = WIdle; chan_recv (batches p) = Some (b, ch)\<rbrakk> \<Longrightarrow>
     pipe_step cfg p (p\<lparr>batches := ch, workers := (workers p)[i := WBatch b (length b)]\<rparr>)"
| begin_job: "\<lbrakk>i < length (workers p); workers p ! i = WBatch (j # js) n\<rbrakk> \<Longrightarrow>
     pipe_step cfg p (p\<lparr>inFlight := inFlight p + 1, workers := (workers p)[i := WBusy j js n]\<rparr>)"
| end_job: "\<lbrakk>i < length (workers p); workers p ! i = WBusy j js n\<rbrakk> \<Longrightarrow>
     pipe_step cfg p (p\<lparr>inFlight := inFlight p - 1, workers := (workers p)[i := WBatch js n], pdone := pdone p @ [j]\<rparr>)"
| next_batch: "\<lbrakk>i < length (workers p); workers p ! i = WBatch [] n\<rbrakk> \<Longrightarrow>
     pipe_step cfg p (p\<lparr>workers := (workers p)[i := WIdle]\<rparr>)"
| worker_exit: "\<lbrakk>i < length (workers p); workers p ! i = WIdle; ctxDone p\<rbrakk> \<Longrightarrow>
     pipe_step cfg p (p\<lparr>workers := (workers p)[i := WExited]\<rparr>)"
| overflow_job: "\<lbrakk>i < length (overflow p); overflow p ! i = j # js\<rbrakk> \<Longrightarrow>
     pipe_step cfg p (p\<lparr>overflow := (overflow p)[i := js], pdone := pdone p @ [j]\<rparr>)"

inductive pipe_reachable :: "Config \<Rightarrow> pipe \<Rightarrow> pipe \<Rightarrow> bool" for cfg p0 where
  here: "pipe_reachable cfg p0 p0"
| more: "pipe_reachable cfg p0 p \<Longrightarrow> pipe_step cfg p p' \<Longrightarrow> pipe_reachable cfg p0 p'"

inductive_cases pipe_stepE: "pipe_step cfg p p'"

text \<open>Everything the pipeline still holds, wherever it is.\<close>

definition pending :: "pipe \<Rightarrow> Job multiset" where
  "pending p = mset (chan_buf (pq p)) + mset (batch (pbat p)) + mset (concat (chan_buf (batches p)))
     + mset (concat (map heldBy (workers p))) + mset (concat (overflow p))"

definition pipe_inv :: "Config \<Rightarrow> pipe \<Rightarrow> bool" where
  "pipe_inv cfg p = (mset (paccepted p) = pending p + mset (pdone p)
     \<and> inFlight p = count_if isBusy (workers p)
     \<and> dispatched (pbat p) = [] \<and> batch_inv cfg (pbat p))"

lemma mset_concat_update:
  assumes "i < length xs"
  shows "mset (concat (map f (xs[i := y]))) + mset (f (xs ! i)) = mset (concat (map f xs)) + mset (f y)"
  using assms
proof (induction xs arbitrary: i)
  case (Cons x xs)
  then show ?case by (cases i) (simp_all add: add.assoc add.left_commute)
qed simp

lemma mset_concat_update_id:
  "i < length xs \<Longrightarrow> mset (concat (xs[i := y])) + mset (xs ! i) = mset (concat xs) + mset y"
  using mset_concat_update [of i xs "\<lambda>x. x" y] by simp

lemma dispatchBatch_fields [simp]:
  "pq (dispatchBatch b p) = pq p" "pbat (dispatchBatch b p) = pbat p" "workers (dispatchBatch b p) = workers p"
  "inFlight (dispatchBatch b p) = inFlight p" "paccepted (dispatchBatch b p) = paccepted p"
  "pdone (dispatchBatch b p) = pdone p" "ctxDone (dispatchBatch b p) = ctxDone p"
  by (simp_all add: dispatchBatch_def split: prod.split bool.split)

lemma fold_dispatchBatch_fields [simp]:
  "pq (fold dispatchBatch bs p) = pq p" "pbat (fold dispatchBatch bs p) = pbat p"
  "workers (fold dispatchBatch bs p) = workers p" "inFlight (fold dispatchBatch bs p) = inFlight p"
  "paccepted (fold dispatchBatch bs p) = paccepted p" "pdone (fold dispatchBatch bs p) = pdone p"
  by (induction bs arbitrary: p) simp_all

lemma dispatchBatch_pending: "pending (dispatchBatch b p) = pending p + mset b"
  by (auto simp: pending_def dispatchBatch_def Submit_def split: option.split dest: chan_send_Some)

lemma fold_dispatchBatch_pending: "pending (fold dispatchBatch bs p) = pending p + mset (concat bs)"
  by (induction bs arbitrary: p) (simp_all add: dispatchBatch_pending ac_simps)

lemma batcherStep_inv:
  assumes "mset (paccepted p) = pending p + mset (taken [e]) + mset (pdone p)"
    and "inFlight p = count_if isBusy (workers p)" "dispatched (pbat p) = []" "batch_inv cfg (pbat p)"
    and "\<not> exited (pbat p)"
  shows "pipe_inv cfg (batcherStep cfg e p)"
proof -
  let ?st = "bstep cfg e (pbat p)"
  have "handled ?st = handled (pbat p) @ taken [e]" using assms(5) by (cases e) simp_all
  then have m: "mset (concat (dispatched ?st)) + mset (batch ?st) = mset (batch (pbat p)) + mset (taken [e])"
    using assms(3) by (simp add: handled_def flip: mset_append)
  have "pending (p\<lparr>pbat := ?st\<lparr>dispatched := []\<rparr>\<rparr>) + mset (concat (dispatched ?st)) = pending p + mset (taken [e])"
    using m by (simp add: pending_def ac_simps)
  moreover have "batch_inv cfg (?st\<lparr>dispatched := []\<rparr>)"
    using bstep_inv [OF assms(4), of e] by (simp add: batch_inv_def)
  ultimately show ?thesis using assms(1,2)
    by (simp add: pipe_inv_def batcherStep_def Let_def fold_dispatchBatch_pending)
qed

lemma pipe_inv_worker:
  assumes "pipe_inv cfg p" "i < length (workers p)"
    and "mset (chan_buf (pq p')) = mset (chan_buf (pq p))" "pbat p' = pbat p" "overflow p' = overflow p"
    and "workers p' = (workers p)[i := w]" "paccepted p' = paccepted p"
    and "mset (heldBy w) + mset (concat (chan_buf (batches p'))) + mset (pdone p')
       = mset (heldBy (workers p ! i)) + mset (concat (chan_buf (batches p))) + mset (pdone p)"
    and "inFlight p' = inFlight p - of_bool (isBusy (workers p ! i)) + of_bool (isBusy w)"
  shows "pipe_inv cfg p'"
proof -
  have "mset (concat (map heldBy (workers p'))) + mset (heldBy (workers p ! i))
      = mset (concat (map heldBy (workers p))) + mset (heldBy w)"
    using mset_concat_update [OF assms(2), of heldBy w] assms(6) by simp
  then have "pending p' + mset (pdone p') = pending p + mset (pdone p)"
    using assms(3-5,8) by (simp add: pending_def) (smt (verit) add.assoc add.commute add_right_cancel)
  with assms(1,4,6,7,9) show ?thesis by (simp add: pipe_inv_def count_if_update assms(2))
qed

lemma pipe_step_inv [inv_intro]:
  assumes "pipe_step cfg p p'" and "pipe_inv cfg p"
  shows "pipe_inv cfg p'"
  using assms(1)
proof (cases rule: pipe_step.cases)
  case (enqueue j q)
  then show ?thesis using assms(2) by (auto simp: pipe_inv_def pending_def ac_simps dest: chan_send_Some)
next
  case (take_job j q t)
  from chan_recv_Some [OF take_job(3)] assms(2) show ?thesis unfolding take_job(1)
    by (intro batcherStep_inv) (auto simp: pipe_inv_def pending_def take_job(2))
next
  case (window t)
  with assms(2) show ?thesis unfolding window(1)
    by (intro batcherStep_inv) (auto simp: pipe_inv_def)
next
  case stop
  with assms(2) show ?thesis by (simp add: pipe_inv_def pending_def)
next
  case (drain t)
  with assms(2) show ?thesis unfolding drain(1)
    by (intro batcherStep_inv) (auto simp: pipe_inv_def pending_def)
next
  case (pick i b ch)
  then show ?thesis using assms(2) chan_recv_Some [OF pick(4)]
    by (intro pipe_inv_worker [of cfg p i p' "WBatch b (length b)"]) auto
next
  case (begin_job i j js n)
  then show ?thesis using assms(2) by (intro pipe_inv_worker [of cfg p i p' "WBusy j js n"]) auto
next
  case (end_job i j js n)
  then show ?thesis using assms(2) by (intro pipe_inv_worker [of cfg p i p' "WBatch js n"]) auto
next
  case (next_batch i n)
  then show ?thesis using assms(2) by (intro pipe_inv_worker [of cfg p i p' WIdle]) auto
next
  case (worker_exit i)
  then show ?thesis using assms(2) by (intro pipe_inv_worker [of cfg p i p' WExited]) auto
next
  case (overflow_job i j js)
  have "mset (concat ((overflow p)[i := js])) + {#j#} = mset (concat (overflow p))"
    using mset_concat_update_id [OF overflow_job(2), of js] overflow_job(3) by (simp add: union_mset_add_mset_right)
  with overflow_job(1) assms(2) show ?thesis
    by (auto simp: pipe_inv_def pending_def)
qed

lemma pipe_step_workers: "pipe_step cfg p p' \<Longrightarrow> length (workers p') = length (workers p)"
  by (auto elim!: pipe_stepE simp: batcherStep_def Let_def)

lemma pipe_reachable_inv:
  "pipe_reachable cfg p0 p \<Longrightarrow> pipe_inv cfg p0 \<Longrightarrow> pipe_inv cfg p \<and> length (workers p) = length (workers p0)"
  by (induction rule: pipe_reachable.induct) (auto intro: inv_intro simp: pipe_step_workers)

lemma initPipe_inv: "pipe_inv cfg (initPipe capacity cfg now n)"
  by (simp add: pipe_inv_def initPipe_def pending_def New_Dispatcher_def New_Queue_def Let_def initBatcher_def
      batch_inv_def count_if_def)

text \<open>
  C16. No job is ever lost or run twice inside the pipeline. Under every interleaving of handlers,
  batcher, workers and overflow goroutines, the accepted jobs are exactly (as a multiset) those
  finished plus those still held in the queue, the batch, the pool's buffer, a worker or an overflow
  goroutine; and the in-flight counter equals the number of workers inside the router, at most the
  pool size.
\<close>

theorem pipeline_conserves_jobs:
  assumes "pipe_reachable cfg (initPipe capacity cfg now n) p"
  shows "mset (paccepted p) = pending p + mset (pdone p)
    \<and> inFlight p = count_if isBusy (workers p) \<and> inFlight p \<le> max 1 n"
proof -
  from pipe_reachable_inv [OF assms initPipe_inv] have i: "pipe_inv cfg p"
    and l: "int (length (workers p)) = max 1 n"
    by (auto simp: initPipe_def New_Dispatcher_def Let_def)
  have "count_if isBusy (workers p) \<le> int (length (workers p))" by (simp add: count_if_def)
  with i l show ?thesis by (simp add: pipe_inv_def)
qed

lemma exampleJob_enqueued:
  "Enqueue (pq (initPipe 4 DefaultConfig 0 2)) exampleJob ChanReady = Some ((New_Queue 4)\<lparr>chan_buf := [exampleJob]\<rparr>, None)"
  by (simp add: initPipe_def New_Queue_def chan_send_def make_chan_def)

definition exampleQueued :: pipe where
  "exampleQueued = (initPipe 4 DefaultConfig 0 2)\<lparr>pq := (New_Queue 4)\<lparr>chan_buf := [exampleJob]\<rparr>,
     paccepted := paccepted (initPipe 4 DefaultConfig 0 2) @ [exampleJob]\<rparr>"

theorem pipeline_conserves_jobs_witness:
  "mset (paccepted exampleQueued) = pending exampleQueued + mset (pdone exampleQueued)
   \<and> pdone exampleQueued = [] \<and> paccepted exampleQueued = [exampleJob]"
proof -
  from pipe_reachable.more [OF pipe_reachable.here enqueue [OF exampleJob_enqueued]]
  have "pipe_reachable DefaultConfig (initPipe 4 DefaultConfig 0 2) exampleQueued"
    by (simp add: exampleQueued_def)
  from pipeline_conserves_jobs [OF this] show ?thesis by (simp add: exampleQueued_def initPipe_def)
qed

text \<open>
  Shutdown is the exception to timely delivery: once every worker has left, a batch already in the
  pool's buffer is never taken out again, so its jobs stay pending and their waiters are not answered.
\<close>

lemma dispatchBatch_prefix: "\<exists>xs. chan_buf (batches (dispatchBatch b p)) = chan_buf (batches p) @ xs"
  by (auto simp: dispatchBatch_def Submit_def split: option.split dest: chan_send_Some)

lemma fold_dispatchBatch_prefix: "\<exists>xs. chan_buf (batches (fold dispatchBatch bs p)) = chan_buf (batches p) @ xs"
proof (induction bs arbitrary: p)
  case (Cons b bs)
  from Cons [of "dispatchBatch b p"] dispatchBatch_prefix [of b p] show ?case by auto
qed simp

lemma exited_pool_keeps_batches:
  assumes "pipe_step cfg p p'" and "set (workers p) \<subseteq> {WExited}"
  shows "set (workers p') \<subseteq> {WExited} \<and> (\<exists>xs. chan_buf (batches p') = chan_buf (batches p) @ xs)"
proof -
  have no: "workers p ! i = WExited" if "i < length (workers p)" for i
    using assms(2) that nth_mem by blast
  have bs: "set (workers (batcherStep cfg e q)) \<subseteq> {WExited} \<and> (\<exists>xs. chan_buf (batches (batcherStep cfg e q)) = chan_buf (batches p) @ xs)"
    if "workers q = workers p" "batches q = batches p" for e q
    using fold_dispatchBatch_prefix [of "dispatched (bstep cfg e (pbat q))" "q\<lparr>pbat := bstep cfg e (pbat q)\<lparr>dispatched := []\<rparr>\<rparr>"]
      that assms(2) by (simp add: batcherStep_def Let_def)
  from assms(1) show ?thesis
  proof (cases rule: pipe_step.cases)
    case (take_job j q t)
    then show ?thesis using bs by simp
  next
    case (window t)
    then show ?thesis using bs by simp
  next
    case (drain t)
    then show ?thesis using bs by simp
  qed (use assms(2) no in auto)
qed

end
