(* ===== verification/Logbuf.thy ===== *)
theory Logbuf
  imports Model_Types
begin

text \<open>
  Bounded newest-first records. The log ring buffer of \<open>src/internal/logbuf/logbuf.go\<close> and the job
  history of the server (theory \<open>Server_Core\<close>) share a contract, stated as a locale: adding puts the
  new record in front and keeps a prefix of what was there, never more than a fixed number.
\<close>

section \<open>The contract\<close>

locale newest_first =
  fixes add :: "'e \<Rightarrow> 'a \<Rightarrow> 's \<Rightarrow> 's"
    and entries :: "'s \<Rightarrow> 'a list"
    and cap :: "'s \<Rightarrow> nat"
  assumes add_prefix: "\<exists>k\<le>cap s. entries (add e x s) = take k (x # entries s)"
    and add_cap: "cap (add e x s) = cap s"
begin

lemma run_cap: "cap (fold (\<lambda>(e, x). add e x) exs s) = cap s"
  by (induction exs arbitrary: s) (auto simp: add_cap)

lemma run_prefix:
  "\<exists>k. entries (fold (\<lambda>(e, x). add e x) exs s) = take k (rev (map snd exs) @ entries s)"
proof (induction exs arbitrary: s)
  case Nil
  show ?case by (rule exI [of _ "length (entries s)"]) simp
next
  case (Cons ex exs)
  obtain e x where ex: "ex = (e, x)" by (cases ex)
  from Cons [of "add e x s"] obtain k
    where k: "entries (fold (\<lambda>(e, x). add e x) exs (add e x s)) = take k (rev (map snd exs) @ entries (add e x s))" ..
  from add_prefix [of s e x] obtain m where m: "entries (add e x s) = take m (x # entries s)" by blast
  have "take k (rev (map snd exs) @ take m (x # entries s))
      = take (min k (length exs + m)) (rev (map snd exs) @ x # entries s)"
    by (simp add: min_def take_Cons')
  with k m ex show ?case by auto
qed

lemma run_bounded:
  assumes "exs \<noteq> []"
  shows "length (entries (fold (\<lambda>(e, x). add e x) exs s)) \<le> cap s"
proof -
  from assms obtain ys e x where l: "exs = ys @ [(e, x)]" by (metis rev_exhaust surj_pair)
  let ?s = "fold (\<lambda>(e, x). add e x) ys s"
  from add_prefix [of ?s e x] obtain k where "k \<le> cap ?s" "entries (add e x ?s) = take k (x # entries ?s)" by blast
  then show ?thesis using run_cap [of ys s] by (simp add: l min_def)
qed

end

section \<open>The log buffer\<close>

record Record =
  rec_Time :: time
  rec_Level :: string
  rec_Msg :: string
  rec_Event :: string
  rec_Attrs :: "string \<rightharpoonup> string"

record Buffer =
  records :: "Record list"
  buf_max :: nat
  maxAge :: int

definition NewBuffer :: "nat \<Rightarrow> int \<Rightarrow> Buffer" where
  "NewBuffer n age = \<lparr>records = [], buf_max = n, maxAge = age\<rparr>"

text \<open>The loop that drops records older than the cutoff from the old end.\<close>

function dropOld :: "time \<Rightarrow> Record list \<Rightarrow> Record list" where
  "dropOld cutoff rs =
     (if rs \<noteq> [] \<and> rec_Time (last rs) < cutoff then dropOld cutoff (butlast rs) else rs)"
  by pat_completeness auto
termination by (relation "measure (\<lambda>(c, rs). length rs)") auto

declare dropOld.simps [simp del]

definition add_record :: "time \<Rightarrow> Record \<Rightarrow> Buffer \<Rightarrow> Buffer" where
  "add_record now r b =
     (let rs = r # records b;
          rs1 = (if length rs > buf_max b then take (buf_max b) rs else rs);
          rs2 = (if maxAge b > 0 then dropOld (now - maxAge b) rs1 else rs1)
      in b\<lparr>records := rs2\<rparr>)"

text \<open>\<open>Query\<close>; \<open>None\<close> is the panic of \<open>make\<close> with a negative capacity.\<close>

fun queryLoop :: "string \<Rightarrow> string \<Rightarrow> time option \<Rightarrow> nat \<Rightarrow> Record list \<Rightarrow> Record list \<Rightarrow> Record list" where
  "queryLoop level event cutoff limit out [] = out"
| "queryLoop level event cutoff limit out (r # rs) =
     (if length out \<ge> limit then out
      else if level \<noteq> '''' \<and> rec_Level r \<noteq> level then queryLoop level event cutoff limit out rs
      else if event \<noteq> '''' \<and> rec_Event r \<noteq> event then queryLoop level event cutoff limit out rs
      else if (case cutoff of None \<Rightarrow> False | Some c \<Rightarrow> rec_Time r < c) then queryLoop level event cutoff limit out rs
      else queryLoop level event cutoff limit (out @ [r]) rs)"

definition Query :: "time \<Rightarrow> Buffer \<Rightarrow> string \<Rightarrow> string \<Rightarrow> int \<Rightarrow> int \<Rightarrow> Record list option" where
  "Query now b level event since limit =
     (let cutoff = (if since > 0 then Some (now - since) else None);
          level' = to_upper (trim_space level)
      in if limit < 0 then None
         else Some (queryLoop level' event cutoff (nat limit) [] (records b)))"

text \<open>The handler: bound attributes first, then the record's own; the event attribute is set apart.\<close>

definition putAttr :: "string \<Rightarrow> string \<times> string \<Rightarrow> Record \<Rightarrow> Record" where
  "putAttr fieldEvent a r =
     (if fst a = fieldEvent then r\<lparr>rec_Event := snd a\<rparr>
      else r\<lparr>rec_Attrs := (rec_Attrs r)(fst a \<mapsto> snd a)\<rparr>)"

definition FieldEvent :: string where "FieldEvent = ''event''"

definition Handle :: "time \<Rightarrow> (string \<times> string) list \<Rightarrow> time \<Rightarrow> string \<Rightarrow> string \<Rightarrow> (string \<times> string) list \<Rightarrow> Buffer \<Rightarrow> Buffer" where
  "Handle now bound t level msg attrs b =
     add_record now (fold (putAttr FieldEvent) (bound @ attrs)
       \<lparr>rec_Time = t, rec_Level = level, rec_Msg = msg, rec_Event = '''', rec_Attrs = Map.empty\<rparr>) b"

definition WithAttrs :: "(string \<times> string) list \<Rightarrow> (string \<times> string) list \<Rightarrow> (string \<times> string) list" where
  "WithAttrs bound attrs = bound @ attrs"

section \<open>The buffer keeps the contract\<close>

lemma dropOld_prefix: "\<exists>k\<le>length rs. dropOld cutoff rs = take k rs"
proof (induction cutoff rs rule: dropOld.induct)
  case (1 cutoff rs)
  show ?case
  proof (cases "rs \<noteq> [] \<and> rec_Time (last rs) < cutoff")
    case True
    with 1 obtain k where "k \<le> length (butlast rs)" "dropOld cutoff (butlast rs) = take k (butlast rs)" by blast
    moreover from True this(1) have "k < length rs" by (cases rs) (auto split: if_splits)
    ultimately show ?thesis using True
      by (intro exI [of _ k]) (simp add: dropOld.simps [of cutoff rs] take_butlast)
  next
    case False
    then show ?thesis by (intro exI [of _ "length rs"]) (subst dropOld.simps, auto)
  qed
qed

lemma dropOld_last: "dropOld cutoff rs \<noteq> [] \<Longrightarrow> cutoff \<le> rec_Time (last (dropOld cutoff rs))"
  by (induction cutoff rs rule: dropOld.induct) (metis dropOld.simps not_le)

lemma add_record_prefix: "\<exists>k\<le>buf_max b. records (add_record now r b) = take k (r # records b)"
proof -
  let ?rs = "take (buf_max b) (r # records b)"
  have e: "(if length (r # records b) > buf_max b then take (buf_max b) (r # records b) else r # records b) = ?rs" by simp
  show ?thesis
  proof (cases "maxAge b > 0")
    case True
    obtain k where "k \<le> length ?rs" "dropOld (now - maxAge b) ?rs = take k ?rs" using dropOld_prefix by blast
    with True show ?thesis unfolding add_record_def Let_def e by (intro exI [of _ k]) (simp add: min_def split: if_splits)
  next
    case False
    then show ?thesis unfolding add_record_def Let_def e by (intro exI [of _ "buf_max b"]) simp
  qed
qed

interpretation log_ring: newest_first add_record records buf_max
  by unfold_locales (rule add_record_prefix, simp add: add_record_def Let_def)

text \<open>
  The log buffer is a window on the newest records: after any sequence of insertions into an
  empty buffer it holds a contiguous run of the most recent ones, newest first, without gaps or
  duplicates, and never more than its maximum.
\<close>

lemma log_buffer_window:
  "\<exists>k. records (fold (\<lambda>(now, r). add_record now r) rs (NewBuffer n age)) = take k (rev (map snd rs))
     \<and> length (records (fold (\<lambda>(now, r). add_record now r) rs (NewBuffer n age))) \<le> n"
proof (cases "rs = []")
  case True
  then show ?thesis by (simp add: NewBuffer_def)
next
  case False
  from log_ring.run_prefix [of rs "NewBuffer n age"] log_ring.run_bounded [OF False, of "NewBuffer n age"]
  show ?thesis by (auto simp: NewBuffer_def)
qed

definition queryMatches :: "string \<Rightarrow> string \<Rightarrow> time option \<Rightarrow> Record \<Rightarrow> bool" where
  "queryMatches level event cutoff r = ((level = '''' \<or> rec_Level r = level) \<and> (event = '''' \<or> rec_Event r = event)
     \<and> (case cutoff of None \<Rightarrow> True | Some c \<Rightarrow> c \<le> rec_Time r))"

lemma queryLoop_filter:
  "length out \<le> limit \<Longrightarrow> queryLoop level event cutoff limit out rs
     = out @ take (limit - length out) (filter (queryMatches level event cutoff) rs)"
proof (induction level event cutoff limit out rs rule: queryLoop.induct)
  case (2 level event cutoff limit out r rs)
  show ?case
  proof (cases "length out \<ge> limit")
    case False
    then obtain m where m: "limit - length out = Suc m" by (metis Suc_diff_Suc not_le)
    then have "limit - length (out @ [r]) = m" by simp
    with 2 False m show ?thesis by (auto simp: queryMatches_def split: option.splits)
  qed (use 2 in simp)
qed simp

text \<open>
  \<open>Query\<close> is its specification: for a limit that is not negative it returns the first \<open>limit\<close>
  records (newest first) among those that match the level (trimmed, case-insensitive), the event and
  the age filters, each filter being off when its argument is empty or zero.
\<close>

lemma Query_spec:
  assumes "0 \<le> limit"
  shows "Query now b level event since limit = Some (take (nat limit)
     (filter (queryMatches (to_upper (trim_space level)) event (if since > 0 then Some (now - since) else None)) (records b)))"
  using assms by (simp add: Query_def queryLoop_filter)

definition exampleRecord :: "time \<Rightarrow> string \<Rightarrow> Record" where
  "exampleRecord t l = \<lparr>rec_Time = t, rec_Level = l, rec_Msg = ''m'', rec_Event = '''', rec_Attrs = Map.empty\<rparr>"

lemma Query_spec_witness:
  "Query 100 \<lparr>records = [exampleRecord 90 ''WARN'', exampleRecord 80 ''INFO'', exampleRecord 70 ''WARN''], buf_max = 9, maxAge = 0\<rparr>
     '' warn '' '''' 0 1 = Some [exampleRecord 90 ''WARN'']"
proof -
  have u: "to_upper (trim_space '' warn '') = ''WARN''" by code_simp
  show ?thesis
    using Query_spec [of 1 100 "\<lparr>records = [exampleRecord 90 ''WARN'', exampleRecord 80 ''INFO'', exampleRecord 70 ''WARN''], buf_max = 9, maxAge = 0\<rparr>"
        "'' warn ''" "''''" 0]
    by (simp add: u queryMatches_def exampleRecord_def)
qed

end
