(* ===== verification/Chatstore.thy ===== *)
theory Chatstore
  imports Model_Types "HOL-Library.Multiset"
begin

text \<open>
  The conversation store of \<open>src/internal/chatstore/chatstore.go\<close>: an in-memory table of
  conversations mirrored to one JSON file each. The table is an association list in the order a Go
  map iteration would visit it, about which nothing is assumed. The directory maps file names to
  contents: a conversation, or \<open>None\<close> for a file that does not parse. What the operating system
  answers to a write, rename or remove is an argument.
\<close>

section \<open>Data\<close>

record ChatMessage =
  cm_Role :: string
  cm_Content :: string

record Conversation =
  conv_ID :: string
  conv_Title :: string
  conv_CreatedAt :: time
  conv_UpdatedAt :: time
  conv_Messages :: "ChatMessage list"

record ConversationMeta =
  meta_ID :: string
  meta_Title :: string
  meta_CreatedAt :: time
  meta_UpdatedAt :: time
  meta_TurnCount :: nat

type_synonym disk = "string \<rightharpoonup> Conversation option"

record Store =
  convs :: "(string \<times> Conversation) list"
  files :: disk

record io =
  writeErr :: "go_error option"
  renameErr :: "go_error option"
  removeErr :: "go_error option"

definition ioOk :: io where "ioOk = \<lparr>writeErr = None, renameErr = None, removeErr = None\<rparr>"

definition MaxConversations :: nat where "MaxConversations = 5"

section \<open>Operations\<close>

definition fileOf :: "string \<Rightarrow> string" where "fileOf i = i @ ''.json''"

definition is_json :: "string \<Rightarrow> bool" where
  "is_json name = (length ''.json'' \<le> length name \<and> drop (length name - length ''.json'') name = ''.json'')"

definition del :: "'k \<Rightarrow> ('k \<times> 'v) list \<Rightarrow> ('k \<times> 'v) list" where
  "del k xs = filter (\<lambda>p. fst p \<noteq> k) xs"

text \<open>\<open>Open\<close> reads the directory listing in the order given.\<close>

fun loadAll :: "(string \<times> Conversation option) list \<Rightarrow> (string \<times> Conversation) list \<Rightarrow> (string \<times> Conversation) list" where
  "loadAll [] acc = acc"
| "loadAll ((name, content) # rest) acc =
     (if \<not> is_json name then loadAll rest acc
      else case content of
             None \<Rightarrow> loadAll rest acc
           | Some c \<Rightarrow> if conv_ID c = '''' then loadAll rest acc
                       else loadAll rest (del (conv_ID c) acc @ [(conv_ID c, c)]))"

definition Open :: "(string \<times> Conversation option) list \<Rightarrow> Store" where
  "Open listing = \<lparr>convs = loadAll listing [], files = map_of listing\<rparr>"

definition meta :: "Conversation \<Rightarrow> ConversationMeta" where
  "meta c = \<lparr>meta_ID = conv_ID c, meta_Title = conv_Title c, meta_CreatedAt = conv_CreatedAt c,
     meta_UpdatedAt = conv_UpdatedAt c, meta_TurnCount = length (filter (\<lambda>m. cm_Role m = ''user'') (conv_Messages c))\<rparr>"

definition ellipsis :: string where "ellipsis = [CHR 0xE2, CHR 0x80, CHR 0xA6]"

fun deriveTitle :: "ChatMessage list \<Rightarrow> string" where
  "deriveTitle [] = ''New conversation''"
| "deriveTitle (m # ms) =
     (if cm_Role m \<noteq> ''user'' then deriveTitle ms
      else let line = trim_space (takeWhile (\<lambda>c. c \<noteq> CHR 0x0A) (cm_Content m))
           in if line = '''' then deriveTitle ms
              else let r = runes line
                   in if length r > 48 then concat (take 48 r) @ ellipsis else line)"

definition List_chats :: "Store \<Rightarrow> ConversationMeta list" where
  "List_chats s = rev (sort_key meta_UpdatedAt (rev (map (meta \<circ> snd) (convs s))))"

definition Get :: "Store \<Rightarrow> string \<Rightarrow> Conversation option" where
  "Get s i = map_of (convs s) i"

text \<open>The scan for the least recently updated conversation; \<open>''''\<close> marks "none yet".\<close>

fun oldestOf :: "(string \<times> Conversation) list \<Rightarrow> string \<times> time \<Rightarrow> string \<times> time" where
  "oldestOf [] best = best"
| "oldestOf ((i, c) # rest) (oldestID, oldest) =
     (if oldestID = '''' \<or> conv_UpdatedAt c < oldest then oldestOf rest (i, conv_UpdatedAt c)
      else oldestOf rest (oldestID, oldest))"

definition removeFile :: "io \<Rightarrow> string \<Rightarrow> disk \<Rightarrow> disk" where
  "removeFile os name d = (if removeErr os = None then d(name := None) else d)"

definition evictOldestLocked :: "io \<Rightarrow> Store \<Rightarrow> Store" where
  "evictOldestLocked os s =
     (let oldestID = fst (oldestOf (convs s) ('''', 0))
      in if oldestID = '''' then s
         else s\<lparr>convs := del oldestID (convs s), files := removeFile os (fileOf oldestID) (files s)\<rparr>)"

definition writeFileLocked :: "io \<Rightarrow> Conversation \<Rightarrow> disk \<Rightarrow> disk \<times> go_error option" where
  "writeFileLocked os c d =
     (let final = fileOf (conv_ID c); tmp = final @ ''.tmp'' in
      case writeErr os of
        Some e \<Rightarrow> (d, Some e)
      | None \<Rightarrow> (case renameErr os of
                   Some e \<Rightarrow> (d(tmp \<mapsto> Some c), Some e)
                 | None \<Rightarrow> (d(tmp := None, final \<mapsto> Some c), None)))"

definition prepared :: "time \<Rightarrow> Store \<Rightarrow> Conversation \<Rightarrow> Conversation" where
  "prepared now s c =
     (let c1 = c\<lparr>conv_CreatedAt := (case Get s (conv_ID c) of Some e \<Rightarrow> conv_CreatedAt e | None \<Rightarrow> now), conv_UpdatedAt := now\<rparr>
      in if trim_space (conv_Title c1) = '''' then c1\<lparr>conv_Title := deriveTitle (conv_Messages c1)\<rparr> else c1)"

definition Save :: "io \<Rightarrow> time \<Rightarrow> Store \<Rightarrow> Conversation \<Rightarrow> Store \<times> ConversationMeta res" where
  "Save os now s c =
     (let s1 = (if Get s (conv_ID c) = None \<and> length (convs s) \<ge> MaxConversations then evictOldestLocked os s else s);
          c' = prepared now s c
      in case writeFileLocked os c' (files s1) of
           (d, Some e) \<Rightarrow> (s1\<lparr>files := d\<rparr>, Err e)
         | (d, None) \<Rightarrow> (s1\<lparr>files := d, convs := del (conv_ID c') (convs s1) @ [(conv_ID c', c')]\<rparr>, Ok (meta c')))"

text \<open>A remove that reports "does not exist" is a success and leaves nothing behind either way.\<close>

definition Delete :: "io \<Rightarrow> Store \<Rightarrow> string \<Rightarrow> Store \<times> go_error option" where
  "Delete os s i =
     (if Get s i = None then (s, None)
      else (s\<lparr>convs := del i (convs s), files := removeFile os (fileOf i) (files s)\<rparr>, removeErr os))"

section \<open>Laws of the table\<close>

lemma map_of_del [simp]: "map_of (del k xs) = (map_of xs)(k := None)"
  by (induction xs) (auto simp: del_def fun_eq_iff)

lemma set_del: "set (map fst (del k xs)) = set (map fst xs) - {k}"
  by (auto simp: del_def)

lemma distinct_del: "distinct (map fst xs) \<Longrightarrow> distinct (map fst (del k xs))"
  by (induction xs) (auto simp: del_def)

lemma length_del_le: "length (del k xs) \<le> length xs"
  by (simp add: del_def)

lemma length_del_mem: "k \<in> set (map fst xs) \<Longrightarrow> length (del k xs) < length xs"
  by (auto simp: del_def intro!: length_filter_less)

definition store_ok :: "Store \<Rightarrow> bool" where
  "store_ok s = (distinct (map fst (convs s)) \<and> (\<forall>(i, c)\<in>set (convs s). conv_ID c = i \<and> i \<noteq> ''''))"

lemma store_ok_Get: "store_ok s \<Longrightarrow> Get s i = Some c \<Longrightarrow> conv_ID c = i \<and> i \<noteq> '''' \<and> (i, c) \<in> set (convs s)"
  by (auto simp: store_ok_def Get_def dest!: map_of_SomeD)

lemma Get_None: "Get s i = None \<longleftrightarrow> i \<notin> set (map fst (convs s))"
  by (auto simp: Get_def map_of_eq_None_iff)

text \<open>The scan returns a least recently updated entry.\<close>

lemma oldestOf_min:
  assumes "\<forall>(i, c)\<in>set xs. i \<noteq> ''''" and "oldestOf xs (b, t) = (i, u)" and "b \<noteq> '''' \<or> xs \<noteq> []"
  shows "i \<noteq> '''' \<and> (\<forall>(j, c)\<in>set xs. u \<le> conv_UpdatedAt c) \<and> (b \<noteq> '''' \<longrightarrow> u \<le> t)
    \<and> ((i, u) = (b, t) \<or> (\<exists>c. (i, c) \<in> set xs \<and> u = conv_UpdatedAt c))"
  using assms
proof (induction xs arbitrary: b t)
  case (Cons x xs)
  obtain j c where x: "x = (j, c)" by (cases x)
  show ?case
  proof (cases "b = '''' \<or> conv_UpdatedAt c < t")
    case True
    with Cons.prems x have "oldestOf xs (j, conv_UpdatedAt c) = (i, u)" and j: "j \<noteq> ''''" by auto
    from Cons.IH [OF _ this(1)] Cons.prems(1) x j True show ?thesis by fastforce
  next
    case False
    with Cons.prems x have "oldestOf xs (b, t) = (i, u)" by auto
    from Cons.IH [OF _ this] Cons.prems(1) x False show ?thesis by fastforce
  qed
qed auto

definition victim :: "Store \<Rightarrow> string" where "victim s = fst (oldestOf (convs s) ('''', 0))"

lemma victim_oldest:
  assumes "store_ok s" "convs s \<noteq> []"
  shows "\<exists>c. Get s (victim s) = Some c \<and> victim s \<noteq> '''' \<and> (\<forall>i d. Get s i = Some d \<longrightarrow> conv_UpdatedAt c \<le> conv_UpdatedAt d)"
proof -
  obtain i u where o': "oldestOf (convs s) ('''', 0) = (i, u)" by fastforce
  from assms have "\<forall>(i, c)\<in>set (convs s). i \<noteq> ''''" by (auto simp: store_ok_def)
  from oldestOf_min [OF this o'] assms(2) obtain c
    where "i \<noteq> ''''" "(i, c) \<in> set (convs s)" "u = conv_UpdatedAt c" "\<forall>(j, d)\<in>set (convs s). u \<le> conv_UpdatedAt d" by auto
  with assms(1) o' show ?thesis
    by (auto simp: victim_def Get_def store_ok_def dest!: map_of_SomeD intro!: exI [of _ c])
qed

lemma evict_convs:
  assumes "store_ok s" "convs s \<noteq> []"
  shows "convs (evictOldestLocked os s) = del (victim s) (convs s)
    \<and> files (evictOldestLocked os s) = removeFile os (fileOf (victim s)) (files s)"
  using victim_oldest [OF assms] by (auto simp: evictOldestLocked_def victim_def Let_def)

lemma prepared_ID [simp]: "conv_ID (prepared now s c) = conv_ID c"
  by (simp add: prepared_def Let_def)

text \<open>Which entry a save removes: the oldest, when a new conversation meets a full store.\<close>

definition evicts :: "Store \<Rightarrow> Conversation \<Rightarrow> bool" where
  "evicts s c = (Get s (conv_ID c) = None \<and> length (convs s) \<ge> MaxConversations)"

lemma evicts_nonempty: "evicts s c \<Longrightarrow> convs s \<noteq> []"
  by (auto simp: evicts_def MaxConversations_def)

lemma Save_convs:
  assumes "store_ok s" and "Save os now s c = (s', Ok m)"
  shows "convs s' = del (conv_ID c) (if evicts s c then del (victim s) (convs s) else convs s) @ [(conv_ID c, prepared now s c)]
    \<and> m = meta (prepared now s c) \<and> writeErr os = None \<and> renameErr os = None"
proof -
  have "convs (if evicts s c then evictOldestLocked os s else s) = (if evicts s c then del (victim s) (convs s) else convs s)"
    using evict_convs [OF assms(1) evicts_nonempty] by auto
  then show ?thesis using assms(2)
    unfolding Save_def evicts_def [symmetric] Let_def writeFileLocked_def
    by (auto split: option.splits simp del: map_of_del)
qed

lemma Save_Get:
  assumes "store_ok s" and "Save os now s c = (s', Ok m)"
  shows "Get s' i = (if i = conv_ID c then Some (prepared now s c)
     else if evicts s c \<and> i = victim s then None else Get s i)"
  using Save_convs [OF assms] by (auto simp: Get_def map_add_def split: option.splits)

lemma Save_store_ok:
  assumes "store_ok s" "conv_ID c \<noteq> ''''" and "Save os now s c = (s', Ok m)"
  shows "store_ok s'"
  using Save_convs [OF assms(1,3)] assms(1,2)
  by (auto simp: store_ok_def distinct_del set_del del_def distinct_map_filter)

text \<open>
  What \<open>Save\<close> promises when it succeeds: the saved conversation is what \<open>Get\<close> returns for its
  id, with its creation time kept from an earlier version and its update time set to now; every
  other conversation is untouched, except that a new conversation saved into a full store replaces
  one whose update time is the oldest of all. A store within the cap stays within it.
\<close>

lemma Save_correct:
  assumes "store_ok s" "conv_ID c \<noteq> ''''" and "Save os now s c = (s', Ok m)"
  shows "store_ok s' \<and> Get s' (conv_ID c) = Some (prepared now s c) \<and> conv_UpdatedAt (prepared now s c) = now
    \<and> (\<forall>e. Get s (conv_ID c) = Some e \<longrightarrow> conv_CreatedAt (prepared now s c) = conv_CreatedAt e)
    \<and> (\<forall>i. i \<noteq> conv_ID c \<longrightarrow> Get s' i = Get s i
         \<or> (Get s (conv_ID c) = None \<and> MaxConversations \<le> length (convs s) \<and> Get s' i = None
            \<and> (\<exists>v. Get s i = Some v \<and> (\<forall>j d. Get s j = Some d \<longrightarrow> conv_UpdatedAt v \<le> conv_UpdatedAt d))))
    \<and> (length (convs s) \<le> MaxConversations \<longrightarrow> length (convs s') \<le> MaxConversations)"
proof -
  have "length (convs s') \<le> MaxConversations" if le: "length (convs s) \<le> MaxConversations"
  proof (cases "Get s (conv_ID c) = None")
    case True
    show ?thesis
    proof (cases "evicts s c")
      case ev: True
      obtain v where "Get s (victim s) = Some v" using victim_oldest [OF assms(1) evicts_nonempty [OF ev]] by blast
      then have "length (del (victim s) (convs s)) < length (convs s)"
        by (intro length_del_mem) (auto simp: Get_def dest: map_of_SomeD intro: rev_image_eqI)
      with ev Save_convs [OF assms(1,3)] length_del_le [of "conv_ID c" "del (victim s) (convs s)"] le show ?thesis by simp
    next
      case False
      with True Save_convs [OF assms(1,3)] length_del_le [of "conv_ID c" "convs s"] show ?thesis by (simp add: evicts_def)
    qed
  next
    case False
    then have "length (del (conv_ID c) (convs s)) < length (convs s)" by (intro length_del_mem) (simp add: Get_None)
    with False Save_convs [OF assms(1,3)] le show ?thesis by (auto simp: evicts_def)
  qed
  moreover have "\<forall>i. i \<noteq> conv_ID c \<longrightarrow> Get s' i = Get s i
         \<or> (Get s (conv_ID c) = None \<and> MaxConversations \<le> length (convs s) \<and> Get s' i = None
            \<and> (\<exists>v. Get s i = Some v \<and> (\<forall>j d. Get s j = Some d \<longrightarrow> conv_UpdatedAt v \<le> conv_UpdatedAt d)))"
    using Save_Get [OF assms(1,3)] victim_oldest [OF assms(1) evicts_nonempty [of s c]] unfolding evicts_def by metis
  moreover have "conv_UpdatedAt (prepared now s c) = now"
    and "\<forall>e. Get s (conv_ID c) = Some e \<longrightarrow> conv_CreatedAt (prepared now s c) = conv_CreatedAt e"
    by (simp_all add: prepared_def Let_def)
  ultimately show ?thesis using Save_Get [OF assms(1,3), of "conv_ID c"] Save_store_ok [OF assms] by simp
qed


section \<open>Memory and disk agree\<close>

text \<open>Every conversation is on disk under its id, and every readable conversation file is one.\<close>

definition synced :: "Store \<Rightarrow> bool" where
  "synced s = ((\<forall>i c. Get s i = Some c \<longrightarrow> files s (fileOf i) = Some (Some c))
     \<and> (\<forall>n c. files s n = Some (Some c) \<and> is_json n \<longrightarrow> n = fileOf (conv_ID c) \<and> conv_ID c \<noteq> ''''
          \<and> Get s (conv_ID c) = Some c))"

lemma fileOf_inj [simp]: "fileOf i = fileOf j \<longleftrightarrow> i = j"
  by (simp add: fileOf_def)

lemma is_json_fileOf [simp]: "is_json (fileOf i)"
  by (simp add: is_json_def fileOf_def)

lemma is_json_tmp [simp]: "\<not> is_json (fileOf i @ ''.tmp'')"
  by (simp add: is_json_def fileOf_def)

lemma fileOf_not_tmp [simp]: "fileOf j \<noteq> fileOf i @ ''.tmp''" "fileOf i @ ''.tmp'' \<noteq> fileOf j"
  by (metis is_json_fileOf is_json_tmp)+

lemma loadAll_lookup:
  assumes "\<forall>(n, x)\<in>set listing. \<forall>c. x = Some c \<and> is_json n \<longrightarrow> n = fileOf (conv_ID c) \<and> conv_ID c \<noteq> ''''"
    and "distinct (map fst listing)"
  shows "map_of (loadAll listing acc) i =
    (case map_of listing (fileOf i) of Some (Some c) \<Rightarrow> Some c | _ \<Rightarrow> map_of acc i)"
  using assms
proof (induction listing arbitrary: acc)
  case (Cons nx rest)
  obtain n x where nx: "nx = (n, x)" by (cases nx)
  note IH = Cons.IH
  from Cons.prems have rest: "\<forall>(n, x)\<in>set rest. \<forall>c. x = Some c \<and> is_json n \<longrightarrow> n = fileOf (conv_ID c) \<and> conv_ID c \<noteq> ''''"
    "distinct (map fst rest)" "n \<notin> set (map fst rest)" by (auto simp: nx)
  have fresh: "map_of rest n = None" using rest(3) by (simp add: map_of_eq_None_iff)
  show ?case
  proof (cases "is_json n \<and> x \<noteq> None")
    case False
    then have "loadAll (nx # rest) acc = loadAll rest acc" by (auto simp: nx split: option.splits)
    with IH [OF rest(1,2)] False fresh show ?thesis by (auto simp: nx split: option.splits)
  next
    case True
    then obtain c where c: "x = Some c" by auto
    with True Cons.prems(1) nx have n: "n = fileOf (conv_ID c)" "conv_ID c \<noteq> ''''" by auto
    with c nx have "loadAll (nx # rest) acc = loadAll rest (del (conv_ID c) acc @ [(conv_ID c, c)])" by simp
    with IH [OF rest(1,2), of "del (conv_ID c) acc @ [(conv_ID c, c)]"] fresh c n show ?thesis
      by (auto simp: nx map_add_def split: option.splits)
  qed
qed simp

lemma synced_Save:
  assumes "store_ok s" "synced s" "conv_ID c \<noteq> ''''" "removeErr os = None" and "Save os now s c = (s', Ok m)"
  shows "synced s'"
proof -
  let ?c = "prepared now s c" and ?f = "fileOf (conv_ID c)"
  let ?d = "if evicts s c then (files s)(fileOf (victim s) := None) else files s"
  have "files (if evicts s c then evictOldestLocked os s else s) = ?d"
    using evict_convs [OF assms(1) evicts_nonempty] assms(4) by (auto simp: removeFile_def)
  then have f: "files s' = ?d(?f @ ''.tmp'' := None, ?f \<mapsto> Some ?c)"
    using assms(5) Save_convs [OF assms(1,5)]
    unfolding Save_def evicts_def [symmetric] Let_def writeFileLocked_def
    by (auto split: option.splits)
  have G: "Get s' i = (if i = conv_ID c then Some ?c else if evicts s c \<and> i = victim s then None else Get s i)" for i
    by (rule Save_Get [OF assms(1,5)])
  show ?thesis unfolding synced_def
  proof (intro conjI allI impI)
    fix i d
    assume "Get s' i = Some d"
    then show "files s' (fileOf i) = Some (Some d)"
      using assms(2) unfolding G f synced_def by (auto split: if_splits)
  next
    fix n d
    assume n: "files s' n = Some (Some d) \<and> is_json n"
    have "n = fileOf (conv_ID d) \<and> conv_ID d \<noteq> '''' \<and> Get s' (conv_ID d) = Some d"
    proof (cases "n = ?f")
      case True
      with n assms(3) show ?thesis by (auto simp: f G)
    next
      case False
      with n have old: "files s n = Some (Some d)" "is_json n" "evicts s c \<longrightarrow> n \<noteq> fileOf (victim s)"
        by (auto simp: f split: if_splits)
      with assms(2) have "n = fileOf (conv_ID d) \<and> conv_ID d \<noteq> '''' \<and> Get s (conv_ID d) = Some d"
        unfolding synced_def by blast
      with old False show ?thesis by (auto simp: G)
    qed
    then show "n = fileOf (conv_ID d)" "conv_ID d \<noteq> ''''" "Get s' (conv_ID d) = Some d" by auto
  qed
qed

lemma synced_Delete:
  assumes "synced s" "Delete os s i = (s', None)"
  shows "synced s'"
  using assms by (auto simp: synced_def Delete_def removeFile_def Get_def split: if_splits)

text \<open>
  C20. Restarting the server loses nothing: when memory and disk agree, opening the directory again
  yields exactly the conversations that were in memory, whatever the order of the listing; and a
  save or delete that reports success keeps memory and disk in agreement (a save provided the file
  of an evicted conversation could be removed).
\<close>

theorem restart_round_trip:
  assumes "store_ok s" "synced s" and "map_of listing = files s" "distinct (map fst listing)"
  shows "Get (Open listing) i = Get s i
    \<and> (\<forall>os now c s' m. conv_ID c \<noteq> '''' \<and> removeErr os = None \<and> Save os now s c = (s', Ok m) \<longrightarrow> synced s')
    \<and> (\<forall>os j s'. Delete os s j = (s', None) \<longrightarrow> synced s')"
proof -
  have L: "\<forall>(n, x)\<in>set listing. \<forall>c. x = Some c \<and> is_json n \<longrightarrow> n = fileOf (conv_ID c) \<and> conv_ID c \<noteq> ''''"
  proof safe
    fix n c
    assume "(n, Some c) \<in> set listing" "is_json n"
    moreover from this(1) have "files s n = Some (Some c)" using assms(3,4) by (metis map_of_eq_Some_iff)
    ultimately show "n = fileOf (conv_ID c)" "conv_ID c = '''' \<Longrightarrow> False" using assms(2) by (auto simp: synced_def)
  qed
  have "Get (Open listing) i = (case files s (fileOf i) of Some (Some c) \<Rightarrow> Some c | _ \<Rightarrow> None)"
    using loadAll_lookup [OF L assms(4), of "[]" i] assms(3) by (simp add: Get_def Open_def split: option.splits)
  also have "\<dots> = Get s i"
  proof (cases "Get s i")
    case (Some c)
    with assms(2) show ?thesis by (simp add: synced_def)
  next
    case None
    with assms(2) show ?thesis unfolding synced_def
      by (auto split: option.splits) (metis fileOf_inj is_json_fileOf option.distinct(1))
  qed
  finally show ?thesis using synced_Save [OF assms(1,2)] synced_Delete [OF assms(2)] by blast
qed

text \<open>
  \<open>List\<close> returns the metadata of every stored conversation exactly once, most recently updated
  first.
\<close>

lemma List_sorted:
  "mset (List_chats s) = mset (map (meta \<circ> snd) (convs s))
   \<and> sorted_wrt (\<lambda>a b. meta_UpdatedAt b \<le> meta_UpdatedAt a) (List_chats s)"
proof
  show "mset (List_chats s) = mset (map (meta \<circ> snd) (convs s))" by (simp add: List_chats_def)
  have "sorted (map meta_UpdatedAt (sort_key meta_UpdatedAt (rev (map (meta \<circ> snd) (convs s)))))"
    by (rule sorted_sort_key)
  then show "sorted_wrt (\<lambda>a b. meta_UpdatedAt b \<le> meta_UpdatedAt a) (List_chats s)"
    by (simp add: List_chats_def sorted_wrt_rev sorted_map)
qed

section \<open>A store beyond the cap\<close>

text \<open>The cap is enforced only by evicting one conversation per new one: a directory that holds more
  files than the cap is loaded in full and stays above it.\<close>

lemma Open_may_exceed_cap:
  "\<exists>listing. store_ok (Open listing) \<and> length (convs (Open listing)) > MaxConversations"
proof -
  let ?conv = "\<lambda>i. \<lparr>conv_ID = i, conv_Title = i, conv_CreatedAt = 0, conv_UpdatedAt = 0, conv_Messages = []\<rparr>"
  let ?l = "map (\<lambda>i. (fileOf i, Some (?conv i))) [''a'', ''b'', ''c'', ''d'', ''e'', ''f'']"
  have "convs (Open ?l) = map (\<lambda>i. (i, ?conv i)) [''a'', ''b'', ''c'', ''d'', ''e'', ''f'']"
    by (simp add: Open_def del_def)
  then show ?thesis by (intro exI [of _ ?l]) (simp add: store_ok_def MaxConversations_def)
qed

section \<open>A concrete store\<close>

definition exampleConv :: "string \<Rightarrow> time \<Rightarrow> Conversation" where
  "exampleConv i t = \<lparr>conv_ID = i, conv_Title = ''t'', conv_CreatedAt = 1, conv_UpdatedAt = t, conv_Messages = []\<rparr>"

definition exampleListing :: "(string \<times> Conversation option) list" where
  "exampleListing = [(fileOf ''a'', Some (exampleConv ''a'' 5)), (fileOf ''b'', Some (exampleConv ''b'' 7))]"

lemma exampleListing_ok: "store_ok (Open exampleListing)" "distinct (map fst exampleListing)"
  by (simp_all add: store_ok_def Open_def exampleListing_def exampleConv_def del_def)

lemma exampleListing_synced: "synced (Open exampleListing)"
  by (auto simp: synced_def Open_def exampleListing_def exampleConv_def del_def Get_def split: if_splits)

lemma Save_correct_witness:
  "Get (fst (Save ioOk 9 (Open exampleListing) (exampleConv ''a'' 0))) ''a''
     = Some (prepared 9 (Open exampleListing) (exampleConv ''a'' 0))"
proof -
  let ?S = "Save ioOk 9 (Open exampleListing) (exampleConv ''a'' 0)"
  have "snd ?S = Ok (meta (prepared 9 (Open exampleListing) (exampleConv ''a'' 0)))"
    by (simp add: Save_def writeFileLocked_def ioOk_def Let_def)
  then have "?S = (fst ?S, Ok (meta (prepared 9 (Open exampleListing) (exampleConv ''a'' 0))))"
    by (simp add: prod_eq_iff)
  from Save_correct [OF exampleListing_ok(1) _ this] show ?thesis by (simp add: exampleConv_def)
qed

theorem restart_round_trip_witness:
  "\<forall>i. Get (Open (rev exampleListing)) i = Get (Open exampleListing) i"
proof
  fix i
  have "map_of (rev exampleListing) = files (Open exampleListing)" "distinct (map fst (rev exampleListing))"
    using exampleListing_ok(2) by (auto simp: Open_def exampleListing_def fun_eq_iff)
  from restart_round_trip [OF exampleListing_ok(1) exampleListing_synced this]
  show "Get (Open (rev exampleListing)) i = Get (Open exampleListing) i" by blast
qed

end
