(* ===== verification/Server_Core.thy ===== *)
theory Server_Core
  imports Dispatch Logbuf Chatstore
begin

text \<open>
  The inference endpoint of \<open>src/internal/server/server.go\<close>: request validation and translation,
  the deferral decision and hand-off to the relay, the blocking path through the queue, and the job
  history. A handler is a function from the server state, the clock and the outside answers it
  receives to the new state and the response it writes. Response messages are not modelled. Fresh
  identifiers are arguments; a request body that does not parse is \<open>None\<close>.
\<close>

section \<open>Data\<close>

record TextInput =
  ti_Prompt :: string
  ti_Messages :: "ChatMessage list"

record VisionInput =
  ImageBase64 :: string
  ImageURL :: string
  vi_Prompt :: string

record InferRequest =
  ir_CorrelationID :: string
  ir_Modality :: string
  ir_TextInput :: "TextInput option"
  ir_VisionInput :: "VisionInput option"
  ir_MaxTokens :: int
  ir_Temperature :: rat
  ir_SystemPrompt :: string
  ir_Stream :: bool
  ir_TimeoutMS :: int
  ir_Priority :: string
  ir_MinTier :: string
  ir_PreferredTier :: string
  ir_ResponseFormat :: string
  ir_Tools :: "Tool list"
  ir_Reasoning :: string

record ToolCallSummary =
  ts_Name :: string
  ts_Arguments :: string
  ts_Error :: string

record InferResponse =
  is_RequestID :: string
  is_CorrelationID :: string
  is_Modality :: string
  is_Output :: string
  is_Reasoning :: string
  is_TokensGenerated :: int
  is_TokensPerSec :: rat
  is_QueueWaitMS :: int
  is_InferenceMS :: int
  is_DurationMS :: int
  is_ModelTier :: string
  is_FinishedAt :: time
  is_ToolCalls :: "ToolCallSummary list"
  is_Truncated :: bool

text \<open>Response bodies, by the type the handler encodes.\<close>

datatype httpBody =
    ErrorBody string string
  | InferBody InferResponse
  | DeferredBody string string
  | HealthBody string int
  | AdminBody string int int
  | MetaBody ConversationMeta
  | MetaListBody "ConversationMeta list"
  | ConversationBody Conversation
  | TokenizeBody int int bool
  | PropsBody int bool
  | DescribeBody string string
  | LogsBody "Record list"
  | StatusBody "JobEntry list" nat string rat rat int
  | PressureBody int int int rat rat string int int
  | EmptyBody

record httpResponse =
  hr_status :: nat
  hr_body :: httpBody
  hr_degraded :: bool
  hr_allow :: string

definition respond :: "nat \<Rightarrow> httpBody \<Rightarrow> httpResponse" where
  "respond st b = \<lparr>hr_status = st, hr_body = b, hr_degraded = False, hr_allow = ''''\<rparr>"

definition writeError :: "nat \<Rightarrow> string \<Rightarrow> string \<Rightarrow> httpResponse" where
  "writeError st code cid = respond st (ErrorBody code cid)"

definition backendErrToHTTPStatus :: "string \<Rightarrow> nat" where
  "backendErrToHTTPStatus code =
     (if code \<in> {''invalid_request'', ''invalid_modality'', ''invalid_grammar''} then 400
      else if code = ''unauthorized'' then 401
      else if code = ''not_found'' then 404
      else if code \<in> {''overloaded'', ''rate_limited'', ''quota_exceeded''} then 429
      else if code = ''timeout'' then 408
      else if code = ''not_implemented'' then 501
      else if code \<in> {''model_load_failed'', ''unavailable'', ''queue_full''} then 503
      else 500)"

section \<open>Server state\<close>

record 'w relayClient =
  relEnqueue :: "string \<Rightarrow> InferRequest \<Rightarrow> ('w, string res) call"
  relResultURL :: "string \<Rightarrow> string"

text \<open>
  \<open>pauseSink\<close> is the worker's paused flag, \<open>restartCh\<close> the buffered restart channel; each optional
  dependency is \<open>None\<close> when it is not wired.
\<close>

record 'w Server =
  cpu :: "('w \<Rightarrow> rat) option"
  vramSrc :: "('w, int res) call option"
  vramTotal :: "('w, int res) call option"
  relay :: "'w relayClient option"
  inferTO :: int
  startedAt :: time
  history :: "JobEntry list"
  draining :: bool
  restartCh :: "unit chan option"
  pauseSink :: "bool option"
  queue :: Queue

definition defaultInferTimeout :: int where "defaultInferTimeout = 600000"

definition New_Server :: "Queue \<Rightarrow> time \<Rightarrow> 'w Server" where
  "New_Server q t = \<lparr>cpu = None, vramSrc = None, vramTotal = None, relay = None, inferTO = defaultInferTimeout,
     startedAt = t, history = [], draining = False, restartCh = None, pauseSink = None, queue = q\<rparr>"

definition SetInferTimeout :: "int \<Rightarrow> 'w Server \<Rightarrow> 'w Server" where
  "SetInferTimeout d srv = (if d > 0 then srv\<lparr>inferTO := d\<rparr> else srv)"

definition SetRelayEnqueuer :: "'w relayClient option \<Rightarrow> ('w, int res) call option \<Rightarrow> 'w Server \<Rightarrow> 'w Server" where
  "SetRelayEnqueuer r v srv = srv\<lparr>relay := r, vramSrc := v\<rparr>"

section \<open>Job history\<close>

definition jobHistoryMax :: nat where "jobHistoryMax = 200"

definition recordJob :: "JobEntry \<Rightarrow> 'w Server \<Rightarrow> 'w Server" where
  "recordJob entry srv =
     (let h = entry # history srv
      in srv\<lparr>history := (if length h > jobHistoryMax then take jobHistoryMax h else h)\<rparr>)"

lemma recordJob_history: "history (recordJob e srv) = take jobHistoryMax (e # history srv)"
  by (simp add: recordJob_def Let_def)

interpretation job_history: newest_first "\<lambda>(_::unit). recordJob" history "\<lambda>_. jobHistoryMax"
proof unfold_locales
  fix srv :: "'w Server" and e :: unit and x
  show "\<exists>k\<le>jobHistoryMax. history (recordJob x srv) = take k (x # history srv)"
    by (rule exI [of _ jobHistoryMax]) (simp add: recordJob_history)
qed simp

definition zeroEntry :: JobEntry where
  "zeroEntry = \<lparr>je_RequestID = '''', je_CorrelationID = '''', je_Source = JobSourceLocal, je_Status = JobStatusQueued,
     je_Modality = '''', je_ModelTier = '''', je_Priority = '''', je_MinTier = '''', je_EnqueuedAt = None,
     je_StartedAt = None, je_FinishedAt = None, je_DurationMS = 0, je_QueueWaitMS = 0, je_InferenceMS = 0,
     je_TokensGenerated = 0, je_Deferred = False, je_ErrorCode = ''''\<rparr>"

section \<open>Validation\<close>

text \<open>The checks of \<open>handleInfer\<close> after decoding, in order; \<open>Some (status, code)\<close> rejects.\<close>

definition validateModality :: "InferRequest \<Rightarrow> (nat \<times> string) option" where
  "validateModality req =
     (if ir_Modality req = ''text'' then
        (case ir_TextInput req of
           None \<Rightarrow> Some (400, ''invalid_request'')
         | Some t \<Rightarrow> if ti_Prompt t = '''' \<and> ti_Messages t = [] then Some (400, ''invalid_request'') else None)
      else if ir_Modality req = ''vision'' then
        (case ir_VisionInput req of
           None \<Rightarrow> Some (400, ''invalid_request'')
         | Some v \<Rightarrow> if vi_Prompt v = '''' then Some (400, ''invalid_request'')
                     else if ImageBase64 v = '''' then Some (400, ''invalid_request'')
                     else None)
      else if ir_Modality req = '''' then Some (400, ''invalid_request'')
      else Some (400, ''invalid_modality''))"

definition validateTools :: "InferRequest \<Rightarrow> (nat \<times> string) option" where
  "validateTools req =
     (if ir_Tools req = [] then None
      else if ir_Modality req = ''vision'' then Some (400, ''tool_not_supported'')
      else if ir_MinTier req \<noteq> ''mid'' \<and> ir_MinTier req \<noteq> ''strong'' \<and>
              ir_PreferredTier req \<noteq> ''mid'' \<and> ir_PreferredTier req \<noteq> ''strong'' then Some (400, ''tool_not_supported'')
      else if (case ir_TextInput req of None \<Rightarrow> True | Some t \<Rightarrow> ti_Messages t = []) then Some (400, ''invalid_request'')
      else None)"

definition validateInfer :: "InferRequest \<Rightarrow> (nat \<times> string) option" where
  "validateInfer req =
     (case validateModality req of
        Some e \<Rightarrow> Some e
      | None \<Rightarrow>
          if ir_Reasoning req \<noteq> '''' \<and> ir_Reasoning req \<noteq> ''off'' \<and> ir_Reasoning req \<noteq> ''on''
          then Some (400, ''invalid_request'')
          else validateTools req)"

section \<open>Translation\<close>

definition translateTools :: "Tool list \<Rightarrow> Tool list" where
  "translateTools tools = map (\<lambda>t. \<lparr>tool_Type = tool_Type t, tool_Name = tool_Name t,
     tool_Description = tool_Description t, tool_Parameters = tool_Parameters t\<rparr>) tools"

definition plainMessage :: "string \<Rightarrow> string \<Rightarrow> Message" where
  "plainMessage role txt = \<lparr>Role = role, Content = txt, ToolCalls = [], ToolCallID = '''', MsgName = ''''\<rparr>"

definition translateMessages :: "ChatMessage list \<Rightarrow> string \<Rightarrow> Message list" where
  "translateMessages msgs systemPrompt =
     (let hasSystem = list_ex (\<lambda>m. cm_Role m = ''system'') msgs
      in (if systemPrompt \<noteq> '''' \<and> \<not> hasSystem then [plainMessage ''system'' systemPrompt] else [])
         @ map (\<lambda>m. plainMessage (cm_Role m) (cm_Content m)) msgs)"

text \<open>\<open>decode64\<close> is the standard library's base64 decoder, \<open>None\<close> for an invalid encoding.\<close>

definition TranslateInferRequest :: "(string \<Rightarrow> nat list option) \<Rightarrow> InferRequest \<Rightarrow> string \<Rightarrow> Request" where
  "TranslateInferRequest decode64 req requestID =
     (let messages = (case ir_TextInput req of None \<Rightarrow> []
            | Some t \<Rightarrow> if ti_Messages t \<noteq> [] then translateMessages (ti_Messages t) (ir_SystemPrompt req) else []);
          prompt0 = (case ir_TextInput req of None \<Rightarrow> ''''
            | Some t \<Rightarrow> if ti_Messages t \<noteq> [] then ''''
                        else if ti_Prompt t \<noteq> '''' then
                          (if ir_SystemPrompt req \<noteq> '''' then ir_SystemPrompt req @ [CHR 0x0A, CHR 0x0A] @ ti_Prompt t else ti_Prompt t)
                        else '''');
          prompt = (case ir_VisionInput req of None \<Rightarrow> prompt0 | Some v \<Rightarrow> vi_Prompt v);
          image = (case ir_VisionInput req of None \<Rightarrow> []
            | Some v \<Rightarrow> if ImageBase64 v \<noteq> '''' then (case decode64 (ImageBase64 v) of Some d \<Rightarrow> d | None \<Rightarrow> []) else [])
      in \<lparr>CorrelationID = ir_CorrelationID req, RequestID = requestID, ReqModality = ir_Modality req,
          Prompt = prompt, Messages = messages, ImageData = image, SystemPrompt = ir_SystemPrompt req,
          MaxTokens = ir_MaxTokens req, Temperature = ir_Temperature req, Priority = ir_Priority req,
          MinTier = ir_MinTier req, PreferredTier = ir_PreferredTier req, Stream = ir_Stream req,
          ResponseFormat = ir_ResponseFormat req, Tools = translateTools (ir_Tools req), Reasoning = ir_Reasoning req\<rparr>)"

section \<open>Deferral\<close>

definition shouldDefer :: "'w Server \<Rightarrow> 'w sys \<Rightarrow> string \<Rightarrow> 'w sys \<times> bool" where
  "shouldDefer srv s priority =
     (case (relay srv, vramSrc srv) of
        (Some _, Some v) \<Rightarrow>
          if priority = ''high'' then (s, False)
          else (case do_call v s of
                  (s1, Inl _) \<Rightarrow> (s1, False)
                | (s1, Inr avail) \<Rightarrow>
                    if avail < 0 then (s1, False)
                    else if avail \<ge> 500 then (s1, False)
                    else (case cpu srv of None \<Rightarrow> (s1, False) | Some pct \<Rightarrow> (s1, pct (ext s1) > 90)))
      | _ \<Rightarrow> (s, False))"

definition deferToRelay :: "'w Server \<Rightarrow> 'w sys \<Rightarrow> InferRequest \<Rightarrow> 'w Server \<times> 'w sys \<times> httpResponse option" where
  "deferToRelay srv s req =
     (case shouldDefer srv s (ir_Priority req) of
        (s1, False) \<Rightarrow> (srv, s1, None)
      | (s1, True) \<Rightarrow>
          (case relay srv of
             None \<Rightarrow> (srv, s1, None)
           | Some r \<Rightarrow>
               (case do_call (relEnqueue r (ir_CorrelationID req) req) s1 of
                  (s2, Inl _) \<Rightarrow> (srv, s2, Some (writeError 503 ''overloaded'' (ir_CorrelationID req)))
                | (s2, Inr jobID) \<Rightarrow>
                    (recordJob (zeroEntry\<lparr>je_RequestID := jobID, je_CorrelationID := ir_CorrelationID req,
                        je_Source := JobSourceOffline, je_Status := JobStatusQueued, je_Modality := ir_Modality req,
                        je_Priority := ir_Priority req, je_MinTier := ir_MinTier req, je_EnqueuedAt := Some (clock s2),
                        je_Deferred := True\<rparr>) srv,
                     s2, Some (respond 202 (DeferredBody jobID (relResultURL r jobID)))))))"

section \<open>The blocking path\<close>

text \<open>The select of \<open>Enqueue\<close> only fires a case that is ready, so on a full queue the choice is the end of
  the context. What the handler sees while it waits: the job's result, or the end of its context (by its
  deadline or by a disconnect), after some time.\<close>

datatype waitOutcome = ResultArrived nat Result | ContextEnded nat bool

definition handleInferBlocking :: "'w Server \<Rightarrow> 'w sys \<Rightarrow> InferRequest \<Rightarrow> Request \<Rightarrow> selectCase \<Rightarrow> waitOutcome \<Rightarrow>
    'w Server \<times> 'w sys \<times> httpResponse" where
  "handleInferBlocking srv s req breq sel wait =
     (let enqueuedAt = clock s; cid = ir_CorrelationID req in
      case deferToRelay srv s req of
        (srv1, s1, Some resp) \<Rightarrow> (srv1, s1, resp)
      | (srv1, s1, None) \<Rightarrow>
          let job = \<lparr>job_ID = RequestID breq, job_CorrelationID = cid, job_EnqueuedAt = enqueuedAt,
                     job_Req = breq, hasResultCh = True\<rparr>;
              base = zeroEntry\<lparr>je_RequestID := RequestID breq, je_CorrelationID := cid, je_Modality := ir_Modality req,
                     je_Priority := ir_Priority req, je_MinTier := ir_MinTier req, je_EnqueuedAt := Some enqueuedAt\<rparr>
          in case Enqueue (queue srv1) job sel of
               None \<Rightarrow> (srv1, s1, writeError 503 ''overloaded'' cid)
             | Some (q, Some _) \<Rightarrow> (srv1, s1, writeError 503 ''overloaded'' cid)
             | Some (q, None) \<Rightarrow>
                 let srv2 = srv1\<lparr>queue := q\<rparr> in
                 (case wait of
                    ContextEnded dt deadlineExceeded \<Rightarrow>
                      let s2 = s1\<lparr>clock := clock s1 + int dt\<rparr>;
                          resp = (if deadlineExceeded then writeError 408 ''timeout'' cid else writeError 503 ''unavailable'' cid)
                      in (recordJob (base\<lparr>je_Status := JobStatusCancelled, je_FinishedAt := Some (clock s2),
                            je_DurationMS := clock s2 - enqueuedAt\<rparr>) srv2, s2, resp)
                  | ResultArrived dt result \<Rightarrow>
                      let s2 = s1\<lparr>clock := clock s1 + int dt\<rparr>;
                          finishedAt = clock s2;
                          started = (case r_StartedAt result of Some t \<Rightarrow> t | None \<Rightarrow> enqueuedAt);
                          timed = base\<lparr>je_StartedAt := Some started, je_FinishedAt := Some finishedAt,
                                    je_DurationMS := finishedAt - enqueuedAt, je_QueueWaitMS := started - enqueuedAt,
                                    je_InferenceMS := finishedAt - started\<rparr>
                      in (case r_Err result of
                            Some e \<Rightarrow>
                              (recordJob (timed\<lparr>je_Status := JobStatusFailed\<rparr>) srv2, s2,
                               (case isBackendErr e of
                                  Some code \<Rightarrow> writeError (backendErrToHTTPStatus code) code cid
                                | None \<Rightarrow> writeError 500 ''internal_error'' cid))
                          | None \<Rightarrow>
                              (recordJob (timed\<lparr>je_Status := JobStatusDone, je_ModelTier := r_ModelTier result,
                                   je_TokensGenerated := r_TokensGenerated result\<rparr>) srv2, s2,
                               (respond 200 (InferBody \<lparr>is_RequestID = RequestID breq, is_CorrelationID = cid,
                                  is_Modality = ir_Modality req, is_Output = r_Output result, is_Reasoning = r_Reasoning result,
                                  is_TokensGenerated = r_TokensGenerated result, is_TokensPerSec = r_TokPerSecSample result,
                                  is_QueueWaitMS = started - enqueuedAt, is_InferenceMS = finishedAt - started,
                                  is_DurationMS = finishedAt - enqueuedAt, is_ModelTier = r_ModelTier result,
                                  is_FinishedAt = finishedAt, is_ToolCalls = [], is_Truncated = r_LengthLimited result\<rparr>))
                               \<lparr>hr_degraded := r_QualityDegraded result\<rparr>))))"

section \<open>Properties\<close>

lemma translateMessages_nonempty: "msgs \<noteq> [] \<Longrightarrow> translateMessages msgs sp \<noteq> []"
  by (simp add: translateMessages_def Let_def)

lemmas translate_defs = TranslateInferRequest_def Let_def translateTools_def

text \<open>
  A request that passes validation is one the backends can act on. Its modality is text or
  vision; a text request (without a stray image) becomes a backend request with messages or a
  prompt, a vision request one with a prompt; a request with tools always carries chat messages and
  is bound to the mid or strong tier by its floor or its pin.
\<close>

lemma validated_request_servable:
  assumes "validateInfer req = None" and "breq = TranslateInferRequest decode64 req rid"
  shows "ReqModality breq \<in> {''text'', ''vision''}
    \<and> (ReqModality breq = ''text'' \<and> ir_VisionInput req = None \<longrightarrow> Messages breq \<noteq> [] \<or> Prompt breq \<noteq> '''')
    \<and> (ReqModality breq = ''vision'' \<longrightarrow> Prompt breq \<noteq> '''')
    \<and> (Tools breq \<noteq> [] \<longrightarrow> ReqModality breq = ''text'' \<and> Messages breq \<noteq> []
        \<and> (MinTier breq \<in> {''mid'', ''strong''} \<or> PreferredTier breq \<in> {''mid'', ''strong''}))"
proof -
  from assms(1) have m: "validateModality req = None" and t: "validateTools req = None"
    by (auto simp: validateInfer_def split: option.splits if_splits)
  have md: "ir_Modality req \<in> {''text'', ''vision''}"
    using m by (auto simp: validateModality_def split: if_splits)
  have tx: "\<exists>ti. ir_TextInput req = Some ti \<and> (ti_Messages ti \<noteq> [] \<or> ti_Prompt ti \<noteq> '''')" if "ir_Modality req = ''text''"
    using m that by (auto simp: validateModality_def split: if_splits option.splits)
  have vis: "\<exists>v. ir_VisionInput req = Some v \<and> vi_Prompt v \<noteq> ''''" if "ir_Modality req = ''vision''"
    using m that by (auto simp: validateModality_def split: if_splits option.splits)
  have tools: "ir_Modality req \<noteq> ''vision'' \<and> (\<exists>ti. ir_TextInput req = Some ti \<and> ti_Messages ti \<noteq> [])
      \<and> (ir_MinTier req \<in> {''mid'', ''strong''} \<or> ir_PreferredTier req \<in> {''mid'', ''strong''})" if "ir_Tools req \<noteq> []"
    using t that by (auto simp: validateTools_def split: if_splits option.splits)
  have f: "ReqModality breq = ir_Modality req" "MinTier breq = ir_MinTier req" "PreferredTier breq = ir_PreferredTier req"
    "Tools breq = [] \<longleftrightarrow> ir_Tools req = []"
    by (simp_all add: assms(2) translate_defs)
  have "Messages breq \<noteq> [] \<or> Prompt breq \<noteq> ''''" if "ir_Modality req = ''text''" "ir_VisionInput req = None"
    using tx [OF that(1)] that(2) by (auto simp: assms(2) translate_defs translateMessages_nonempty split: if_splits)
  moreover have "Prompt breq \<noteq> ''''" if "ir_Modality req = ''vision''"
    using vis [OF that] by (auto simp: assms(2) translate_defs)
  moreover have "Messages breq \<noteq> []" if "ir_Tools req \<noteq> []"
    using tools [OF that] by (auto simp: assms(2) translate_defs translateMessages_nonempty)
  ultimately show ?thesis using md tools f by auto
qed

definition exampleInfer :: InferRequest where
  "exampleInfer = \<lparr>ir_CorrelationID = ''c'', ir_Modality = ''text'',
     ir_TextInput = Some \<lparr>ti_Prompt = '''', ti_Messages = [\<lparr>cm_Role = ''user'', cm_Content = ''hi''\<rparr>]\<rparr>,
     ir_VisionInput = None, ir_MaxTokens = 0, ir_Temperature = 0, ir_SystemPrompt = ''be brief'', ir_Stream = False,
     ir_TimeoutMS = 0, ir_Priority = ''normal'', ir_MinTier = ''mid'', ir_PreferredTier = '''', ir_ResponseFormat = '''',
     ir_Tools = [\<lparr>tool_Type = ''function'', tool_Name = ''web_search'', tool_Description = '''', tool_Parameters = ''''\<rparr>],
     ir_Reasoning = ''off''\<rparr>"

lemma validated_request_servable_witness:
  "Messages (TranslateInferRequest (\<lambda>_. None) exampleInfer ''r'') \<noteq> []"
  using validated_request_servable [of exampleInfer _ "\<lambda>_. None" "''r''", OF _ refl]
  by (simp add: validateInfer_def validateModality_def validateTools_def exampleInfer_def translate_defs)

lemma deferToRelay_local:
  "deferToRelay srv s req = (srv', s', None) \<Longrightarrow> srv' = srv"
  by (auto simp: deferToRelay_def split: prod.splits bool.splits option.splits sum.splits)

lemma deferToRelay_records:
  "deferToRelay srv s req = (srv', s', r) \<Longrightarrow> srv' = srv \<or> (\<exists>e. srv' = recordJob e srv)"
  by (auto simp: deferToRelay_def split: prod.splits bool.splits option.splits sum.splits)

text \<open>
  Work is handed to the relay only when it should be: a relay and a VRAM reading are wired, the
  request is not high priority, less than 500 MB of VRAM is free and the processor is above ninety
  per cent; otherwise the request is served locally and nothing is sent. When it is handed over, the
  caller gets 202 with the relay's job id and address and the history gains one deferred entry, or
  503 and no entry when the relay cannot take it.
\<close>

lemma deferral_correct:
  assumes "deferToRelay srv s req = (srv', s', r)"
  shows "(r = None \<longrightarrow> srv' = srv)
    \<and> (r \<noteq> None \<longrightarrow> ir_Priority req \<noteq> ''high''
        \<and> (\<exists>v pct s1 avail. vramSrc srv = Some v \<and> cpu srv = Some pct \<and> do_call v s = (s1, Inr avail)
             \<and> 0 \<le> avail \<and> avail < 500 \<and> pct (ext s1) > 90))
    \<and> (\<forall>resp. r = Some resp \<longrightarrow>
        (hr_status resp = 503 \<and> srv' = srv)
        \<or> (\<exists>rl jobID e. relay srv = Some rl \<and> resp = respond 202 (DeferredBody jobID (relResultURL rl jobID))
             \<and> srv' = recordJob e srv \<and> je_Deferred e \<and> je_RequestID e = jobID))"
proof (cases "\<exists>rl v. relay srv = Some rl \<and> vramSrc srv = Some v \<and> ir_Priority req \<noteq> ''high''")
  case False
  then have "shouldDefer srv s (ir_Priority req) = (s, False)"
    by (auto simp: shouldDefer_def split: option.split)
  with assms show ?thesis by (simp add: deferToRelay_def)
next
  case True
  then obtain rl v where w: "relay srv = Some rl" "vramSrc srv = Some v" "ir_Priority req \<noteq> ''high''" by blast
  obtain s1 a where 1: "do_call v s = (s1, a)" by fastforce
  obtain s2 o' where 2: "do_call (relEnqueue rl (ir_CorrelationID req) req) s1 = (s2, o')" by fastforce
  have d: "shouldDefer srv s (ir_Priority req)
      = (s1, \<exists>avail pct. a = Inr avail \<and> 0 \<le> avail \<and> avail < 500 \<and> cpu srv = Some pct \<and> pct (ext s1) > 90)"
    using w 1 by (auto simp: shouldDefer_def split: sum.split option.split)
  show ?thesis
  proof (cases "\<exists>avail pct. a = Inr avail \<and> 0 \<le> avail \<and> avail < 500 \<and> cpu srv = Some pct \<and> pct (ext s1) > 90")
    case no: False
    have "shouldDefer srv s (ir_Priority req) = (s1, False)" using d no by simp
    with assms show ?thesis by (simp add: deferToRelay_def)
  next
    case yes: True
    then have d': "shouldDefer srv s (ir_Priority req) = (s1, True)" using d by simp
    show ?thesis
    proof (cases o')
      case (Inl e)
      with assms w 2 d' have "srv' = srv" "r = Some (writeError 503 ''overloaded'' (ir_CorrelationID req))"
        by (simp_all add: deferToRelay_def)
      with yes w 1 show ?thesis by (auto simp: writeError_def respond_def)
    next
      case (Inr jobID)
      with assms w 2 d' have "\<exists>e. srv' = recordJob e srv \<and> je_Deferred e \<and> je_RequestID e = jobID"
        and "r = Some (respond 202 (DeferredBody jobID (relResultURL rl jobID)))"
        by (auto simp: deferToRelay_def)
      with yes w 1 show ?thesis by auto
    qed
  qed
qed

definition exampleRelay :: "int relayClient" where
  "exampleRelay = \<lparr>relEnqueue = (\<lambda>cid req w. (w, 5, Ok ''job-1'')), relResultURL = (\<lambda>j. ''https://relay/result/'' @ j)\<rparr>"

definition exampleServer :: "int Server" where
  "exampleServer = (New_Server (New_Queue 4) 0)\<lparr>relay := Some exampleRelay, vramSrc := Some (\<lambda>w. (w, 1, Ok w)), cpu := Some (\<lambda>w. 95)\<rparr>"

lemma deferral_correct_witness:
  "case deferToRelay exampleServer \<lparr>clock = 0, ext = 300\<rparr> exampleInfer of
     (srv', s', r) \<Rightarrow> map_option hr_status r = Some 202 \<and> ir_Priority exampleInfer \<noteq> ''high''"
proof -
  obtain srv' s' r where d: "deferToRelay exampleServer \<lparr>clock = 0, ext = 300\<rparr> exampleInfer = (srv', s', r)"
    by (metis prod_cases3)
  then have "map_option hr_status r = Some 202"
    by (auto simp: deferToRelay_def shouldDefer_def exampleServer_def exampleRelay_def New_Server_def exampleInfer_def
        do_call_def respond_def)
  moreover from this have "r \<noteq> None" by auto
  ultimately show ?thesis using deferral_correct [OF d] by (simp add: d)
qed

text \<open>
  The blocking path answers and accounts consistently. A request that was accepted by the
  queue adds exactly one entry to the history; the entry says done exactly when the response is
  200, and then response and entry agree on the tier; and the reported times add up: queue wait
  plus inference time is the total, which is never negative.
\<close>

lemma blocking_accounts:
  assumes "deferToRelay srv s req = (srv, s1, None)" and "clock s \<le> clock s1"
    and "Enqueue (queue srv) \<lparr>job_ID = RequestID breq, job_CorrelationID = ir_CorrelationID req, job_EnqueuedAt = clock s,
           job_Req = breq, hasResultCh = True\<rparr> sel = Some (q, None)"
    and "handleInferBlocking srv s req breq sel wait = (srv', s', resp)"
  shows "\<exists>e. srv' = recordJob e (srv\<lparr>queue := q\<rparr>) \<and> je_RequestID e = RequestID breq
     \<and> (je_Status e = JobStatusDone \<longleftrightarrow> hr_status resp = 200) \<and> je_Status e \<noteq> JobStatusQueued
     \<and> 0 \<le> je_DurationMS e
     \<and> (\<forall>b. hr_body resp = InferBody b \<longrightarrow> is_ModelTier b = je_ModelTier e \<and> is_DurationMS b = je_DurationMS e
          \<and> is_QueueWaitMS b + is_InferenceMS b = is_DurationMS b)"
proof (cases wait)
  case (ContextEnded dt dl)
  with assms show ?thesis
    by (auto simp: handleInferBlocking_def Let_def writeError_def respond_def zeroEntry_def)
       (rule exI, rule conjI [OF refl], simp)
next
  case (ResultArrived dt result)
  have "backendErrToHTTPStatus c \<noteq> 200" for c by (simp add: backendErrToHTTPStatus_def)
  then show ?thesis using assms ResultArrived
    by (cases "r_Err result")
       (auto simp: handleInferBlocking_def Let_def writeError_def respond_def zeroEntry_def split: option.splits,
        (rule exI, rule conjI [OF refl], simp)+)
qed

definition exampleBusyServer :: "int Server" where
  "exampleBusyServer = New_Server (New_Queue 4) 0"

lemma blocking_accounts_witness:
  "case handleInferBlocking exampleBusyServer \<lparr>clock = 0, ext = 0\<rparr> exampleInfer
       (TranslateInferRequest (\<lambda>_. None) exampleInfer ''r1'') ChanReady
       (ResultArrived 40 (zeroResult\<lparr>r_Output := ''hi'', r_ModelTier := ''mid'', r_StartedAt := Some 10\<rparr>)) of
     (srv', s', resp) \<Rightarrow> hr_status resp = 200 \<and> map je_Status (history srv') = [JobStatusDone]"
proof -
  let ?breq = "TranslateInferRequest (\<lambda>_. None) exampleInfer ''r1''"
  let ?wait = "ResultArrived 40 (zeroResult\<lparr>r_Output := ''hi'', r_ModelTier := ''mid'', r_StartedAt := Some 10\<rparr>)"
  let ?job = "\<lparr>job_ID = RequestID ?breq, job_CorrelationID = ir_CorrelationID exampleInfer, job_EnqueuedAt = 0,
           job_Req = ?breq, hasResultCh = True\<rparr>"
  obtain srv' s' resp where h: "handleInferBlocking exampleBusyServer \<lparr>clock = 0, ext = 0\<rparr> exampleInfer ?breq ChanReady ?wait
      = (srv', s', resp)" by (metis prod_cases3)
  have d: "deferToRelay exampleBusyServer \<lparr>clock = 0, ext = 0\<rparr> exampleInfer = (exampleBusyServer, \<lparr>clock = 0, ext = 0\<rparr>, None)"
    by (simp add: deferToRelay_def shouldDefer_def exampleBusyServer_def New_Server_def)
  have e: "Enqueue (queue exampleBusyServer) ?job ChanReady = Some ((New_Queue 4)\<lparr>chan_buf := [?job]\<rparr>, None)"
    by (simp add: exampleBusyServer_def New_Server_def New_Queue_def chan_send_def make_chan_def)
  have st: "hr_status resp = 200"
    using h d e by (auto simp: handleInferBlocking_def Let_def respond_def zeroResult_def)
  from blocking_accounts [OF d _ _ h] e obtain en where
    "srv' = recordJob en (exampleBusyServer\<lparr>queue := (New_Queue 4)\<lparr>chan_buf := [?job]\<rparr>\<rparr>)"
    "je_Status en = JobStatusDone \<longleftrightarrow> hr_status resp = 200" by auto
  with st h show ?thesis by (simp add: recordJob_history exampleBusyServer_def New_Server_def jobHistoryMax_def)
qed

text \<open>A failed job's history entry never carries its error code, although the field is documented as
  non-empty for failed jobs.\<close>

lemma failed_entry_has_no_code:
  assumes "deferToRelay srv s req = (srv, s1, None)" "r_Err result = Some e"
    and "Enqueue (queue srv) \<lparr>job_ID = RequestID breq, job_CorrelationID = ir_CorrelationID req, job_EnqueuedAt = clock s,
           job_Req = breq, hasResultCh = True\<rparr> sel = Some (q, None)"
    and "handleInferBlocking srv s req breq sel (ResultArrived dt result) = (srv', s', resp)"
  shows "\<exists>e. hd (history srv') = e \<and> je_Status e = JobStatusFailed \<and> je_ErrorCode e = ''''"
  using assms
  by (auto simp: handleInferBlocking_def Let_def recordJob_history jobHistoryMax_def zeroEntry_def)

text \<open>
  The job history holds the newest entries only: after any jobs it is a contiguous run of the
  most recent ones, newest first, at most 200.
\<close>

lemma history_window:
  fixes srv :: "'w Server"
  assumes "entries \<noteq> []"
  shows "\<exists>k. history (fold recordJob entries srv) = take k (rev entries @ history srv)
    \<and> length (history (fold recordJob entries srv)) \<le> jobHistoryMax"
proof -
  have f: "fold (\<lambda>(u, e). recordJob e) (map (Pair ()) entries) srv = fold recordJob entries srv"
    by (simp add: fold_map comp_def)
  have "map snd (map (Pair ()) entries) = entries" by (simp add: comp_def)
  with job_history.run_prefix [of "map (Pair ()) entries" srv] job_history.run_bounded [of "map (Pair ()) entries" srv] assms f
  show ?thesis by auto
qed

lemma history_window_witness:
  "length (history (fold recordJob (replicate 300 zeroEntry) exampleBusyServer)) \<le> jobHistoryMax"
  using history_window [of "replicate 300 zeroEntry" exampleBusyServer] by auto

end
