(* ===== verification/Server_Stream.thy ===== *)
theory Server_Stream
  imports Server_Core
begin

text \<open>
  The paths that talk to a backend directly: the tool-calling loop of
  \<open>src/internal/server/server_tools.go\<close> and the event streams of \<open>server_stream.go\<close>. A stream is the
  list of events written to it. What comes from the standard library or from a service is an
  argument: the JSON encoding of a string, the query inside a tool call's arguments, an error's
  message text and the search service.
\<close>

section \<open>Interfaces and events\<close>

record 'w srvBackend =
  sbInfer :: "Request \<Rightarrow> ('w, Response res) call"
  sbStream :: "(Request \<Rightarrow> ('w, chunk list \<times> Response \<times> go_error option) call) option"

record 'w toolEnv =
  queryOf :: "string \<Rightarrow> string"
  msgOf :: "go_error \<Rightarrow> string"
  jsonString :: "string \<Rightarrow> string"
  toolSearcher :: "(string \<Rightarrow> ('w, string res) call) option"

record streamDone =
  sd_TokensGenerated :: int
  sd_TokensPerSec :: rat
  sd_QueueWaitMS :: int
  sd_InferenceMS :: int
  sd_DurationMS :: int
  sd_ModelTier :: string
  sd_Error :: string
  sd_Truncated :: bool

definition zeroDone :: streamDone where
  "zeroDone = \<lparr>sd_TokensGenerated = 0, sd_TokensPerSec = 0, sd_QueueWaitMS = 0, sd_InferenceMS = 0,
     sd_DurationMS = 0, sd_ModelTier = '''', sd_Error = '''', sd_Truncated = False\<rparr>"

datatype sse =
    DeltaEv string
  | ReasoningEv string
  | ToolEv ToolCallSummary
  | DoneEv streamDone
  | Sentinel

datatype reply = Http httpResponse | Sse "sse list"

definition chunkEv :: "chunk \<Rightarrow> sse" where
  "chunkEv c = (case fst c of ChunkReasoning \<Rightarrow> ReasoningEv (snd c) | ChunkContent \<Rightarrow> DeltaEv (snd c))"

definition writeDone :: "streamDone \<Rightarrow> sse list" where
  "writeDone d = [DoneEv d, Sentinel]"

section \<open>The tool-calling loop\<close>

definition emDash :: string where "emDash = [CHR 0xE2, CHR 0x80, CHR 0x94]"

definition searchFailureContent :: "'w toolEnv \<Rightarrow> string \<Rightarrow> string" where
  "searchFailureContent env errMsg =
     ''{\"error\":'' @ jsonString env errMsg @ '',\"instruction\":'' @ jsonString env
       (''The web search failed, so you have no current information for this query. Answer using only what you already know, and say so explicitly '' @ emDash @
        '' e.g. start with \"Based on my last update...\" or \"I wasn'' @ [CHR 0x27] @ ''t able to search, but as of my training...\" '' @ emDash @
        '' rather than presenting your answer as current or search-verified.'') @ ''}''"

definition toolMessage :: "ToolCall \<Rightarrow> string \<Rightarrow> Message" where
  "toolMessage call content = \<lparr>Role = ''tool'', Content = content, ToolCalls = [], ToolCallID = tc_ID call, MsgName = tc_Name call\<rparr>"

definition executeToolCall :: "'w toolEnv \<Rightarrow> 'w sys \<Rightarrow> ToolCall \<Rightarrow> 'w sys \<times> Message \<times> ToolCallSummary" where
  "executeToolCall env s call =
     (let summary = \<lparr>ts_Name = tc_Name call, ts_Arguments = tc_Arguments call, ts_Error = ''''\<rparr> in
      if tc_Name call \<noteq> ''web_search'' then
        (s, toolMessage call (searchFailureContent env ''tool not available''), summary\<lparr>ts_Error := ''tool not available''\<rparr>)
      else (case toolSearcher env of
              None \<Rightarrow> (s, toolMessage call (searchFailureContent env ''search is not available right now''),
                       summary\<lparr>ts_Error := ''search backend not configured''\<rparr>)
            | Some srch \<Rightarrow>
                (case do_call (srch (queryOf env (tc_Arguments call))) s of
                   (s1, Inl e) \<Rightarrow>
                     (let msg = (case isBackendErr e of Some _ \<Rightarrow> msgOf env e | None \<Rightarrow> ''search failed'')
                      in (s1, toolMessage call (searchFailureContent env msg), summary\<lparr>ts_Error := msg\<rparr>))
                 | (s1, Inr content) \<Rightarrow> (s1, toolMessage call content, summary))))"

fun resolveCalls :: "'w toolEnv \<Rightarrow> 'w sys \<Rightarrow> ToolCall list \<Rightarrow> 'w sys \<times> Message list \<times> ToolCallSummary list" where
  "resolveCalls env s [] = (s, [], [])"
| "resolveCalls env s (call # calls) =
     (let (s1, m, sm) = executeToolCall env s call;
          (s2, ms, sms) = resolveCalls env s1 calls
      in (s2, m # ms, sm # sms))"

text \<open>The second request of a tool round trip: the results appended, no more tools on offer.\<close>

definition followUp :: "Request \<Rightarrow> ToolCall list \<Rightarrow> Message list \<Rightarrow> Request" where
  "followUp req calls toolMsgs =
     req\<lparr>Messages := Messages req @ [\<lparr>Role = ''assistant'', Content = '''', ToolCalls = calls, ToolCallID = '''', MsgName = ''''\<rparr>] @ toolMsgs,
         Tools := []\<rparr>"

definition runWithTools :: "'w toolEnv \<Rightarrow> 'w srvBackend \<Rightarrow> 'w sys \<Rightarrow> Request \<Rightarrow> 'w sys \<times> ToolCallSummary list \<times> Response res" where
  "runWithTools env b s req =
     (case do_call (sbInfer b req) s of
        (s1, Inl e) \<Rightarrow> (s1, [], Err e)
      | (s1, Inr resp) \<Rightarrow>
          if RespToolCalls resp = [] then (s1, [], Ok resp)
          else let (s2, msgs, summaries) = resolveCalls env s1 (RespToolCalls resp);
                   (s3, final) = do_call (sbInfer b (followUp req (RespToolCalls resp) msgs)) s2
               in (s3, summaries, final))"

definition runWithToolsStream :: "'w toolEnv \<Rightarrow> (Request \<Rightarrow> ('w, chunk list \<times> Response \<times> go_error option) call) \<Rightarrow>
    'w sys \<Rightarrow> Request \<Rightarrow> 'w sys \<times> sse list \<times> chunk list \<times> Response \<times> go_error option" where
  "runWithToolsStream env stream s req =
     (case do_call (stream req) s of
        (s1, chunks, resp, Some e) \<Rightarrow> (s1, map chunkEv chunks, chunks, zeroResponse, Some e)
      | (s1, chunks, resp, None) \<Rightarrow>
          if RespToolCalls resp = [] then (s1, map chunkEv chunks, chunks, resp, None)
          else let (s2, msgs, summaries) = resolveCalls env s1 (RespToolCalls resp);
                   (s3, chunks2, final, err) = do_call (stream (followUp req (RespToolCalls resp) msgs)) s2
               in (s3, map chunkEv chunks @ map ToolEv summaries @ map chunkEv chunks2, chunks @ chunks2,
                   (if err = None then final else zeroResponse), err))"

section \<open>Handlers\<close>

definition jobEntry :: "InferRequest \<Rightarrow> Request \<Rightarrow> JobStatus \<Rightarrow> string \<Rightarrow> int \<Rightarrow> time \<Rightarrow> time \<Rightarrow> time \<Rightarrow> JobEntry" where
  "jobEntry req breq st tier tokens enq started finished =
     zeroEntry\<lparr>je_RequestID := RequestID breq, je_CorrelationID := ir_CorrelationID req, je_Status := st,
       je_Modality := ir_Modality req, je_ModelTier := tier, je_Priority := ir_Priority req, je_MinTier := ir_MinTier req,
       je_EnqueuedAt := Some enq, je_StartedAt := Some started, je_FinishedAt := Some finished,
       je_DurationMS := finished - enq, je_QueueWaitMS := started - enq, je_InferenceMS := finished - started,
       je_TokensGenerated := tokens\<rparr>"

definition errCodeOf :: "go_error \<Rightarrow> string" where
  "errCodeOf e = (case isBackendErr e of Some c \<Rightarrow> c | None \<Rightarrow> ''internal_error'')"

definition errStatusOf :: "go_error \<Rightarrow> nat" where
  "errStatusOf e = (case isBackendErr e of Some c \<Rightarrow> backendErrToHTTPStatus c | None \<Rightarrow> 500)"

definition handleInferWithTools :: "'w toolEnv \<Rightarrow> (string \<rightharpoonup> 'w srvBackend) \<Rightarrow> 'w Server \<Rightarrow> 'w sys \<Rightarrow> InferRequest \<Rightarrow> Request \<Rightarrow>
    'w Server \<times> 'w sys \<times> httpResponse" where
  "handleInferWithTools env backends srv s req breq =
     (let enqueuedAt = clock s; cid = ir_CorrelationID req in
      case deferToRelay srv s req of
        (srv1, s1, Some resp) \<Rightarrow> (srv1, s1, resp)
      | (srv1, s1, None) \<Rightarrow>
          (case backends (ir_Modality req) of
             None \<Rightarrow> (srv1, s1, writeError 503 ''unavailable'' cid)
           | Some b \<Rightarrow>
               (case runWithTools env b s1 breq of
                  (s2, summaries, Inl e) \<Rightarrow>
                    (recordJob (jobEntry req breq JobStatusFailed '''' 0 enqueuedAt (clock s1) (clock s2)) srv1, s2,
                     writeError (errStatusOf e) (errCodeOf e) cid)
                | (s2, summaries, Inr resp) \<Rightarrow>
                    (recordJob (jobEntry req breq JobStatusDone (ModelTier resp) (TokensGenerated resp) enqueuedAt (clock s1) (clock s2)) srv1, s2,
                     (respond 200 (InferBody \<lparr>is_RequestID = RequestID breq, is_CorrelationID = cid, is_Modality = ir_Modality req,
                        is_Output = Output resp, is_Reasoning = RespReasoning resp, is_TokensGenerated = TokensGenerated resp,
                        is_TokensPerSec = TokPerSecSample resp, is_QueueWaitMS = clock s1 - enqueuedAt,
                        is_InferenceMS = clock s2 - clock s1, is_DurationMS = clock s2 - enqueuedAt, is_ModelTier = ModelTier resp,
                        is_FinishedAt = clock s2, is_ToolCalls = summaries, is_Truncated = LengthLimited resp\<rparr>))
                     \<lparr>hr_degraded := QualityDegraded resp\<rparr>))))"

text \<open>The common end of both stream handlers, from the finished backend call on. \<open>salvageable\<close> allows
  partial content to be kept after an error; the header set after the body has begun has no effect.\<close>

definition finishStream :: "bool \<Rightarrow> 'w Server \<Rightarrow> InferRequest \<Rightarrow> Request \<Rightarrow> time \<Rightarrow> time \<Rightarrow> chunk list \<Rightarrow> Response \<Rightarrow>
    go_error option \<Rightarrow> 'w Server \<times> sse list" where
  "finishStream salvageable srv req breq started finished chunks resp err =
     (let contentEmitted = list_ex (\<lambda>c. fst c = ChunkContent) chunks;
          reasoningEmitted = list_ex (\<lambda>c. fst c = ChunkReasoning) chunks;
          entry = (\<lambda>st tier tokens. jobEntry req breq st tier tokens started started finished)
      in case err of
           Some e \<Rightarrow>
             if contentEmitted \<and> salvageable then
               (recordJob (entry JobStatusDone (ModelTier resp) 0) srv,
                writeDone (zeroDone\<lparr>sd_DurationMS := finished - started, sd_InferenceMS := finished - started,
                   sd_ModelTier := ModelTier resp, sd_Truncated := True\<rparr>))
             else (recordJob (entry JobStatusFailed '''' 0) srv, writeDone (zeroDone\<lparr>sd_Error := errCodeOf e\<rparr>))
         | None \<Rightarrow>
             if \<not> contentEmitted then
               (recordJob (entry JobStatusFailed (ModelTier resp) 0) srv,
                writeDone (zeroDone\<lparr>sd_Error := (if reasoningEmitted then ''reasoning_exhausted'' else ''internal_error'')\<rparr>))
             else
               (recordJob (entry JobStatusDone (ModelTier resp) (TokensGenerated resp)) srv,
                writeDone (zeroDone\<lparr>sd_TokensGenerated := TokensGenerated resp, sd_TokensPerSec := TokPerSecSample resp,
                   sd_InferenceMS := finished - started, sd_DurationMS := finished - started,
                   sd_ModelTier := ModelTier resp, sd_Truncated := LengthLimited resp\<rparr>)))"

definition handleInferStreamWithTools :: "'w toolEnv \<Rightarrow> (string \<rightharpoonup> 'w srvBackend) \<Rightarrow> bool \<Rightarrow> 'w Server \<Rightarrow> 'w sys \<Rightarrow> InferRequest \<Rightarrow>
    Request \<Rightarrow> 'w Server \<times> 'w sys \<times> reply" where
  "handleInferStreamWithTools env backends canFlush srv s req breq =
     (case deferToRelay srv s req of
        (srv1, s1, Some resp) \<Rightarrow> (srv1, s1, Http resp)
      | (srv1, s1, None) \<Rightarrow>
          (case (canFlush, Option.bind (backends (ir_Modality req)) sbStream) of
             (True, Some stream) \<Rightarrow>
               (case runWithToolsStream env stream s1 breq of
                  (s2, evs, chunks, resp, err) \<Rightarrow>
                    (case finishStream False srv1 req breq (clock s1) (clock s2) chunks resp err of
                       (srv2, fin) \<Rightarrow> (srv2, s2, Sse (evs @ fin))))
           | _ \<Rightarrow> (case handleInferWithTools env backends srv1 s1 req breq of (srv2, s2, resp) \<Rightarrow> (srv2, s2, Http resp))))"

definition handleInferStream :: "'w toolEnv \<Rightarrow> (string \<rightharpoonup> 'w srvBackend) \<Rightarrow> bool \<Rightarrow> 'w Server \<Rightarrow> 'w sys \<Rightarrow> InferRequest \<Rightarrow>
    Request \<Rightarrow> selectCase \<Rightarrow> waitOutcome \<Rightarrow> 'w Server \<times> 'w sys \<times> reply" where
  "handleInferStream env backends canFlush srv s req breq sel wait =
     (if ir_Tools req \<noteq> [] then handleInferStreamWithTools env backends canFlush srv s req breq
      else case deferToRelay srv s req of
        (srv1, s1, Some resp) \<Rightarrow> (srv1, s1, Http resp)
      | (srv1, s1, None) \<Rightarrow>
          (case (canFlush, Option.bind (backends (ir_Modality req)) sbStream) of
             (True, Some stream) \<Rightarrow>
               (case do_call (stream breq) s1 of
                  (s2, chunks, resp, err) \<Rightarrow>
                    (case finishStream (ir_ResponseFormat req = '''') srv1 req breq (clock s1) (clock s2) chunks resp err of
                       (srv2, fin) \<Rightarrow> (srv2, s2, Sse (map chunkEv chunks @ fin))))
           | _ \<Rightarrow> (case handleInferBlocking srv1 s1 req breq sel wait of (srv2, s2, resp) \<Rightarrow> (srv2, s2, Http resp))))"

section \<open>Properties\<close>

lemma executeToolCall_answers:
  assumes "executeToolCall env s call = (s', m, sm)"
  shows "Role m = ''tool'' \<and> ToolCallID m = tc_ID call \<and> ts_Name sm = tc_Name call \<and> ts_Arguments sm = tc_Arguments call"
  using assms
  by (auto simp: executeToolCall_def toolMessage_def Let_def split: if_splits option.splits prod.splits sum.splits)

lemma resolveCalls_answers:
  assumes "resolveCalls env s calls = (s', msgs, sumr)"
  shows "map ToolCallID msgs = map tc_ID calls \<and> list_all (\<lambda>m. Role m = ''tool'') msgs \<and> map ts_Name sumr = map tc_Name calls"
  using assms
proof (induction calls arbitrary: s s' msgs sumr)
  case (Cons call calls)
  obtain s1 m sm where 1: "executeToolCall env s call = (s1, m, sm)" by (metis prod_cases3)
  obtain s2 ms sms where 2: "resolveCalls env s1 calls = (s2, ms, sms)" by (metis prod_cases3)
  from Cons.prems 1 2 have "msgs = m # ms" "sumr = sm # sms" by auto
  with Cons.IH [OF 2] executeToolCall_answers [OF 1] show ?case by simp
qed simp

text \<open>
  C18. The tool loop makes at most one grounding round trip. If the first answer asks for no tool it
  is returned as it is. Otherwise every requested call is answered by exactly one tool message with
  the call's id, in order, whether the tool exists and the search works or not; the backend is asked
  once more with the conversation extended by exactly those messages and with no tools on offer, and
  its answer is the result.
\<close>

theorem tool_loop_single_hop:
  assumes "runWithTools env b s req = (s', sumr, r)" and "do_call (sbInfer b req) s = (s1, Ok resp)"
  shows "if RespToolCalls resp = [] then r = Ok resp \<and> sumr = [] \<and> s' = s1
    else \<exists>s2 msgs nreq. do_call (sbInfer b nreq) s2 = (s', r) \<and> Tools nreq = []
      \<and> Messages nreq = Messages req @ [\<lparr>Role = ''assistant'', Content = '''', ToolCalls = RespToolCalls resp,
           ToolCallID = '''', MsgName = ''''\<rparr>] @ msgs
      \<and> map ToolCallID msgs = map tc_ID (RespToolCalls resp) \<and> list_all (\<lambda>m. Role m = ''tool'') msgs
      \<and> map ts_Name sumr = map tc_Name (RespToolCalls resp)"
proof (cases "RespToolCalls resp = []")
  case True
  with assms show ?thesis by (simp add: runWithTools_def)
next
  case False
  obtain s2 msgs sumr' where R: "resolveCalls env s1 (RespToolCalls resp) = (s2, msgs, sumr')" by (metis prod_cases3)
  let ?n = "followUp req (RespToolCalls resp) msgs"
  obtain s3 f where F: "do_call (sbInfer b ?n) s2 = (s3, f)" by fastforce
  from assms False R F have "s' = s3" "r = f" "sumr = sumr'" by (simp_all add: runWithTools_def)
  with F resolveCalls_answers [OF R] have "do_call (sbInfer b ?n) s2 = (s', r)" "Tools ?n = []"
    "map ToolCallID msgs = map tc_ID (RespToolCalls resp)" "list_all (\<lambda>m. Role m = ''tool'') msgs"
    "map ts_Name sumr = map tc_Name (RespToolCalls resp)"
    by (simp_all add: followUp_def)
  moreover have "Messages ?n = Messages req @ [\<lparr>Role = ''assistant'', Content = '''', ToolCalls = RespToolCalls resp,
           ToolCallID = '''', MsgName = ''''\<rparr>] @ msgs" by (simp add: followUp_def)
  ultimately show ?thesis using False by (auto intro!: exI [of _ s2] exI [of _ msgs])
qed

definition exampleToolBackend :: "int srvBackend" where
  "exampleToolBackend = \<lparr>sbInfer = (\<lambda>req w. (w, 7, Ok (if Tools req = [] then zeroResponse\<lparr>Output := ''final''\<rparr>
       else zeroResponse\<lparr>RespToolCalls := [\<lparr>tc_ID = ''t1'', tc_Name = ''web_search'', tc_Arguments = ''{}''\<rparr>]\<rparr>))),
     sbStream = Some (\<lambda>req w. (w, 7, [(ChunkReasoning, ''hm''), (ChunkContent, ''hi'')], zeroResponse\<lparr>ModelTier := ''mid''\<rparr>, None))\<rparr>"

definition exampleToolEnv :: "int toolEnv" where
  "exampleToolEnv = \<lparr>queryOf = (\<lambda>a. a), msgOf = (\<lambda>e. ''m''), jsonString = (\<lambda>x. x), toolSearcher = None\<rparr>"

definition exampleToolReq :: Request where
  "exampleToolReq = TranslateInferRequest (\<lambda>_. None) exampleInfer ''r1''"

theorem tool_loop_single_hop_witness:
  "snd (snd (runWithTools exampleToolEnv exampleToolBackend \<lparr>clock = 0, ext = 0\<rparr> exampleToolReq)) = Ok (zeroResponse\<lparr>Output := ''final''\<rparr>)"
proof -
  let ?R = "runWithTools exampleToolEnv exampleToolBackend \<lparr>clock = 0, ext = 0\<rparr> exampleToolReq"
  let ?first = "zeroResponse\<lparr>RespToolCalls := [\<lparr>tc_ID = ''t1'', tc_Name = ''web_search'', tc_Arguments = ''{}''\<rparr>]\<rparr>"
  have t: "Tools exampleToolReq \<noteq> []" by (simp add: exampleToolReq_def translate_defs exampleInfer_def)
  have d: "do_call (sbInfer exampleToolBackend exampleToolReq) \<lparr>clock = 0, ext = 0\<rparr> = (\<lparr>clock = 7, ext = 0\<rparr>, Ok ?first)"
    using t by (simp add: exampleToolBackend_def do_call_def)
  obtain s' sumr r where R: "?R = (s', sumr, r)" by (metis prod_cases3)
  from tool_loop_single_hop [OF R d] obtain s2 nreq where
    "do_call (sbInfer exampleToolBackend nreq) s2 = (s', r)" "Tools nreq = []" by auto
  then have "r = Ok (zeroResponse\<lparr>Output := ''final''\<rparr>)" by (auto simp: exampleToolBackend_def do_call_def)
  then show ?thesis by (simp add: R)
qed

definition isEnd :: "sse \<Rightarrow> bool" where
  "isEnd e = (case e of DoneEv _ \<Rightarrow> True | Sentinel \<Rightarrow> True | _ \<Rightarrow> False)"

definition isDelta :: "sse \<Rightarrow> bool" where
  "isDelta e = (case e of DeltaEv _ \<Rightarrow> True | _ \<Rightarrow> False)"

lemma chunkEv_kind [simp]: "\<not> isEnd (chunkEv c)" "isDelta (chunkEv c) \<longleftrightarrow> fst c = ChunkContent"
  by (cases c; cases "fst c"; simp add: chunkEv_def isEnd_def isDelta_def)+

text \<open>A well-ended stream: events, then one done event and the sentinel, with a history entry that
  says done exactly when the done event carries no error.\<close>

definition streamEnds :: "'w Server \<Rightarrow> 'w Server \<Rightarrow> sse list \<Rightarrow> bool" where
  "streamEnds srv srv' evs = (\<exists>body d e. evs = body @ [DoneEv d, Sentinel] \<and> (\<forall>x\<in>set body. \<not> isEnd x)
     \<and> srv' = recordJob e srv \<and> \<not> (sd_Error d \<noteq> '''' \<and> sd_Truncated d)
     \<and> (if sd_Error d = '''' then je_Status e = JobStatusDone \<and> (\<exists>x\<in>set body. isDelta x)
        else je_Status e = JobStatusFailed))"

lemma finishStream_ends:
  assumes "finishStream sv srv req breq t0 t1 chunks resp err = (srv', fin)"
    and "\<forall>e. err = Some e \<longrightarrow> errCodeOf e \<noteq> ''''"
    and "\<forall>x\<in>set body. \<not> isEnd x" and "list_ex (\<lambda>c. fst c = ChunkContent) chunks \<longrightarrow> (\<exists>x\<in>set body. isDelta x)"
  shows "streamEnds srv srv' (body @ fin)"
proof -
  let ?c = "list_ex (\<lambda>c. fst c = ChunkContent) chunks"
  have mk: "streamEnds srv srv' (body @ fin)"
    if "fin = writeDone d" "srv' = recordJob e srv" "\<not> (sd_Error d \<noteq> '''' \<and> sd_Truncated d)"
      "if sd_Error d = '''' then je_Status e = JobStatusDone \<and> ?c else je_Status e = JobStatusFailed" for d e
    using that assms(3,4) unfolding streamEnds_def writeDone_def
    by (intro exI [of _ body] exI [of _ d] exI [of _ e]) auto
  show ?thesis
  proof (cases err)
    case (Some e)
    show ?thesis
    proof (cases "?c \<and> sv")
      case True
      with assms(1) Some show ?thesis
        by (intro mk) (auto simp: finishStream_def Let_def zeroDone_def jobEntry_def)
    next
      case False
      with assms(1,2) Some show ?thesis
        by (intro mk) (auto simp: finishStream_def Let_def zeroDone_def jobEntry_def)
    qed
  next
    case None
    show ?thesis
    proof (cases ?c)
      case True
      with assms(1) None show ?thesis
        by (intro mk) (auto simp: finishStream_def Let_def zeroDone_def jobEntry_def)
    next
      case False
      define code where "code = (if list_ex (\<lambda>c. fst c = ChunkReasoning) chunks then ''reasoning_exhausted'' else ''internal_error'')"
      then have "code \<noteq> ''''" by simp
      moreover have "fin = writeDone (zeroDone\<lparr>sd_Error := code\<rparr>)"
        "srv' = recordJob (jobEntry req breq JobStatusFailed (ModelTier resp) 0 t0 t0 t1) srv"
        using assms(1) None False unfolding finishStream_def Let_def code_def by auto
      ultimately show ?thesis by (intro mk) (auto simp: zeroDone_def jobEntry_def)
    qed
  qed
qed

text \<open>A streaming backend whose errors carry a code, as every error of the backends here does.\<close>

definition codedStream :: "(Request \<Rightarrow> ('w, chunk list \<times> Response \<times> go_error option) call) \<Rightarrow> bool" where
  "codedStream stream = (\<forall>req w. case snd (snd (snd (snd (stream req w)))) of None \<Rightarrow> True | Some e \<Rightarrow> errCodeOf e \<noteq> '''')"

lemma codedStream_call:
  "codedStream stream \<Longrightarrow> do_call (stream req) s = (s', chunks, resp, Some e) \<Longrightarrow> errCodeOf e \<noteq> ''''"
  unfolding codedStream_def do_call_def
  by (auto split: prod.splits option.splits dest!: spec [of _ req] spec [of _ "ext s"])

lemma runWithToolsStream_events:
  assumes "runWithToolsStream env stream s req = (s', evs, chunks, resp, err)" and "codedStream stream"
  shows "(\<forall>x\<in>set evs. \<not> isEnd x) \<and> (list_ex (\<lambda>c. fst c = ChunkContent) chunks \<longrightarrow> (\<exists>x\<in>set evs. isDelta x))
    \<and> (\<forall>e. err = Some e \<longrightarrow> errCodeOf e \<noteq> '''')"
proof -
  obtain s1 c1 r1 e1 where 1: "do_call (stream req) s = (s1, c1, r1, e1)" by (metis prod_cases4)
  obtain s2 msgs sumr where R: "resolveCalls env s1 (RespToolCalls r1) = (s2, msgs, sumr)" by (metis prod_cases3)
  obtain s3 c2 r2 e2 where 2: "do_call (stream (followUp req (RespToolCalls r1) msgs)) s2 = (s3, c2, r2, e2)" by (metis prod_cases4)
  have tool: "\<not> isEnd (ToolEv x)" for x by (simp add: isEnd_def)
  have ev: "(\<forall>x\<in>set (map chunkEv cs). \<not> isEnd x)"
    "list_ex (\<lambda>c. fst c = ChunkContent) cs \<longrightarrow> (\<exists>x\<in>set (map chunkEv cs). isDelta x)" for cs
    by (auto simp: list_ex_iff)
  consider (err) e where "e1 = Some e" | (plain) "e1 = None" "RespToolCalls r1 = []" | (tools) "e1 = None" "RespToolCalls r1 \<noteq> []"
    by (cases e1) auto
  then show ?thesis
  proof cases
    case err
    with assms(1) 1 have "evs = map chunkEv c1" "chunks = c1" "err = Some e" by (auto simp: runWithToolsStream_def)
    with codedStream_call [OF assms(2)] 1 err ev [of c1] show ?thesis by simp
  next
    case plain
    with assms(1) 1 have "evs = map chunkEv c1" "chunks = c1" "err = None" by (auto simp: runWithToolsStream_def)
    with ev [of c1] show ?thesis by simp
  next
    case tools
    with assms(1) 1 R 2 have "evs = map chunkEv c1 @ map ToolEv sumr @ map chunkEv c2" "chunks = c1 @ c2" "err = e2"
      by (auto simp: runWithToolsStream_def)
    moreover have "\<forall>e. e2 = Some e \<longrightarrow> errCodeOf e \<noteq> ''''" using codedStream_call [OF assms(2)] 2 by blast
    moreover have "\<forall>x\<in>set (map ToolEv sumr). \<not> isEnd x" using tool by simp
    ultimately show ?thesis using ev [of c1] ev [of c2]
      by (simp only: set_append ball_Un bex_Un list_ex_append) blast
  qed
qed

lemma handleInferStream_ends:
  assumes "handleInferStream env backends canFlush srv s req breq sel wait = (srv', s', Sse evs)"
    and "\<forall>b stream. backends (ir_Modality req) = Some b \<and> sbStream b = Some stream \<longrightarrow> codedStream stream"
  shows "streamEnds srv srv' evs"
proof -
  obtain srv1 s1 r where D: "deferToRelay srv s req = (srv1, s1, r)" by (metis prod_cases3)
  have r: "r = None" using assms(1) D
    by (cases r) (auto simp: handleInferStream_def handleInferStreamWithTools_def split: if_splits)
  with D have srv1: "srv1 = srv" by (simp add: deferToRelay_local)
  obtain stream where F: canFlush "Option.bind (backends (ir_Modality req)) sbStream = Some stream"
    using assms(1) D r
    by (cases canFlush; cases "Option.bind (backends (ir_Modality req)) sbStream")
       (auto simp: handleInferStream_def handleInferStreamWithTools_def case_prod_beta split: if_splits)
  have coded: "codedStream stream" using assms(2) F(2) by (auto simp: bind_eq_Some_conv)
  show ?thesis
  proof (cases "ir_Tools req = []")
    case True
    obtain s2 c rp e where 1: "do_call (stream breq) s1 = (s2, c, rp, e)" by (metis prod_cases4)
    obtain srv2 fin where 2: "finishStream (ir_ResponseFormat req = '''') srv req breq (clock s1) (clock s2) c rp e = (srv2, fin)"
      by fastforce
    from assms(1) D r F True 1 2 srv1 have "srv' = srv2" "evs = map chunkEv c @ fin" by (auto simp: handleInferStream_def)
    moreover have "\<forall>x. e = Some x \<longrightarrow> errCodeOf x \<noteq> ''''" using codedStream_call [OF coded, of breq s1] 1 by auto
    ultimately show ?thesis using finishStream_ends [OF 2, of "map chunkEv c"] by (auto simp: list_ex_iff)
  next
    case False
    obtain s2 ev c rp e where 1: "runWithToolsStream env stream s1 breq = (s2, ev, c, rp, e)" by (metis prod_cases5)
    obtain srv2 fin where 2: "finishStream False srv req breq (clock s1) (clock s2) c rp e = (srv2, fin)" by fastforce
    from assms(1) D r F False 1 2 srv1 have "srv' = srv2" "evs = ev @ fin"
      by (auto simp: handleInferStream_def handleInferStreamWithTools_def)
    with finishStream_ends [OF 2, of ev] runWithToolsStream_events [OF 1 coded] show ?thesis by auto
  qed
qed

text \<open>
  Every event stream is well formed, with or without tools: any number of delta, reasoning and
  tool events, then exactly one done event followed by the sentinel. Error and truncation are never
  reported together. A done event without an error means the client received visible answer text and
  the job is in the history as done; with an error the history says failed.
\<close>

lemma stream_protocol:
  assumes "handleInferStream env backends canFlush srv s req breq sel wait = (srv', s', Sse evs)"
    and "\<forall>b stream. backends (ir_Modality req) = Some b \<and> sbStream b = Some stream \<longrightarrow> codedStream stream"
  shows "streamEnds srv srv' evs"
  using assms by (rule handleInferStream_ends)

lemma stream_protocol_witness:
  "\<exists>evs srv' s'. handleInferStream exampleToolEnv [''text'' \<mapsto> exampleToolBackend] True exampleBusyServer \<lparr>clock = 0, ext = 0\<rparr>
      (exampleInfer\<lparr>ir_Tools := []\<rparr>) exampleToolReq ChanReady (ContextEnded 0 False) = (srv', s', Sse evs)
    \<and> streamEnds exampleBusyServer srv' evs"
proof -
  let ?H = "handleInferStream exampleToolEnv [''text'' \<mapsto> exampleToolBackend] True exampleBusyServer \<lparr>clock = 0, ext = 0\<rparr>
      (exampleInfer\<lparr>ir_Tools := []\<rparr>) exampleToolReq ChanReady (ContextEnded 0 False)"
  have "\<exists>evs srv' s'. ?H = (srv', s', Sse evs)"
    by (simp add: handleInferStream_def deferToRelay_def shouldDefer_def exampleBusyServer_def New_Server_def
        exampleInfer_def exampleToolBackend_def do_call_def case_prod_beta)
  then obtain evs srv' s' where H: "?H = (srv', s', Sse evs)" by blast
  have "codedStream (the (sbStream exampleToolBackend))" by (simp add: codedStream_def exampleToolBackend_def)
  then have "streamEnds exampleBusyServer srv' evs"
    by (intro stream_protocol [OF H]) (auto simp: exampleInfer_def)
  with H show ?thesis by blast
qed

text \<open>With tools on offer, content that was already streamed is not kept when the backend fails
  afterwards: the stream ends with an error, where the plain stream would end as truncated.\<close>

lemma tools_stream_never_salvages:
  assumes "finishStream False srv req breq t0 t1 chunks resp (Some e) = (srv', fin)"
  shows "fin = [DoneEv (zeroDone\<lparr>sd_Error := errCodeOf e\<rparr>), Sentinel]"
  using assms by (auto simp: finishStream_def Let_def writeDone_def)

end
