(* ===== verification/Server_Http.thy ===== *)
theory Server_Http
  imports Server_Stream
begin

text \<open>
  The HTTP surface of the server: \<open>handleInfer\<close> and the router of \<open>src/internal/server/server.go\<close>, the
  admin endpoints (\<open>admin.go\<close>), the chat, tokenizer and description endpoints (\<open>server_chats.go\<close>,
  \<open>server_describe.go\<close>), status and logs, and the middleware (\<open>middleware.go\<close>). The peer address of a
  request is the parsed IP, \<open>None\<close> when it does not parse.
\<close>

section \<open>Middleware\<close>

datatype ip = IPv4 nat nat nat nat | IPv6 "nat list"

text \<open>\<open>IsLoopback\<close>: 127.0.0.0/8, its IPv4-mapped form, or ::1 (sixteen-bit groups).\<close>

fun isLoopbackIP :: "ip \<Rightarrow> bool" where
  "isLoopbackIP (IPv4 a b c d) = (a = 127)"
| "isLoopbackIP (IPv6 gs) =
     (gs = [0, 0, 0, 0, 0, 0, 0, 1]
      \<or> (length gs = 8 \<and> take 6 gs = [0, 0, 0, 0, 0, 0xFFFF] \<and> (gs ! 6) div 256 = 127))"

definition IsLoopback :: "ip option \<Rightarrow> bool" where
  "IsLoopback remote = (case remote of None \<Rightarrow> False | Some a \<Rightarrow> isLoopbackIP a)"

record httpRequest =
  hq_method :: string
  hq_path :: string
  hq_remote :: "ip option"
  hq_apiKey :: string
  hq_origin :: string

definition APIKeyAuth :: "string \<Rightarrow> (httpRequest \<Rightarrow> 'r) \<Rightarrow> (httpResponse \<Rightarrow> 'r) \<Rightarrow> httpRequest \<Rightarrow> 'r" where
  "APIKeyAuth key next reject r =
     (if key = '''' then next r
      else if \<not> has_prefix (hq_path r) ''/v1/'' \<or> IsLoopback (hq_remote r) then next r
      else if hq_apiKey r = key then next r
      else reject (writeError 401 ''unauthorized'' ''''))"

text \<open>The origin the CORS middleware allows (\<open>None\<close>: no headers), and whether it answers itself.\<close>

definition corsOrigin :: "string list \<Rightarrow> httpRequest \<Rightarrow> string option" where
  "corsOrigin allowOrigins r =
     (let os = map trim_space allowOrigins;
          allowAll = list_ex (\<lambda>o'. o' = ''*'') os
      in if hq_origin r \<noteq> '''' \<and> (allowAll \<or> hq_origin r \<in> set (filter (\<lambda>o'. o' \<noteq> '''' \<and> o' \<noteq> ''*'') os))
         then Some (hq_origin r) else None)"

definition CORS :: "string list \<Rightarrow> (httpRequest \<Rightarrow> 'r) \<Rightarrow> (httpResponse \<Rightarrow> 'r) \<Rightarrow> httpRequest \<Rightarrow> string option \<times> 'r" where
  "CORS allowOrigins next answer r =
     (if allowOrigins = [] then (None, next r)
      else (corsOrigin allowOrigins r,
            if hq_method r = ''OPTIONS'' then answer (respond 204 EmptyBody) else next r))"

section \<open>Admin\<close>

definition state :: "'w Server \<Rightarrow> string" where
  "state srv = (if draining srv then ''draining'' else ''ok'')"

definition setDraining :: "bool \<Rightarrow> 'w Server \<Rightarrow> 'w Server" where
  "setDraining v srv =
     (if draining srv = v then srv
      else srv\<lparr>draining := v, pauseSink := map_option (\<lambda>_. v) (pauseSink srv)\<rparr>)"

text \<open>\<open>snap\<close> is the in-flight count and queue depth reported by the status function.\<close>

definition adminStateResponse :: "int \<times> int \<Rightarrow> string \<Rightarrow> httpResponse" where
  "adminStateResponse snap st = respond 200 (AdminBody st (fst snap) (snd snap))"

definition signalRestart :: "unit chan \<Rightarrow> unit chan" where
  "signalRestart ch = (case chan_send ch () of Some ch' \<Rightarrow> ch' | None \<Rightarrow> ch)"

definition handleAdmin :: "int \<times> int \<Rightarrow> httpRequest \<Rightarrow> 'w Server \<Rightarrow> 'w Server \<times> httpResponse" where
  "handleAdmin snap r srv =
     (if \<not> IsLoopback (hq_remote r) then (srv, writeError 404 ''invalid_request'' '''')
      else if hq_method r = ''GET'' \<and> hq_path r = ''/v1/admin'' then (srv, adminStateResponse snap (state srv))
      else if hq_method r = ''POST'' \<and> hq_path r = ''/v1/admin/drain'' then
        (setDraining True srv, adminStateResponse snap ''draining'')
      else if hq_method r = ''POST'' \<and> hq_path r = ''/v1/admin/resume'' then
        (setDraining False srv, adminStateResponse snap ''ok'')
      else if hq_method r = ''POST'' \<and> hq_path r = ''/v1/admin/restart'' then
        (case restartCh srv of
           None \<Rightarrow> (srv, writeError 501 ''not_implemented'' '''')
         | Some ch \<Rightarrow> ((setDraining True srv)\<lparr>restartCh := Some (signalRestart ch)\<rparr>, adminStateResponse snap ''restarting''))
      else if hq_path r \<in> {''/v1/admin'', ''/v1/admin/drain'', ''/v1/admin/resume'', ''/v1/admin/restart''} then
        (srv, (writeError 405 ''invalid_request'' '''')\<lparr>hr_allow := (if hq_path r = ''/v1/admin'' then ''GET'' else ''POST'')\<rparr>)
      else (srv, writeError 404 ''invalid_request'' ''''))"

section \<open>Inference\<close>

text \<open>The scheduler's and the library's share of a call: the fresh ids, the decoder, the streaming
  capability of the connection, and what the blocking path waits for.\<close>

record 'w inferEnv =
  ie_tools :: "'w toolEnv"
  ie_backends :: "string \<rightharpoonup> 'w srvBackend"
  ie_decode64 :: "string \<Rightarrow> nat list option"
  ie_uuid1 :: string
  ie_uuid2 :: string
  ie_canFlush :: bool
  ie_select :: selectCase
  ie_wait :: waitOutcome

text \<open>The deadline of a request in nanoseconds: \<open>time.Duration(req.TimeoutMS) * time.Millisecond\<close> wraps at
  64 bits, and a product that is not positive falls back to the server's timeout.\<close>

definition inferDeadline :: "'w Server \<Rightarrow> InferRequest \<Rightarrow> int" where
  "inferDeadline srv req =
     (let d = signed_take_bit 63 (ir_TimeoutMS req * 1000000) in if d \<le> 0 then inferTO srv * 1000000 else d)"

lemma inferDeadline_positive: "0 < inferTO srv \<Longrightarrow> 0 < inferDeadline srv req"
  by (simp add: inferDeadline_def Let_def)

lemma inferDeadline_honours_timeout:
  assumes "0 < ir_TimeoutMS req" and "ir_TimeoutMS req \<le> 9223372036854"
  shows "inferDeadline srv req = ir_TimeoutMS req * 1000000"
proof -
  have "signed_take_bit 63 (ir_TimeoutMS req * 1000000) = ir_TimeoutMS req * 1000000"
    by (rule signed_take_bit_int_eq_self) (use assms in simp_all)
  with assms show ?thesis by (simp add: inferDeadline_def)
qed

definition handleInfer :: "'w inferEnv \<Rightarrow> 'w Server \<Rightarrow> 'w sys \<Rightarrow> InferRequest option \<Rightarrow> 'w Server \<times> 'w sys \<times> reply" where
  "handleInfer env srv s body =
     (if draining srv then (srv, s, Http (writeError 503 ''draining'' ''''))
      else case body of
        None \<Rightarrow> (srv, s, Http (writeError 400 ''invalid_request'' ''''))
      | Some req0 \<Rightarrow>
          let req = (if ir_CorrelationID req0 = '''' then req0\<lparr>ir_CorrelationID := ''req-'' @ ie_uuid1 env\<rparr> else req0) in
          (case validateInfer req of
             Some (st, code) \<Rightarrow> (srv, s, Http (writeError st code (ir_CorrelationID req)))
           | None \<Rightarrow>
               let breq = TranslateInferRequest (ie_decode64 env) req (ie_uuid2 env) in
               if ir_Stream req then
                 handleInferStream (ie_tools env) (ie_backends env) (ie_canFlush env) srv s req breq (ie_select env) (ie_wait env)
               else if ir_Tools req \<noteq> [] then
                 (case handleInferWithTools (ie_tools env) (ie_backends env) srv s req breq of (srv1, s1, r) \<Rightarrow> (srv1, s1, Http r))
               else
                 (case handleInferBlocking srv s req breq (ie_select env) (ie_wait env) of (srv1, s1, r) \<Rightarrow> (srv1, s1, Http r))))"

section \<open>Chats, tokenizer, description\<close>

definition handleChatsCollection :: "io \<Rightarrow> time \<Rightarrow> string \<Rightarrow> Store option \<Rightarrow> httpRequest \<Rightarrow> (string \<times> ChatMessage list) option \<Rightarrow> Store option \<times> httpResponse" where
  "handleChatsCollection os now newID store r body =
     (case store of
        None \<Rightarrow> (None, writeError 404 ''invalid_request'' '''')
      | Some st \<Rightarrow>
          if hq_method r = ''GET'' then (store, respond 200 (MetaListBody (List_chats st)))
          else if hq_method r = ''POST'' then
            (case body of
               None \<Rightarrow> (store, writeError 400 ''invalid_request'' '''')
             | Some (title, msgs) \<Rightarrow>
                 (case Save os now st \<lparr>conv_ID = newID, conv_Title = title, conv_CreatedAt = 0, conv_UpdatedAt = 0, conv_Messages = msgs\<rparr> of
                    (st1, Inl e) \<Rightarrow> (Some st1, writeError 500 ''internal_error'' '''')
                  | (st1, Inr m) \<Rightarrow> (Some st1, respond 200 (MetaBody m))))
          else (store, writeError 405 ''invalid_request'' ''''))"

definition handleChatItem :: "io \<Rightarrow> time \<Rightarrow> Store option \<Rightarrow> httpRequest \<Rightarrow> string \<Rightarrow> (string \<times> ChatMessage list) option \<Rightarrow> Store option \<times> httpResponse" where
  "handleChatItem os now store r i body =
     (case store of
        None \<Rightarrow> (None, writeError 404 ''invalid_request'' '''')
      | Some st \<Rightarrow>
          if i = '''' \<or> CHR ''/'' \<in> set i then (store, writeError 400 ''invalid_request'' '''')
          else if hq_method r = ''GET'' then
            (case Get st i of
               None \<Rightarrow> (store, writeError 404 ''invalid_request'' '''')
             | Some c \<Rightarrow> (store, respond 200 (ConversationBody c)))
          else if hq_method r = ''PUT'' then
            (case body of
               None \<Rightarrow> (store, writeError 400 ''invalid_request'' '''')
             | Some (title, msgs) \<Rightarrow>
                 (case Save os now st \<lparr>conv_ID = i, conv_Title = title, conv_CreatedAt = 0, conv_UpdatedAt = 0, conv_Messages = msgs\<rparr> of
                    (st1, Inl e) \<Rightarrow> (Some st1, writeError 500 ''internal_error'' '''')
                  | (st1, Inr m) \<Rightarrow> (Some st1, respond 200 (MetaBody m))))
          else if hq_method r = ''DELETE'' then
            (case Delete os st i of
               (st1, Some e) \<Rightarrow> (Some st1, writeError 500 ''internal_error'' '''')
             | (st1, None) \<Rightarrow> (Some st1, respond 204 EmptyBody))
          else (store, writeError 405 ''invalid_request'' ''''))"

definition defaultNCtx :: int where "defaultNCtx = 4096"

text \<open>\<open>strings.Fields\<close>: the number of maximal runs of non-space characters.\<close>

function countFields :: "string \<Rightarrow> nat" where
  "countFields s =
     (let t = dropWhile is_space s
      in if t = [] then 0 else Suc (countFields (dropWhile (\<lambda>c. \<not> is_space c) t)))"
  by pat_completeness auto
termination
proof (relation "measure length")
  fix s t :: string
  assume t: "t = dropWhile is_space s" and ne: "t \<noteq> []"
  then have "\<not> is_space (hd t)" using hd_dropWhile by blast
  with ne have "length (dropWhile (\<lambda>c. \<not> is_space c) t) < length t"
    by (cases t) (auto simp: le_imp_less_Suc length_dropWhile_le)
  also have "length t \<le> length s" by (simp add: t length_dropWhile_le)
  finally show "(dropWhile (\<lambda>c. \<not> is_space c) t, s) \<in> measure length" by simp
qed simp

record 'w tokenizer =
  tzTokenize :: "string \<Rightarrow> ('w, int res) call"
  tzNCtx :: "('w, int res) call"

definition handleTokenize :: "'w tokenizer option \<Rightarrow> 'w sys \<Rightarrow> string option \<Rightarrow> 'w sys \<times> httpResponse" where
  "handleTokenize tz s body =
     (case tz of
        None \<Rightarrow> (s, writeError 501 ''unavailable'' '''')
      | Some t \<Rightarrow>
          (case body of
             None \<Rightarrow> (s, writeError 400 ''invalid_request'' '''')
           | Some txt' \<Rightarrow>
               (case do_call (tzTokenize t txt') s of
                  (s1, Inl _) \<Rightarrow> (s1, respond 200 (TokenizeBody (int (countFields txt')) defaultNCtx False))
                | (s1, Inr n) \<Rightarrow>
                    (case do_call (tzNCtx t) s1 of
                       (s2, Inl _) \<Rightarrow> (s2, respond 200 (TokenizeBody n defaultNCtx True))
                     | (s2, Inr nctx) \<Rightarrow> (s2, respond 200 (TokenizeBody n nctx True))))))"

definition handleModelProps :: "'w tokenizer option \<Rightarrow> 'w sys \<Rightarrow> 'w sys \<times> httpResponse" where
  "handleModelProps tz s =
     (case tz of
        None \<Rightarrow> (s, writeError 501 ''unavailable'' '''')
      | Some t \<Rightarrow> (case do_call (tzNCtx t) s of
                     (s1, Inl _) \<Rightarrow> (s1, respond 200 (PropsBody defaultNCtx False))
                   | (s1, Inr nctx) \<Rightarrow> (s1, respond 200 (PropsBody nctx True))))"

definition handleDescribe :: "(nat list \<Rightarrow> ('w, (string \<times> string) res) call) option \<Rightarrow> (string \<Rightarrow> nat list option) \<Rightarrow> string \<Rightarrow>
    'w Server \<Rightarrow> 'w sys \<Rightarrow> string option \<Rightarrow> 'w Server \<times> 'w sys \<times> httpResponse" where
  "handleDescribe describer decode64 uuid srv s body =
     (case describer of
        None \<Rightarrow> (srv, s, writeError 501 ''unavailable'' '''')
      | Some describe \<Rightarrow>
          if draining srv then (srv, s, writeError 503 ''draining'' '''')
          else (case body of
            None \<Rightarrow> (srv, s, writeError 400 ''invalid_request'' '''')
          | Some b64 \<Rightarrow>
              if b64 = '''' then (srv, s, writeError 400 ''invalid_request'' '''')
              else (case decode64 b64 of
                None \<Rightarrow> (srv, s, writeError 400 ''invalid_request'' '''')
              | Some img \<Rightarrow>
                  let cid = ''req-'' @ uuid;
                      entry = (\<lambda>st tier t1. zeroEntry\<lparr>je_RequestID := uuid, je_CorrelationID := cid, je_Status := st,
                        je_Modality := ''vision'', je_ModelTier := tier, je_EnqueuedAt := Some (clock s),
                        je_StartedAt := Some (clock s), je_FinishedAt := Some t1, je_DurationMS := t1 - clock s,
                        je_InferenceMS := t1 - clock s\<rparr>)
                  in (case do_call (describe img) s of
                        (s1, Inl e) \<Rightarrow> (recordJob (entry JobStatusFailed '''' (clock s1)) srv, s1,
                                       writeError (backendErrToHTTPStatus (errCodeOf e)) (errCodeOf e) cid)
                      | (s1, Inr (d, tier)) \<Rightarrow> (recordJob (entry JobStatusDone tier (clock s1)) srv, s1,
                                       respond 200 (DescribeBody d tier))))))"

section \<open>Status, pressure, logs\<close>

definition otherVRAMMB :: "'w Server \<Rightarrow> 'w sys \<Rightarrow> int \<Rightarrow> int \<Rightarrow> 'w sys \<times> int" where
  "otherVRAMMB srv s availMB selfMB =
     (case vramTotal srv of
        None \<Rightarrow> (s, 0)
      | Some f \<Rightarrow>
          if availMB < 0 then (s, 0)
          else (case do_call f s of
                  (s1, Inl _) \<Rightarrow> (s1, 0)
                | (s1, Inr tot) \<Rightarrow> (s1, if tot < 0 then 0 else let other = tot - availMB - selfMB in if other < 0 then 0 else other)))"

text \<open>What the pressure source reports; zero values when it is not wired.\<close>

record pressure =
  pr_tokPerSec :: rat
  pr_tier :: string
  pr_selfMB :: int
  pr_inFlight :: int
  pr_maxParallel :: int

definition zeroPressure :: pressure where
  "zeroPressure = \<lparr>pr_tokPerSec = 0, pr_tier = '''', pr_selfMB = 0, pr_inFlight = 0, pr_maxParallel = 0\<rparr>"

definition handlePressure :: "pressure option \<Rightarrow> int \<Rightarrow> 'w Server \<Rightarrow> 'w sys \<Rightarrow> 'w sys \<times> httpResponse" where
  "handlePressure ps availMB srv s =
     (let p = (case ps of None \<Rightarrow> zeroPressure | Some p \<Rightarrow> p);
          pct = (case cpu srv of None \<Rightarrow> 0 | Some f \<Rightarrow> f (ext s));
          (s1, other) = otherVRAMMB srv s availMB (pr_selfMB p)
      in (s1, respond 200 (PressureBody availMB (pr_selfMB p) other pct (pr_tokPerSec p) (pr_tier p) (pr_inFlight p) (pr_maxParallel p))))"

definition handleStatus :: "pressure option \<Rightarrow> 'w Server \<Rightarrow> 'w sys \<Rightarrow> httpResponse" where
  "handleStatus ps srv s =
     (let p = (case ps of None \<Rightarrow> zeroPressure | Some p \<Rightarrow> p);
          pct = (case cpu srv of None \<Rightarrow> 0 | Some f \<Rightarrow> f (ext s))
      in respond 200 (StatusBody (history srv) (length (filter je_Deferred (history srv))) (state srv) pct (pr_tokPerSec p) (pr_selfMB p)))"

definition RecentJobs :: "'w Server \<Rightarrow> JobEntry list" where "RecentJobs srv = history srv"

definition handleHealth :: "'w Server \<Rightarrow> 'w sys \<Rightarrow> httpResponse" where
  "handleHealth srv s = respond 200 (HealthBody (state srv) ((clock s - startedAt srv) div 1000))"

text \<open>The query parameters of \<open>/v1/logs\<close>, numbers already parsed (\<open>None\<close>: absent or malformed).\<close>

definition dayMS :: int where "dayMS = 86400000"

definition logSince :: "int option \<Rightarrow> int" where
  "logSince raw = (let since = (case raw of Some d \<Rightarrow> if d > 0 then d else dayMS | None \<Rightarrow> dayMS)
                   in if since > dayMS then dayMS else since)"

definition logLimit :: "int option \<Rightarrow> int" where
  "logLimit raw = (let limit = (case raw of Some n \<Rightarrow> if n > 0 then n else 500 | None \<Rightarrow> 500)
                   in if limit > 2000 then 2000 else limit)"

text \<open>\<open>None\<close>: the handler panicked.\<close>

definition handleLogs :: "Buffer option \<Rightarrow> time \<Rightarrow> string \<Rightarrow> string \<Rightarrow> int option \<Rightarrow> int option \<Rightarrow> httpResponse option" where
  "handleLogs logs now level event since limit =
     (case logs of
        None \<Rightarrow> Some (writeError 501 ''unavailable'' '''')
      | Some b \<Rightarrow> map_option (\<lambda>rs. respond 200 (LogsBody rs)) (Query now b level event (logSince since) (logLimit limit)))"

section \<open>Routing\<close>

datatype route =
    RMethodNotAllowed string
  | RInfer | RStatus | RPressure | RHealth | RTokenize | RModelProps | RDescribe | RLogs
  | RChats | RChatItem string | RAdmin | RNotFound

definition methodGuarded :: "(string \<times> string) list" where
  "methodGuarded = [(''/v1/infer'', ''POST''), (''/v1/status'', ''GET''), (''/v1/status/pressure'', ''GET''),
     (''/healthz'', ''GET''), (''/v1/tokenize'', ''POST''), (''/v1/model/props'', ''GET''), (''/v1/logs'', ''GET''),
     (''/v1/describe'', ''POST'')]"

definition routeOf :: "httpRequest \<Rightarrow> route" where
  "routeOf r =
     (let m = hq_method r; p = hq_path r in
      case map_of methodGuarded p of
        Some want \<Rightarrow>
          if m \<noteq> want then RMethodNotAllowed want
          else if p = ''/v1/infer'' then RInfer
          else if p = ''/v1/status'' then RStatus
          else if p = ''/v1/status/pressure'' then RPressure
          else if p = ''/healthz'' then RHealth
          else if p = ''/v1/tokenize'' then RTokenize
          else if p = ''/v1/model/props'' then RModelProps
          else if p = ''/v1/describe'' then RDescribe
          else RLogs
      | None \<Rightarrow>
          if p = ''/v1/chats'' then RChats
          else if has_prefix p ''/v1/chats/'' then RChatItem (trim_prefix p ''/v1/chats/'')
          else if p = ''/v1/admin'' \<or> has_prefix p ''/v1/admin/'' then RAdmin
          else RNotFound)"

text \<open>The server with everything it is wired to, and the parsed parts of one request.\<close>

record 'w app =
  ap_srv :: "'w Server"
  ap_store :: "Store option"
  ap_sys :: "'w sys"

record 'w httpEnv =
  he_infer :: "'w inferEnv"
  he_inferBody :: "InferRequest option"
  he_chatBody :: "(string \<times> ChatMessage list) option"
  he_textBody :: "string option"
  he_io :: io
  he_newID :: string
  he_tokenizer :: "'w tokenizer option"
  he_describer :: "(nat list \<Rightarrow> ('w, (string \<times> string) res) call) option"
  he_logs :: "Buffer option"
  he_logQuery :: "string \<times> string \<times> int option \<times> int option"
  he_pressure :: "pressure option"
  he_availMB :: int
  he_snap :: "int \<times> int"

definition ServeHTTP :: "'w httpEnv \<Rightarrow> httpRequest \<Rightarrow> 'w app \<Rightarrow> 'w app \<times> reply" where
  "ServeHTTP env r a =
     (let srv = ap_srv a; s = ap_sys a in
      case routeOf r of
        RMethodNotAllowed want \<Rightarrow> (a, Http ((writeError 405 ''invalid_request'' '''')\<lparr>hr_allow := want\<rparr>))
      | RInfer \<Rightarrow> (case handleInfer (he_infer env) srv s (he_inferBody env) of (srv1, s1, rep) \<Rightarrow> (a\<lparr>ap_srv := srv1, ap_sys := s1\<rparr>, rep))
      | RStatus \<Rightarrow> (a, Http (handleStatus (he_pressure env) srv s))
      | RPressure \<Rightarrow> (case handlePressure (he_pressure env) (he_availMB env) srv s of (s1, rep) \<Rightarrow> (a\<lparr>ap_sys := s1\<rparr>, Http rep))
      | RHealth \<Rightarrow> (a, Http (handleHealth srv s))
      | RTokenize \<Rightarrow> (case handleTokenize (he_tokenizer env) s (he_textBody env) of (s1, rep) \<Rightarrow> (a\<lparr>ap_sys := s1\<rparr>, Http rep))
      | RModelProps \<Rightarrow> (case handleModelProps (he_tokenizer env) s of (s1, rep) \<Rightarrow> (a\<lparr>ap_sys := s1\<rparr>, Http rep))
      | RDescribe \<Rightarrow> (case handleDescribe (he_describer env) (ie_decode64 (he_infer env)) (he_newID env) srv s (he_textBody env) of
                       (srv1, s1, rep) \<Rightarrow> (a\<lparr>ap_srv := srv1, ap_sys := s1\<rparr>, Http rep))
      | RLogs \<Rightarrow> (case he_logQuery env of (level, event, since, limit) \<Rightarrow>
                   (case handleLogs (he_logs env) (clock s) level event since limit of
                      Some rep \<Rightarrow> (a, Http rep)
                    | None \<Rightarrow> (a, Http (respond 500 EmptyBody))))
      | RChats \<Rightarrow> (case handleChatsCollection (he_io env) (clock s) (he_newID env) (ap_store a) r (he_chatBody env) of
                    (st, rep) \<Rightarrow> (a\<lparr>ap_store := st\<rparr>, Http rep))
      | RChatItem i \<Rightarrow> (case handleChatItem (he_io env) (clock s) (ap_store a) r i (he_chatBody env) of
                    (st, rep) \<Rightarrow> (a\<lparr>ap_store := st\<rparr>, Http rep))
      | RAdmin \<Rightarrow> (case handleAdmin (he_snap env) r srv of (srv1, rep) \<Rightarrow> (a\<lparr>ap_srv := srv1\<rparr>, Http rep))
      | RNotFound \<Rightarrow> (a, Http (writeError 404 ''invalid_request'' '''')))"

section \<open>Properties\<close>

text \<open>What the inference and description paths never touch.\<close>

lemma recordJob_frame [simp]:
  "draining (recordJob e srv) = draining srv" "pauseSink (recordJob e srv) = pauseSink srv" "restartCh (recordJob e srv) = restartCh srv"
  by (simp_all add: recordJob_def Let_def)

lemma deferToRelay_frame:
  "deferToRelay srv s req = (srv', s', r) \<Longrightarrow> draining srv' = draining srv \<and> pauseSink srv' = pauseSink srv \<and> restartCh srv' = restartCh srv"
  by (drule deferToRelay_records) auto

lemma handleInferBlocking_frame:
  assumes "handleInferBlocking srv s req breq sel wait = (srv', s', resp)"
  shows "draining srv' = draining srv \<and> pauseSink srv' = pauseSink srv \<and> restartCh srv' = restartCh srv"
proof -
  obtain srv1 s1 r where D: "deferToRelay srv s req = (srv1, s1, r)" by (metis prod_cases3)
  from assms D deferToRelay_frame [OF D] show ?thesis
    by (auto simp: handleInferBlocking_def Let_def split: option.splits prod.splits waitOutcome.splits)
qed

lemma handleInferWithTools_frame:
  assumes "handleInferWithTools env bs srv s req breq = (srv', s', resp)"
  shows "draining srv' = draining srv \<and> pauseSink srv' = pauseSink srv \<and> restartCh srv' = restartCh srv"
proof -
  obtain srv1 s1 r where D: "deferToRelay srv s req = (srv1, s1, r)" by (metis prod_cases3)
  from assms D deferToRelay_frame [OF D] show ?thesis
    by (auto simp: handleInferWithTools_def Let_def split: option.splits prod.splits sum.splits)
qed

lemma finishStream_frame:
  "finishStream sv srv req breq t0 t1 c resp err = (srv', fin) \<Longrightarrow>
     draining srv' = draining srv \<and> pauseSink srv' = pauseSink srv \<and> restartCh srv' = restartCh srv"
  by (auto simp: finishStream_def Let_def split: option.splits if_splits)

lemma handleInferStream_frame:
  assumes "handleInferStream env bs cf srv s req breq sel wait = (srv', s', rep)"
  shows "draining srv' = draining srv \<and> pauseSink srv' = pauseSink srv \<and> restartCh srv' = restartCh srv"
proof -
  obtain srv1 s1 r where D: "deferToRelay srv s req = (srv1, s1, r)" by (metis prod_cases3)
  show ?thesis
  proof (cases r)
    case (Some resp)
    with assms D deferToRelay_frame [OF D] show ?thesis
      by (auto simp: handleInferStream_def handleInferStreamWithTools_def split: if_splits)
  next
    case None
    with assms D deferToRelay_frame [OF D] show ?thesis
      by (auto simp: handleInferStream_def handleInferStreamWithTools_def
          dest!: finishStream_frame handleInferBlocking_frame handleInferWithTools_frame
          split: if_splits option.splits prod.splits bool.splits)
  qed
qed

lemma handleInfer_frame:
  assumes "handleInfer env srv s body = (srv', s', rep)"
  shows "draining srv' = draining srv \<and> pauseSink srv' = pauseSink srv \<and> restartCh srv' = restartCh srv"
  using assms
  by (auto simp: handleInfer_def Let_def
      dest!: handleInferStream_frame handleInferBlocking_frame handleInferWithTools_frame
      split: if_splits option.splits prod.splits)

lemma handleDescribe_frame:
  assumes "handleDescribe d dec u srv s body = (srv', s', rep)"
  shows "draining srv' = draining srv \<and> pauseSink srv' = pauseSink srv \<and> restartCh srv' = restartCh srv"
  using assms by (auto simp: handleDescribe_def Let_def split: if_splits option.splits prod.splits sum.splits)

text \<open>The offline worker is paused exactly while the server drains.\<close>

definition drain_sync :: "'w Server \<Rightarrow> bool" where
  "drain_sync srv = (pauseSink srv = None \<or> pauseSink srv = Some (draining srv))"

lemma setDraining_sync: "drain_sync srv \<Longrightarrow> drain_sync (setDraining v srv)"
  by (auto simp: drain_sync_def setDraining_def)

lemma handleAdmin_sync: "drain_sync srv \<Longrightarrow> drain_sync (fst (handleAdmin snap r srv))"
  using setDraining_sync [of srv True] setDraining_sync [of srv False]
  by (auto simp: handleAdmin_def split: option.splits) (auto simp: drain_sync_def)

lemma ServeHTTP_srv:
  "ap_srv (fst (ServeHTTP env r a)) =
     (case routeOf r of
        RInfer \<Rightarrow> fst (handleInfer (he_infer env) (ap_srv a) (ap_sys a) (he_inferBody env))
      | RDescribe \<Rightarrow> fst (handleDescribe (he_describer env) (ie_decode64 (he_infer env)) (he_newID env) (ap_srv a) (ap_sys a) (he_textBody env))
      | RAdmin \<Rightarrow> fst (handleAdmin (he_snap env) r (ap_srv a))
      | _ \<Rightarrow> ap_srv a)"
  by (auto simp: ServeHTTP_def Let_def case_prod_beta split: route.split option.split)

text \<open>
  The drain switch is under local control and consistent. Whatever request is served, the
  offline worker stays paused exactly while the server is draining; the drain flag and the restart
  signal change only for a request to an admin path from a loopback address, and a request from
  elsewhere to any admin path is answered 404 with nothing changed.
\<close>

lemma drain_control:
  assumes "drain_sync (ap_srv a)" and "ServeHTTP env r a = (a', rep)"
  shows "drain_sync (ap_srv a')
    \<and> ((draining (ap_srv a') \<noteq> draining (ap_srv a) \<or> restartCh (ap_srv a') \<noteq> restartCh (ap_srv a))
        \<longrightarrow> routeOf r = RAdmin \<and> IsLoopback (hq_remote r))
    \<and> (routeOf r = RAdmin \<and> \<not> IsLoopback (hq_remote r) \<longrightarrow> a' = a \<and> rep = Http (writeError 404 ''invalid_request'' ''''))"
proof -
  let ?srv = "ap_srv a"
  have srv': "ap_srv a' = ap_srv (fst (ServeHTTP env r a))" using assms(2) by simp
  have inf: "draining (fst (handleInfer (he_infer env) ?srv (ap_sys a) (he_inferBody env))) = draining ?srv
     \<and> pauseSink (fst (handleInfer (he_infer env) ?srv (ap_sys a) (he_inferBody env))) = pauseSink ?srv
     \<and> restartCh (fst (handleInfer (he_infer env) ?srv (ap_sys a) (he_inferBody env))) = restartCh ?srv"
    using handleInfer_frame [of "he_infer env" ?srv "ap_sys a" "he_inferBody env"] by (metis prod.collapse)
  have des: "draining (fst (handleDescribe (he_describer env) dec u ?srv (ap_sys a) b)) = draining ?srv
     \<and> pauseSink (fst (handleDescribe (he_describer env) dec u ?srv (ap_sys a) b)) = pauseSink ?srv
     \<and> restartCh (fst (handleDescribe (he_describer env) dec u ?srv (ap_sys a) b)) = restartCh ?srv" for dec u b
    using handleDescribe_frame [of "he_describer env" dec u ?srv "ap_sys a" b] by (metis prod.collapse)
  have adm: "\<not> IsLoopback (hq_remote r) \<Longrightarrow> handleAdmin (he_snap env) r ?srv = (?srv, writeError 404 ''invalid_request'' '''')"
    by (simp add: handleAdmin_def)
  have sync: "drain_sync (ap_srv a')"
    unfolding srv' ServeHTTP_srv
    using assms(1) inf des handleAdmin_sync [OF assms(1)]
    by (auto simp: drain_sync_def split: route.split)
  have chg: "routeOf r = RAdmin \<and> IsLoopback (hq_remote r)"
    if "draining (ap_srv a') \<noteq> draining ?srv \<or> restartCh (ap_srv a') \<noteq> restartCh ?srv"
  proof (cases "routeOf r = RAdmin")
    case True
    then have "ap_srv a' = fst (handleAdmin (he_snap env) r ?srv)" unfolding srv' ServeHTTP_srv by simp
    with True adm that show ?thesis by (cases "IsLoopback (hq_remote r)") simp_all
  next
    case False
    with that inf des show ?thesis unfolding srv' ServeHTTP_srv by (simp split: route.splits)
  qed
  have "a' = a \<and> rep = Http (writeError 404 ''invalid_request'' '''')" if "routeOf r = RAdmin" "\<not> IsLoopback (hq_remote r)"
    using assms(2) adm that by (auto simp: ServeHTTP_def Let_def)
  with sync chg show ?thesis by blast
qed

definition exampleApp :: "int app" where
  "exampleApp = \<lparr>ap_srv = exampleBusyServer\<lparr>pauseSink := Some False, restartCh := Some (make_chan 1)\<rparr>, ap_store = None, ap_sys = \<lparr>clock = 0, ext = 0\<rparr>\<rparr>"

definition exampleEnv :: "int httpEnv" where
  "exampleEnv = \<lparr>he_infer = \<lparr>ie_tools = exampleToolEnv, ie_backends = Map.empty, ie_decode64 = (\<lambda>_. None), ie_uuid1 = ''u1'',
       ie_uuid2 = ''u2'', ie_canFlush = True, ie_select = ChanReady, ie_wait = ContextEnded 5 True\<rparr>,
     he_inferBody = None, he_chatBody = None, he_textBody = None, he_io = ioOk, he_newID = ''n'', he_tokenizer = None,
     he_describer = None, he_logs = None, he_logQuery = ('''', '''', None, None), he_pressure = None, he_availMB = 0, he_snap = (0, 0)\<rparr>"

definition exampleDrain :: "ip option \<Rightarrow> httpRequest" where
  "exampleDrain peer = \<lparr>hq_method = ''POST'', hq_path = ''/v1/admin/drain'', hq_remote = peer, hq_apiKey = '''', hq_origin = ''''\<rparr>"

lemma drain_control_witness:
  "draining (ap_srv (fst (ServeHTTP exampleEnv (exampleDrain (Some (IPv4 127 0 0 1))) exampleApp)))
   \<and> drain_sync (ap_srv (fst (ServeHTTP exampleEnv (exampleDrain (Some (IPv4 127 0 0 1))) exampleApp)))
   \<and> fst (ServeHTTP exampleEnv (exampleDrain (Some (IPv4 10 0 0 9))) exampleApp) = exampleApp"
proof -
  have s: "drain_sync (ap_srv exampleApp)"
    by (simp add: drain_sync_def exampleApp_def exampleBusyServer_def New_Server_def)
  have r: "routeOf (exampleDrain p) = RAdmin" for p
    by (simp add: routeOf_def exampleDrain_def methodGuarded_def has_prefix_def Let_def)
  have "draining (ap_srv (fst (ServeHTTP exampleEnv (exampleDrain (Some (IPv4 127 0 0 1))) exampleApp)))"
    unfolding ServeHTTP_srv r
    by (simp add: handleAdmin_def exampleDrain_def IsLoopback_def setDraining_def exampleApp_def exampleBusyServer_def New_Server_def)
  moreover have "drain_sync (ap_srv (fst (ServeHTTP exampleEnv (exampleDrain p) exampleApp)))" for p
    using drain_control [OF s, of exampleEnv "exampleDrain p"] by (metis prod.collapse)
  moreover have "fst (ServeHTTP exampleEnv (exampleDrain (Some (IPv4 10 0 0 9))) exampleApp) = exampleApp"
    using drain_control [OF s, of exampleEnv "exampleDrain (Some (IPv4 10 0 0 9))"] r
    by (cases "ServeHTTP exampleEnv (exampleDrain (Some (IPv4 10 0 0 9))) exampleApp") (simp add: exampleDrain_def IsLoopback_def)
  ultimately show ?thesis by blast
qed

text \<open>
  While the server drains, no inference or description is started: either endpoint answers with
  an error and neither the server, the queue nor the outside world is touched; and a guarded path
  called with the wrong method is always answered 405 with the method it wants, without effect.
\<close>

lemma draining_rejects_work:
  "(draining (ap_srv a) \<and> routeOf r \<in> {RInfer, RDescribe} \<longrightarrow>
     fst (ServeHTTP env r a) = a \<and> (\<exists>st c. st \<in> {501, 503} \<and> snd (ServeHTTP env r a) = Http (writeError st c '''')))
   \<and> (\<forall>want. map_of methodGuarded (hq_path r) = Some want \<and> hq_method r \<noteq> want \<longrightarrow>
        ServeHTTP env r a = (a, Http ((writeError 405 ''invalid_request'' '''')\<lparr>hr_allow := want\<rparr>)))"
proof -
  have "\<exists>st c. st \<in> {501, 503} \<and> ServeHTTP env r a = (a, Http (writeError st c ''''))"
    if "draining (ap_srv a)" "routeOf r \<in> {RInfer, RDescribe}"
  proof (cases "routeOf r = RInfer")
    case True
    with that have "ServeHTTP env r a = (a, Http (writeError 503 ''draining'' ''''))"
      by (simp add: ServeHTTP_def Let_def handleInfer_def)
    then show ?thesis by blast
  next
    case False
    with that have "ServeHTTP env r a = (a, Http (case he_describer env of None \<Rightarrow> writeError 501 ''unavailable'' ''''
        | Some _ \<Rightarrow> writeError 503 ''draining'' ''''))"
      by (cases "he_describer env") (simp_all add: ServeHTTP_def Let_def handleDescribe_def)
    then show ?thesis by (cases "he_describer env") auto
  qed
  moreover have "routeOf r = RMethodNotAllowed want" if "map_of methodGuarded (hq_path r) = Some want" "hq_method r \<noteq> want" for want
    using that by (simp add: routeOf_def Let_def)
  ultimately show ?thesis by (fastforce simp: ServeHTTP_def Let_def)
qed

lemma draining_rejects_work_witness:
  "fst (ServeHTTP exampleEnv \<lparr>hq_method = ''GET'', hq_path = ''/v1/infer'', hq_remote = None, hq_apiKey = '''', hq_origin = ''''\<rparr> exampleApp) = exampleApp"
  using draining_rejects_work [of exampleApp "\<lparr>hq_method = ''GET'', hq_path = ''/v1/infer'', hq_remote = None, hq_apiKey = '''', hq_origin = ''''\<rparr>" exampleEnv]
  by (simp add: methodGuarded_def)

text \<open>
  With an API key configured, a request to the API from another machine reaches the server only
  if it carries exactly that key: otherwise the answer is 401 and the handler behind is not called.
\<close>

lemma api_key_enforced:
  assumes "key \<noteq> ''''" and "has_prefix (hq_path r) ''/v1/''" and "\<not> IsLoopback (hq_remote r)"
  shows "APIKeyAuth key (\<lambda>q. ServeHTTP env q a) (\<lambda>resp. (a, Http resp)) r =
    (if hq_apiKey r = key then ServeHTTP env r a else (a, Http (writeError 401 ''unauthorized'' '''')))"
  using assms by (simp add: APIKeyAuth_def)

lemma api_key_enforced_witness:
  "APIKeyAuth ''k'' (\<lambda>q. ServeHTTP exampleEnv q exampleApp) (\<lambda>resp. (exampleApp, Http resp)) (exampleDrain (Some (IPv4 10 0 0 9)))
     = (exampleApp, Http (writeError 401 ''unauthorized'' ''''))"
  using api_key_enforced [of "''k''" "exampleDrain (Some (IPv4 10 0 0 9))" exampleEnv exampleApp]
  by (simp add: exampleDrain_def IsLoopback_def has_prefix_def)

text \<open>
  The log endpoint cannot be made to fail or to overrun by its parameters: whatever the caller
  sends as age and limit, it returns matching records only, at most two thousand, none older than a
  day.
\<close>

lemma logs_clamped:
  "\<exists>rs. handleLogs (Some b) now level event since limit = Some (respond 200 (LogsBody rs))
     \<and> length rs \<le> 2000 \<and> set rs \<subseteq> set (records b) \<and> list_all (\<lambda>x. now - 86400000 \<le> rec_Time x) rs"
proof -
  have l: "0 \<le> logLimit limit" "logLimit limit \<le> 2000" by (auto simp: logLimit_def Let_def split: option.splits)
  have s: "0 < logSince since" "logSince since \<le> 86400000" by (auto simp: logSince_def Let_def dayMS_def split: option.splits)
  let ?rs = "take (nat (logLimit limit)) (filter (queryMatches (to_upper (trim_space level)) event (Some (now - logSince since))) (records b))"
  have "Query now b level event (logSince since) (logLimit limit) = Some ?rs"
    using l s by (simp add: Query_def queryLoop_filter)
  then have "handleLogs (Some b) now level event since limit = Some (respond 200 (LogsBody ?rs))" by (simp add: handleLogs_def)
  moreover have "length ?rs \<le> 2000" using l by simp
  moreover have "x \<in> set (records b) \<and> now - 86400000 \<le> rec_Time x" if "x \<in> set ?rs" for x
    using in_set_takeD [OF that] s by (auto simp: queryMatches_def)
  then have "set ?rs \<subseteq> set (records b) \<and> list_all (\<lambda>x. now - 86400000 \<le> rec_Time x) ?rs"
    unfolding list_all_iff by blast
  ultimately show ?thesis by blast
qed

end
