(* ===== verification/Vram_Backend.thy ===== *)
theory Vram_Backend
  imports Layers
begin

text \<open>
  The state and the helpers of \<open>src/internal/backend/vram/vram.go\<close>: the interfaces an inner backend
  may implement, the \<open>Backend\<close> struct, roster lookups, the policy checks, loading and evicting.
  A pointer to a roster entry is the entry itself; a nil pointer is \<open>None\<close>. Logging is not modelled.
\<close>

section \<open>Interfaces of the inner backends\<close>

text \<open>
  \<open>inInfer\<close> and \<open>inShutdown\<close> are the methods of \<open>backend.Backend\<close>. Each optional interface that
  the code tests with a type assertion is an option: \<open>None\<close> means "does not implement it".
  A streaming call also lists the chunks it handed to \<open>chunkFn\<close>, in order.
\<close>

record 'w inner_backend =
  inInfer :: "Request \<Rightarrow> ('w, Response res) call"
  inShutdown :: "('w, go_error option) call"
  SetNextGPULayers :: "(int \<Rightarrow> 'w \<Rightarrow> 'w) option"
  SetNextNeedsVision :: "(bool \<Rightarrow> 'w \<Rightarrow> 'w) option"
  inTokPerSec :: "('w \<Rightarrow> rat) option"
  inInferStream :: "(Request \<Rightarrow> ('w, chunk list \<times> Response res) call) option"
  inRestarting :: "('w \<Rightarrow> bool) option"
  inResidentMB :: "('w \<Rightarrow> int) option"
  inTokenize :: "(string \<Rightarrow> ('w, int res) call) option"
  inNCtx :: "(('w, int res) call) option"

section \<open>Options and state\<close>

record Options =
  BufferPct :: int
  EvictionIdleTimeout :: int
  EvictionInterval :: int
  OOMSimulator :: "(ModelDescriptor \<Rightarrow> bool) option"
  NotifyCh :: "nat option"
  HasReaper :: bool
  MaxParallel :: int
  VRAMReclaimMaxWait :: int

definition DefaultOptions :: Options where
  "DefaultOptions = \<lparr>BufferPct = 10, EvictionIdleTimeout = 20000, EvictionInterval = 10000,
     OOMSimulator = None, NotifyCh = None, HasReaper = False, MaxParallel = 2, VRAMReclaimMaxWait = 0\<rparr>"

text \<open>
  \<open>sem\<close> is the number of slots taken in the buffered channel of capacity \<open>MaxParallel\<close>,
  \<open>notifications\<close> the contents of the notify channel (capacity in \<open>NotifyCh\<close>) and \<open>cancelled\<close>
  records that \<open>Shutdown\<close> stopped the eviction loop.
\<close>

record 'w Backend =
  modality :: string
  roster :: "ModelDescriptor list"
  vram :: "('w, int res) call"
  opts :: Options
  inners :: "(ModelTierLabel \<times> 'w inner_backend) list"
  sem :: nat
  loadedTier :: "ModelDescriptor option"
  loadedAt :: "time option"
  loadedLayers :: int
  loadedVision :: bool
  lastUsed :: "time option"
  inflight :: int
  contentionLogged :: bool
  notifications :: "string list"
  cancelled :: bool

definition New_Backend :: "string \<Rightarrow> ModelDescriptor list \<Rightarrow> ('w, int res) call \<Rightarrow>
    (ModelTierLabel \<times> 'w inner_backend) list \<Rightarrow> Options \<Rightarrow> 'w Backend" where
  "New_Backend kind r v ins o' =
     \<lparr>modality = kind, roster = sort_key RequiredVRAMMB r, vram = v,
      opts = (if MaxParallel o' < 1 then o'\<lparr>MaxParallel := 1\<rparr> else o'), inners = ins,
      sem = 0, loadedTier = None, loadedAt = None, loadedLayers = 0, loadedVision = False,
      lastUsed = None, inflight = 0, contentionLogged = False, notifications = [], cancelled = False\<rparr>"

section \<open>Roster lookups\<close>

fun rosterIndex :: "ModelDescriptor list \<Rightarrow> ModelTierLabel \<Rightarrow> nat option" where
  "rosterIndex [] label = None"
| "rosterIndex (d # ds) label =
     (if TierLabel d = label then Some 0 else map_option Suc (rosterIndex ds label))"

definition tierByLabel :: "ModelDescriptor list \<Rightarrow> ModelTierLabel \<Rightarrow> ModelDescriptor option" where
  "tierByLabel r label = find (\<lambda>d. TierLabel d = label) r"

definition tierBelow :: "ModelDescriptor list \<Rightarrow> ModelTierLabel \<Rightarrow> ModelDescriptor option" where
  "tierBelow r label =
     (case rosterIndex r label of
        None \<Rightarrow> None
      | Some i \<Rightarrow> if i = 0 then None else Some (r ! (i - 1)))"

lemma rosterIndex_Some:
  "rosterIndex r l = Some i \<Longrightarrow> i < length r \<and> TierLabel (r ! i) = l"
  by (induction r arbitrary: i) (auto split: if_splits)

lemma rosterIndex_mem: "d \<in> set r \<Longrightarrow> \<exists>i. rosterIndex r (TierLabel d) = Some i"
  by (induction r) auto

lemma rosterIndex_le: "j < length r \<Longrightarrow> \<exists>k\<le>j. rosterIndex r (TierLabel (r ! j)) = Some k"
proof (induction r arbitrary: j)
  case (Cons d r)
  show ?case
  proof (cases j)
    case 0
    then show ?thesis by simp
  next
    case (Suc i)
    with Cons obtain k where "k \<le> i" "rosterIndex r (TierLabel (r ! i)) = Some k" by auto
    with Suc show ?thesis by (cases "TierLabel d = TierLabel (r ! i)") auto
  qed
qed simp

lemma tierByLabel_Some: "tierByLabel r l = Some d \<Longrightarrow> d \<in> set r \<and> TierLabel d = l"
  unfolding tierByLabel_def by (drule find_Some_mem) simp

lemma tierBelow_mem: "tierBelow r l = Some d \<Longrightarrow> d \<in> set r"
  by (auto simp: tierBelow_def dest!: rosterIndex_Some split: option.splits if_splits)

lemma tierBelow_index:
  assumes "tierBelow r l = Some d"
  shows "\<exists>i k. rosterIndex r l = Some i \<and> rosterIndex r (TierLabel d) = Some k \<and> k < i"
proof -
  from assms obtain i where i: "rosterIndex r l = Some i" "0 < i" "d = r ! (i - 1)"
    by (auto simp: tierBelow_def split: option.splits if_splits)
  with rosterIndex_Some [of r l i] have "i - 1 < length r" by auto
  from rosterIndex_le [OF this] i show ?thesis by auto
qed

text \<open>The loop that skips tiers without a vision variant (\<open>selectInner\<close>) stops because every
  step moves to a smaller roster index.\<close>

definition indexOf :: "ModelDescriptor list \<Rightarrow> ModelDescriptor option \<Rightarrow> nat" where
  "indexOf r next = (case next of None \<Rightarrow> 0
     | Some d \<Rightarrow> (case rosterIndex r (TierLabel d) of None \<Rightarrow> 0 | Some i \<Rightarrow> Suc i))"

function skipNonVision :: "ModelDescriptor list \<Rightarrow> ModelDescriptor option \<Rightarrow> ModelDescriptor option" where
  "skipNonVision r next =
     (case next of
        None \<Rightarrow> None
      | Some d \<Rightarrow> if HasVision d then Some d else skipNonVision r (tierBelow r (TierLabel d)))"
  by pat_completeness auto
termination
proof (relation "measure (\<lambda>(r, next). case next of None \<Rightarrow> 0 | Some d \<Rightarrow> Suc (indexOf r next))")
  fix r :: "ModelDescriptor list" and "next" and d :: ModelDescriptor
  assume n: "next = Some d"
  show "((r, tierBelow r (TierLabel d)), r, next)
      \<in> measure (\<lambda>(r, next). case next of None \<Rightarrow> 0 | Some d \<Rightarrow> Suc (indexOf r next))"
    using tierBelow_index [of r "TierLabel d"]
    by (cases "tierBelow r (TierLabel d)") (auto simp: n indexOf_def split: option.splits)
qed simp

declare skipNonVision.simps [simp del]

section \<open>Policy checks\<close>

definition tierRank :: "ModelTierLabel \<Rightarrow> nat" where
  "tierRank label = (if label = TierStrong then 2 else if label = TierMid then 1 else 0)"

definition enforceMinTier :: "ModelTierLabel \<Rightarrow> ModelTierLabel \<Rightarrow> go_error option" where
  "enforceMinTier selected minTier =
     (if tierRank selected < tierRank minTier then Some (berr ''overloaded'') else None)"

definition checkSpeedFloor :: "string \<Rightarrow> rat \<Rightarrow> go_error option" where
  "checkSpeedFloor priority tokPerSec =
     (if tokPerSec = 0 then None
      else if priority = ''high'' then (if tokPerSec < 8 then Some (berr ''overloaded'') else None)
      else if priority = ''normal'' then (if tokPerSec < 4 then Some (berr ''overloaded'') else None)
      else None)"

definition markDegraded :: "'w Backend \<Rightarrow> Response \<Rightarrow> Request \<Rightarrow> ModelDescriptor \<Rightarrow> 'w Backend \<times> Response" where
  "markDegraded b resp req desc =
     (if Priority req = ''high'' \<and> TierLabel desc = TierWeak
      then ((case NotifyCh (opts b) of
               None \<Rightarrow> b
             | Some cap \<Rightarrow>
                 if length (notifications b) < cap
                 then b\<lparr>notifications := notifications b @
                     [''Quality Degraded: high-priority request served on weak tier'']\<rparr>
                 else b),
            resp\<lparr>QualityDegraded := True\<rparr>)
      else (b, resp))"

section \<open>Loading and evicting\<close>

definition loadModel :: "'w Backend \<Rightarrow> 'w sys \<Rightarrow> ModelDescriptor \<Rightarrow> int \<Rightarrow> bool \<Rightarrow>
    'w Backend \<times> 'w sys \<times> go_error option" where
  "loadModel b s d gpuLayers needsVision =
     (if (case OOMSimulator (opts b) of None \<Rightarrow> False | Some f \<Rightarrow> f d)
      then (b, s, Some (OomError (TierLabel d)))
      else
        let inner = map_of (inners b) (TierLabel d);
            s1 = (case inner of None \<Rightarrow> s
                  | Some i \<Rightarrow> (case SetNextGPULayers i of None \<Rightarrow> s | Some f \<Rightarrow> s\<lparr>ext := f gpuLayers (ext s)\<rparr>));
            s2 = (case inner of None \<Rightarrow> s1
                  | Some i \<Rightarrow> (case SetNextNeedsVision i of None \<Rightarrow> s1 | Some f \<Rightarrow> s1\<lparr>ext := f needsVision (ext s1)\<rparr>))
        in (b\<lparr>loadedTier := Some d, loadedLayers := gpuLayers, loadedVision := needsVision,
              loadedAt := Some (clock s2), lastUsed := Some (clock s2)\<rparr>, s2, None))"

definition evictLocked :: "'w Backend \<Rightarrow> 'w Backend \<times> 'w inner_backend option" where
  "evictLocked b =
     (case loadedTier b of
        None \<Rightarrow> (b, None)
      | Some d \<Rightarrow> (b\<lparr>loadedTier := None, loadedLayers := 0, loadedVision := False, loadedAt := None\<rparr>,
                   map_of (inners b) (TierLabel d)))"

definition stopInner :: "'w inner_backend option \<Rightarrow> 'w sys \<Rightarrow> 'w sys \<times> go_error option" where
  "stopInner inner s = (case inner of None \<Rightarrow> (s, None) | Some i \<Rightarrow> do_call (inShutdown i) s)"

definition vramReclaimPollInterval :: int where "vramReclaimPollInterval = 100"
definition vramReclaimMaxWait :: int where "vramReclaimMaxWait = 2000"

text \<open>
  The polling loop of \<open>waitForVRAMReclaim\<close>. It ends because each round sleeps: the distance of the
  clock to the deadline shrinks by at least one poll interval.
\<close>

function reclaimLoop :: "('w, int res) call \<Rightarrow> int \<Rightarrow> time \<Rightarrow> 'w sys \<Rightarrow> 'w sys" where
  "reclaimLoop v want deadline s =
     (if clock s < deadline
      then (case do_call v s of
              (s1, Inl _) \<Rightarrow> s1
            | (s1, Inr avail) \<Rightarrow>
                if avail < 0 then s1
                else if avail \<ge> want then s1
                else reclaimLoop v want deadline (s1\<lparr>clock := clock s1 + vramReclaimPollInterval\<rparr>))
      else s)"
  by pat_completeness auto
termination
  by (relation "measure (\<lambda>(v, want, deadline, s). nat (deadline - clock s))")
     (auto simp: vramReclaimPollInterval_def dest!: do_call_clock [OF sym])

declare reclaimLoop.simps [simp del]

definition waitForVRAMReclaim :: "'w Backend \<Rightarrow> int \<Rightarrow> int \<Rightarrow> 'w sys \<Rightarrow> 'w sys" where
  "waitForVRAMReclaim b beforeAvail residentMB s =
     (if residentMB \<le> 0 then s
      else let maxWait = (if VRAMReclaimMaxWait (opts b) \<le> 0 then vramReclaimMaxWait else VRAMReclaimMaxWait (opts b));
               want = beforeAvail + residentMB * 3 sdiv 4
           in reclaimLoop (vram b) want (clock s + maxWait) s)"

definition externalPressureFloorMB :: int where "externalPressureFloorMB = 800"

definition detectContention :: "'w Backend \<Rightarrow> 'w sys \<Rightarrow> ModelDescriptor \<Rightarrow> 'w Backend \<times> 'w sys" where
  "detectContention b s desc =
     (case do_call (vram b) s of
        (s1, Inl _) \<Rightarrow> (b, s1)
      | (s1, Inr avail) \<Rightarrow>
          if avail < 0 then (b, s1)
          else let underPressure =
                     \<not> effectiveHeadroomFits desc (loadedLayers b) (loadedVision b) (MaxParallel (opts b)) avail (BufferPct (opts b))
                     \<and> avail < externalPressureFloorMB
               in (b\<lparr>contentionLogged := underPressure\<rparr>, s1))"

section \<open>What the helpers leave unchanged\<close>

text \<open>\<open>same_config b b'\<close>: nothing but the loaded-model bookkeeping differs.\<close>

definition same_config :: "'w Backend \<Rightarrow> 'w Backend \<Rightarrow> bool" where
  "same_config b b' = (modality b' = modality b \<and> roster b' = roster b \<and> vram b' = vram b
     \<and> opts b' = opts b \<and> inners b' = inners b \<and> sem b' = sem b \<and> inflight b' = inflight b
     \<and> notifications b' = notifications b \<and> cancelled b' = cancelled b)"

lemma same_config_refl [simp]: "same_config b b"
  by (simp add: same_config_def)

lemma same_config_trans: "same_config a b \<Longrightarrow> same_config b c \<Longrightarrow> same_config a c"
  by (simp add: same_config_def)

lemma same_config_fields [dest]:
  "same_config b b' \<Longrightarrow> roster b' = roster b \<and> opts b' = opts b \<and> inners b' = inners b"
  by (simp add: same_config_def)

lemma evictLocked_frame [frame]: "same_config b (fst (evictLocked b))"
  by (simp add: evictLocked_def same_config_def split: option.splits)

lemma evictLocked_unloads [simp]: "loadedTier (fst (evictLocked b)) = None"
  by (simp add: evictLocked_def split: option.splits)

lemma loadModel_frame [frame]: "same_config b (fst (loadModel b s d l v))"
  by (simp add: loadModel_def same_config_def Let_def)

lemma loadModel_None:
  assumes "loadModel b s d l v = (b', s', None)"
  shows "loadedTier b' = Some d \<and> loadedLayers b' = l \<and> loadedVision b' = v"
  using assms by (auto simp: loadModel_def Let_def split: if_splits)

lemma loadModel_Some: "loadModel b s d l v = (b', s', Some e) \<Longrightarrow> b' = b \<and> e = OomError (TierLabel d)"
  by (auto simp: loadModel_def Let_def split: if_splits)

lemma detectContention_frame [frame]: "same_config b (fst (detectContention b s d))"
  by (simp add: detectContention_def same_config_def Let_def split: sum.splits prod.splits)

lemma detectContention_loaded [simp]:
  "loadedTier (fst (detectContention b s d)) = loadedTier b"
  "loadedVision (fst (detectContention b s d)) = loadedVision b"
  "loadedLayers (fst (detectContention b s d)) = loadedLayers b"
  by (simp_all add: detectContention_def Let_def split: sum.splits prod.splits)

section \<open>The invariant\<close>

text \<open>
  What \<open>New\<close> establishes and every operation keeps: the roster is sorted small to large with
  distinct labels and sensible sizes, an inner backend exists for every tier, the loaded tier (if
  any) is a roster entry that has a vision variant when it was loaded in vision mode, and the
  concurrency accounting is consistent.
\<close>

definition wf_roster :: "ModelDescriptor list \<Rightarrow> bool" where
  "wf_roster r = (sorted (map RequiredVRAMMB r) \<and> distinct (map TierLabel r) \<and> (\<forall>d\<in>set r. wf_desc d))"

definition wf_backend :: "'w Backend \<Rightarrow> bool" where
  "wf_backend b = (wf_roster (roster b) \<and> 0 \<le> BufferPct (opts b) \<and> 1 \<le> MaxParallel (opts b)
     \<and> (\<forall>d\<in>set (roster b). map_of (inners b) (TierLabel d) \<noteq> None)
     \<and> int (sem b) \<le> MaxParallel (opts b) \<and> 0 \<le> inflight b
     \<and> (case loadedTier b of None \<Rightarrow> True
        | Some d \<Rightarrow> d \<in> set (roster b) \<and> (loadedVision b \<longrightarrow> HasVision d)))"

lemma wf_backend_frame:
  assumes "wf_backend b" and "same_config b b'"
    and "case loadedTier b' of None \<Rightarrow> True
         | Some d \<Rightarrow> d \<in> set (roster b) \<and> (loadedVision b' \<longrightarrow> HasVision d)"
  shows "wf_backend b'"
proof -
  have "roster b' = roster b" using assms(2) by (simp add: same_config_def)
  with assms show ?thesis
    unfolding wf_backend_def same_config_def by (cases "loadedTier b'") simp_all
qed

lemma evictLocked_wf [inv_intro]: "wf_backend b \<Longrightarrow> wf_backend (fst (evictLocked b))"
  by (rule wf_backend_frame [OF _ evictLocked_frame]) simp_all

lemma loadModel_wf [inv_intro]:
  assumes "wf_backend b" "d \<in> set (roster b)" "v \<longrightarrow> HasVision d"
  shows "wf_backend (fst (loadModel b s d l v))"
proof (cases "snd (snd (loadModel b s d l v))")
  case None
  then have "loadModel b s d l v = (fst (loadModel b s d l v), fst (snd (loadModel b s d l v)), None)"
    by (simp add: prod_eq_iff)
  from loadModel_None [OF this] assms show ?thesis
    by (intro wf_backend_frame [OF assms(1) loadModel_frame]) simp
next
  case (Some e)
  then have "loadModel b s d l v = (fst (loadModel b s d l v), fst (snd (loadModel b s d l v)), Some e)"
    by (simp add: prod_eq_iff)
  from loadModel_Some [OF this] assms show ?thesis by simp
qed

lemma detectContention_wf [inv_intro]: "wf_backend b \<Longrightarrow> wf_backend (fst (detectContention b s d))"
  by (rule wf_backend_frame [OF _ detectContention_frame]) (auto simp: wf_backend_def split: option.splits)

lemma wf_backend_loaded:
  "wf_backend b \<Longrightarrow> loadedTier b = Some d \<Longrightarrow> d \<in> set (roster b)"
  by (simp add: wf_backend_def)

lemma wf_backend_label_unique:
  assumes "wf_backend b" "d \<in> set (roster b)" "e \<in> set (roster b)" "TierLabel d = TierLabel e"
  shows "d = e"
  using assms by (auto simp: wf_backend_def wf_roster_def distinct_map dest: inj_onD)

text \<open>
  \<open>New\<close> sorts whatever order the caller supplied, so the invariant holds of every new backend whose
  descriptors are sensible and whose tiers all have an inner backend.
\<close>

lemma New_Backend_wf [inv_intro]:
  assumes "distinct (map TierLabel r)" "\<forall>d\<in>set r. wf_desc d" "0 \<le> BufferPct o'"
    and "\<forall>d\<in>set r. map_of ins (TierLabel d) \<noteq> None"
  shows "wf_backend (New_Backend m r v ins o')"
proof -
  have "distinct (map TierLabel (sort_key RequiredVRAMMB r))"
    using assms(1) by (simp add: distinct_map)
  then show ?thesis using assms by (simp add: wf_backend_def New_Backend_def wf_roster_def)
qed

end
