(* ===== verification/Vram_Select.thy ===== *)
theory Vram_Select
  imports Vram_Backend
begin

text \<open>
  Tier selection and inference of \<open>src/internal/backend/vram/vram.go\<close>: \<open>selectAndLoad\<close>, the
  speed-floor cascade of \<open>selectInner\<close>, the load-failure cascade of \<open>Infer\<close>, and \<open>InferStream\<close>.
  Each definition is one uninterrupted call; \<open>loadMu\<close> makes that faithful for the selection, and
  the interleaving of several requests with the eviction loop is modelled in \<open>Vram_Concurrency\<close>.
  A Go panic is the error \<open>PlainError ''panic''\<close>.
\<close>

section \<open>selectAndLoad\<close>

definition forcedOk :: "ModelDescriptor option \<Rightarrow> ModelDescriptor \<Rightarrow> bool" where
  "forcedOk forced d = (case forced of None \<Rightarrow> True | Some f \<Rightarrow> TierLabel d = TierLabel f)"

definition matches :: "ModelDescriptor option \<Rightarrow> bool \<Rightarrow> ModelDescriptor \<Rightarrow> bool" where
  "matches forced needsVision d = (if needsVision \<and> \<not> HasVision d then False else forcedOk forced d)"

text \<open>The part before the fresh VRAM read: reuse the loaded model, or evict one that no longer
  fits or runs in the wrong mode. \<open>Some r\<close> is an early return.\<close>

definition reuseOrEvict :: "'w Backend \<Rightarrow> 'w sys \<Rightarrow> ModelDescriptor option \<Rightarrow> bool \<Rightarrow>
    'w Backend \<times> 'w sys \<times> ModelDescriptor res option" where
  "reuseOrEvict b s forced needsVision =
     (case loadedTier b of
        None \<Rightarrow> (b, s, None)
      | Some loaded \<Rightarrow>
          if loadedVision b = needsVision \<and> forcedOk forced loaded then
            (case do_call (vram b) s of
               (s1, Inl e) \<Rightarrow> (b, s1, Some (Err (BackendError ''unavailable'' (Some e))))
             | (s1, Inr availRaw) \<Rightarrow>
                 if availRaw < 0 \<or>
                    effectiveHeadroomFits loaded (loadedLayers b) needsVision (MaxParallel (opts b)) availRaw (BufferPct (opts b))
                 then (b\<lparr>lastUsed := Some (clock s1)\<rparr>, s1, Some (Ok loaded))
                 else let evictedResidentMB = residentOf loaded (loadedLayers b) needsVision (MaxParallel (opts b));
                          (b1, toStop) = evictLocked b;
                          (s2, _) = stopInner toStop s1
                      in (b1, waitForVRAMReclaim b1 availRaw evictedResidentMB s2, None))
          else if loadedVision b \<noteq> needsVision then
            (let (b1, toStop) = evictLocked b;
                 (s1, before) = do_call (vram b1) s;
                 (s2, _) = stopInner toStop s1
             in case before of
                  Inl _ \<Rightarrow> (b1, s2, None)
                | Inr beforeAvail \<Rightarrow>
                    if beforeAvail \<ge> 0
                    then (b1, waitForVRAMReclaim b1 beforeAvail
                                (residentOf loaded (loadedLayers b) (loadedVision b) (MaxParallel (opts b))) s2, None)
                    else (b1, s2, None))
          else (b, s, None))"

text \<open>The choice itself: the largest tier with at least a partial GPU offload, else the smallest
  whose overhead fits beside CPU-only weights; everything on the GPU when VRAM is unknown.\<close>

definition fitOf :: "'w Backend \<Rightarrow> bool \<Rightarrow> int \<Rightarrow> ModelDescriptor \<Rightarrow> int" where
  "fitOf b needsVision availRaw d =
     FitLayers (WeightMB d needsVision) (ScaledKVOverheadMB d (MaxParallel (opts b)) needsVision)
       availRaw (TotalLayers d) (BufferPct (opts b))"

definition chooseTier :: "'w Backend \<Rightarrow> ModelDescriptor option \<Rightarrow> bool \<Rightarrow> int \<Rightarrow> (ModelDescriptor \<times> int) option" where
  "chooseTier b forced needsVision availRaw =
     (if availRaw < 0 then
        map_option (\<lambda>d. (d, -1)) (find (matches forced needsVision) (rev (roster b)))
      else
        (case find (\<lambda>d. matches forced needsVision d \<and> fitOf b needsVision availRaw d \<noteq> 0) (rev (roster b)) of
           Some d \<Rightarrow> Some (d, fitOf b needsVision availRaw d)
         | None \<Rightarrow>
             map_option (\<lambda>d. (d, 0))
               (find (\<lambda>d. matches forced needsVision d \<and>
                   fitsWithBuffer (ScaledKVOverheadMB d (MaxParallel (opts b)) needsVision) availRaw (BufferPct (opts b)))
                 (roster b))))"

text \<open>Load the chosen tier; on an OOM try the next smaller one. The list is the roster from the
  chosen index downwards; \<open>first\<close> marks the chosen tier, whose layer count is already known.\<close>

fun loadLoop :: "'w Backend \<Rightarrow> 'w sys \<Rightarrow> ModelDescriptor option \<Rightarrow> bool \<Rightarrow> int \<Rightarrow> int \<Rightarrow> bool \<Rightarrow>
    ModelDescriptor list \<Rightarrow> 'w Backend \<times> 'w sys \<times> ModelDescriptor res" where
  "loadLoop b s forced needsVision availRaw chosenLayers first [] = (b, s, Err (berr ''overloaded''))"
| "loadLoop b s forced needsVision availRaw chosenLayers first (d # ds) =
     (if \<not> matches forced needsVision d then (b, s, Err (berr ''overloaded''))
      else let layers = (if \<not> first \<and> \<not> availRaw < 0 then fitOf b needsVision availRaw d else chosenLayers)
           in case loadModel b s d layers needsVision of
                (b1, s1, None) \<Rightarrow> (b1, s1, Ok d)
              | (b1, s1, Some (OomError _)) \<Rightarrow> loadLoop b1 s1 forced needsVision availRaw chosenLayers False ds
              | (b1, s1, Some e) \<Rightarrow> (b1, s1, Err (BackendError ''unavailable'' (Some e))))"

definition evictThenLoad :: "'w Backend \<Rightarrow> 'w sys \<Rightarrow> ModelDescriptor option \<Rightarrow> bool \<Rightarrow> int \<Rightarrow>
    ModelDescriptor \<Rightarrow> int \<Rightarrow> int \<Rightarrow> 'w Backend \<times> 'w sys \<times> ModelDescriptor res" where
  "evictThenLoad b s forced needsVision availRaw chosen chosenLayers evictedResidentMB =
     (let (b1, toStop) = evictLocked b;
          (s1, _) = stopInner toStop s;
          s2 = waitForVRAMReclaim b1 availRaw evictedResidentMB s1
      in case rosterIndex (roster b1) (TierLabel chosen) of
           None \<Rightarrow> (b1, s2, Err (PlainError ''panic''))
         | Some chosenIdx \<Rightarrow>
             loadLoop b1 s2 forced needsVision availRaw chosenLayers True (rev (take (Suc chosenIdx) (roster b1))))"

definition selectAndLoad :: "'w Backend \<Rightarrow> 'w sys \<Rightarrow> ModelDescriptor option \<Rightarrow> bool \<Rightarrow>
    'w Backend \<times> 'w sys \<times> ModelDescriptor res" where
  "selectAndLoad b s forced needsVision =
     (case reuseOrEvict b s forced needsVision of
        (b1, s1, Some r) \<Rightarrow> (b1, s1, r)
      | (b1, s1, None) \<Rightarrow>
          (case do_call (vram b1) s1 of
             (s2, Inl e) \<Rightarrow> (b1, s2, Err (BackendError ''unavailable'' (Some e)))
           | (s2, Inr availRaw) \<Rightarrow>
               (case chooseTier b1 forced needsVision availRaw of
                  None \<Rightarrow> (b1, s2, Err (berr ''overloaded''))
                | Some (chosen, chosenLayers) \<Rightarrow>
                    (case loadedTier b1 of
                       Some l \<Rightarrow>
                         if TierLabel l = TierLabel chosen \<and> loadedVision b1 = needsVision
                         then (b1\<lparr>lastUsed := Some (clock s2)\<rparr>, s2, Ok l)
                         else evictThenLoad b1 s2 forced needsVision availRaw chosen chosenLayers
                                (residentOf l (loadedLayers b1) (loadedVision b1) (MaxParallel (opts b1)))
                     | None \<Rightarrow> evictThenLoad b1 s2 forced needsVision availRaw chosen chosenLayers 0))))"

section \<open>selectInner: the speed-floor cascade\<close>

text \<open>\<open>attempts\<close> is the number of loop rounds left (\<open>len(b.roster)\<close> at the start); at 0 the code
  falls through to a plain selection.\<close>

fun selectInnerLoop :: "nat \<Rightarrow> 'w Backend \<Rightarrow> 'w sys \<Rightarrow> Request \<Rightarrow> bool \<Rightarrow> ModelDescriptor option \<Rightarrow>
    'w Backend \<times> 'w sys \<times> (ModelDescriptor \<times> 'w inner_backend) res" where
  "selectInnerLoop 0 b s req pinned forced =
     (case selectAndLoad b s forced (ImageData req \<noteq> []) of
        (b1, s1, Inl e) \<Rightarrow> (b1, s1, Err e)
      | (b1, s1, Inr desc) \<Rightarrow>
          (case map_of (inners b1) (TierLabel desc) of
             None \<Rightarrow> (b1, s1, Err (PlainError ''panic''))
           | Some inner \<Rightarrow> (b1, s1, Ok (desc, inner))))"
| "selectInnerLoop (Suc attempts) b s req pinned forced =
     (let needsVision = (ImageData req \<noteq> []) in
      case selectAndLoad b s forced needsVision of
        (b1, s1, Inl e) \<Rightarrow> (b1, s1, Err e)
      | (b1, s1, Inr desc) \<Rightarrow>
          (case (if MinTier req = '''' then None else enforceMinTier (TierLabel desc) (MinTier req)) of
             Some e \<Rightarrow> (b1, s1, Err e)
           | None \<Rightarrow>
               (case detectContention b1 s1 desc of (b2, s2) \<Rightarrow>
                (case map_of (inners b2) (TierLabel desc) of
                   None \<Rightarrow> (b2, s2, Err (berr ''internal_error''))
                 | Some inner \<Rightarrow>
                     if pinned then (b2, s2, Ok (desc, inner))
                     else (case inTokPerSec inner of
                             None \<Rightarrow> (b2, s2, Ok (desc, inner))
                           | Some tps \<Rightarrow>
                               if checkSpeedFloor (Priority req) (tps (ext s2)) = None then (b2, s2, Ok (desc, inner))
                               else
                                 let below = tierBelow (roster b2) (TierLabel desc);
                                     nxt = (if needsVision then skipNonVision (roster b2) below else below)
                                 in (case nxt of
                                       None \<Rightarrow> (b2, s2, Ok (desc, inner))
                                     | Some n \<Rightarrow>
                                         if MinTier req \<noteq> '''' \<and> tierRank (TierLabel n) < tierRank (MinTier req)
                                         then (b2, s2, Ok (desc, inner))
                                         else selectInnerLoop attempts b2 s2 req pinned (Some n)))))))"

definition selectInner :: "'w Backend \<Rightarrow> 'w sys \<Rightarrow> Request \<Rightarrow> ModelDescriptor option \<Rightarrow>
    'w Backend \<times> 'w sys \<times> (ModelDescriptor \<times> 'w inner_backend) res" where
  "selectInner b s req initialForced =
     (if PreferredTier req \<noteq> '''' then
        (case tierByLabel (roster b) (PreferredTier req) of
           None \<Rightarrow> (b, s, Err (berr ''invalid_request''))
         | Some desc \<Rightarrow>
             if ImageData req \<noteq> [] \<and> \<not> HasVision desc then (b, s, Err (berr ''invalid_request''))
             else selectInnerLoop (length (roster b)) b s req True (Some desc))
      else selectInnerLoop (length (roster b)) b s req False initialForced)"

section \<open>Infer: slots, the load-failure cascade\<close>

definition oomFallbackTier :: "ModelDescriptor list \<Rightarrow> Request \<Rightarrow> ModelDescriptor \<Rightarrow> go_error \<Rightarrow> ModelDescriptor option" where
  "oomFallbackTier r req current err =
     (case isBackendErr err of
        None \<Rightarrow> None
      | Some code \<Rightarrow>
          if code \<noteq> ''model_load_failed'' \<and> code \<noteq> ''oom'' then None
          else if PreferredTier req \<noteq> '''' then None
          else (case tierBelow r (TierLabel current) of
                  None \<Rightarrow> None
                | Some nxt \<Rightarrow>
                    if MinTier req \<noteq> '''' \<and> tierRank (TierLabel nxt) < tierRank (MinTier req) then None
                    else Some nxt))"

fun inferLoop :: "nat \<Rightarrow> 'w Backend \<Rightarrow> 'w sys \<Rightarrow> Request \<Rightarrow> ModelDescriptor option \<Rightarrow>
    'w Backend \<times> 'w sys \<times> Response res" where
  "inferLoop 0 b s req forcedNext = (b, s, Err (berr ''overloaded''))"
| "inferLoop (Suc attempts) b s req forcedNext =
     (case selectInner b s req forcedNext of
        (b1, s1, Inl e) \<Rightarrow> (b1, s1, Err e)
      | (b1, s1, Inr (desc, inner)) \<Rightarrow>
          (case do_call (inInfer inner req) s1 of
             (s2, Inr resp) \<Rightarrow>
               (case markDegraded b1 (resp\<lparr>ModelTier := TierLabel desc\<rparr>) req desc of
                  (b2, resp') \<Rightarrow> (b2, s2, Ok resp'))
           | (s2, Inl err) \<Rightarrow>
               (case oomFallbackTier (roster b1) req desc err of
                  None \<Rightarrow> (b1, s2, Err err)
                | Some nxt \<Rightarrow>
                    (let (b2, toStop) = evictLocked b1;
                         (s3, _) = stopInner toStop s2
                     in inferLoop attempts b2 s3 req (Some nxt)))))"

text \<open>
  The select at the head of \<open>Infer\<close> and \<open>InferStream\<close> is resolved by the scheduler: \<open>acquired\<close>
  says whether the request got its slot or its context ended first. The deferred functions give the
  slot back and count the request out on every path.
\<close>

definition acquireSlot :: "'w Backend \<Rightarrow> 'w Backend" where
  "acquireSlot b = b\<lparr>sem := Suc (sem b), inflight := inflight b + 1\<rparr>"

definition releaseSlot :: "'w Backend \<Rightarrow> 'w Backend" where
  "releaseSlot b = b\<lparr>sem := sem b - 1, inflight := inflight b - 1\<rparr>"

definition Infer :: "'w Backend \<Rightarrow> 'w sys \<Rightarrow> bool \<Rightarrow> Request \<Rightarrow> 'w Backend \<times> 'w sys \<times> Response res" where
  "Infer b s acquired req =
     (if \<not> acquired then (b, s, Err (berr ''timeout''))
      else case inferLoop (length (roster b)) (acquireSlot b) s req None of
             (b1, s1, r) \<Rightarrow> (releaseSlot b1, s1, r))"

text \<open>The streaming call of the inner backend, or one blocking call re-emitted as chunks.\<close>

definition streamInner :: "'w inner_backend \<Rightarrow> Request \<Rightarrow> 'w sys \<Rightarrow> 'w sys \<times> chunk list \<times> Response res" where
  "streamInner inner req s =
     (case inInferStream inner of
        Some f \<Rightarrow> do_call (f req) s
      | None \<Rightarrow>
          (case do_call (inInfer inner req) s of
             (s2, Inl e) \<Rightarrow> (s2, [], Inl e)
           | (s2, Inr resp) \<Rightarrow>
               (s2, (if RespReasoning resp \<noteq> '''' then [(ChunkReasoning, RespReasoning resp)] else [])
                    @ (if Output resp \<noteq> '''' then [(ChunkContent, Output resp)] else []), Inr resp)))"

definition InferStream :: "'w Backend \<Rightarrow> 'w sys \<Rightarrow> bool \<Rightarrow> Request \<Rightarrow>
    'w Backend \<times> 'w sys \<times> chunk list \<times> Response \<times> go_error option" where
  "InferStream b s acquired req =
     (if \<not> acquired then (b, s, [], zeroResponse, Some (berr ''timeout''))
      else case selectInner (acquireSlot b) s req None of
             (b1, s1, Inl e) \<Rightarrow> (releaseSlot b1, s1, [], zeroResponse, Some e)
           | (b1, s1, Inr (desc, inner)) \<Rightarrow>
               (case streamInner inner req s1 of
                  (s2, chunks, Inl e) \<Rightarrow>
                    (releaseSlot b1, s2, chunks, zeroResponse\<lparr>ModelTier := TierLabel desc\<rparr>, Some e)
                | (s2, chunks, Inr resp) \<Rightarrow>
                    (case markDegraded b1 (resp\<lparr>ModelTier := TierLabel desc\<rparr>) req desc of
                       (b2, resp') \<Rightarrow> (releaseSlot b2, s2, chunks, resp', None))))"

definition describeMaxTokens :: int where "describeMaxTokens = 1024"

definition describeSystemPrompt :: string where
  "describeSystemPrompt = ''You are a helpful assistant.''"

definition describePrompt :: string where
  "describePrompt = ''Describe this image factually: its dominant colours, '' @
     ''every object and where it is, any visible text or numbers exactly as '' @
     ''written, people and what they are doing, and the overall composition. '' @
     ''Be specific and exhaustive, not interpretive.''"

definition Describe :: "'w Backend \<Rightarrow> 'w sys \<Rightarrow> bool \<Rightarrow> nat list \<Rightarrow> 'w Backend \<times> 'w sys \<times> (string \<times> string) res" where
  "Describe b s acquired imageData =
     (case Infer b s acquired (zeroRequest\<lparr>Prompt := describePrompt, SystemPrompt := describeSystemPrompt,
             ImageData := imageData, MaxTokens := describeMaxTokens\<rparr>) of
        (b1, s1, Inl e) \<Rightarrow> (b1, s1, Err e)
      | (b1, s1, Inr resp) \<Rightarrow> (b1, s1, Ok (Output resp, ModelTier resp)))"

section \<open>Shutdown and read-only snapshots\<close>

fun shutdownAll :: "(ModelTierLabel \<times> 'w inner_backend) list \<Rightarrow> 'w sys \<Rightarrow> 'w sys" where
  "shutdownAll [] s = s"
| "shutdownAll ((l, inner) # rest) s = shutdownAll rest (fst (do_call (inShutdown inner) s))"

definition Shutdown :: "'w Backend \<Rightarrow> 'w sys \<Rightarrow> 'w Backend \<times> 'w sys" where
  "Shutdown b s =
     (b\<lparr>cancelled := True, loadedTier := None, loadedLayers := 0, loadedVision := False, loadedAt := None\<rparr>,
      shutdownAll (inners b) s)"

definition innerBusy :: "'w Backend \<Rightarrow> 'w sys \<Rightarrow> ModelTierLabel \<Rightarrow> bool" where
  "innerBusy b s tier =
     (case map_of (inners b) tier of
        None \<Rightarrow> False
      | Some inner \<Rightarrow> (case inRestarting inner of None \<Rightarrow> False | Some f \<Rightarrow> f (ext s)))"

definition TokPerSec :: "'w Backend \<Rightarrow> 'w sys \<Rightarrow> rat" where
  "TokPerSec b s =
     (case loadedTier b of
        None \<Rightarrow> 0
      | Some d \<Rightarrow> (case map_of (inners b) (TierLabel d) of
                    None \<Rightarrow> 0
                  | Some inner \<Rightarrow> (case inTokPerSec inner of None \<Rightarrow> 0 | Some f \<Rightarrow> f (ext s))))"

definition SelfVRAMMB :: "'w Backend \<Rightarrow> 'w sys \<Rightarrow> int" where
  "SelfVRAMMB b s =
     sum_list (map (\<lambda>(l, inner). case inResidentMB inner of None \<Rightarrow> 0 | Some f \<Rightarrow> f (ext s)) (inners b))"

definition Tokenize :: "'w Backend \<Rightarrow> 'w sys \<Rightarrow> string \<Rightarrow> 'w sys \<times> int res" where
  "Tokenize b s txt =
     (case Option.bind (loadedTier b) (\<lambda>d. Option.bind (map_of (inners b) (TierLabel d)) inTokenize) of
        None \<Rightarrow> (s, Err (berr ''unavailable''))
      | Some f \<Rightarrow> do_call (f txt) s)"

definition NCtx :: "'w Backend \<Rightarrow> 'w sys \<Rightarrow> 'w sys \<times> int res" where
  "NCtx b s =
     (case Option.bind (loadedTier b) (\<lambda>d. Option.bind (map_of (inners b) (TierLabel d)) inNCtx) of
        None \<Rightarrow> (s, Err (berr ''unavailable''))
      | Some f \<Rightarrow> do_call f s)"

definition LoadedTier :: "'w Backend \<Rightarrow> string" where
  "LoadedTier b = (case loadedTier b of None \<Rightarrow> '''' | Some d \<Rightarrow> TierLabel d)"

record LoadedModelSnapshot =
  lm_Descriptor :: ModelDescriptor
  lm_LoadedAt :: "time option"
  lm_GPULayers :: int
  lm_TotalLayers :: int

definition LoadedModel :: "'w Backend \<Rightarrow> LoadedModelSnapshot option" where
  "LoadedModel b =
     (case loadedTier b of
        None \<Rightarrow> None
      | Some d \<Rightarrow> Some \<lparr>lm_Descriptor = d, lm_LoadedAt = loadedAt b, lm_GPULayers = loadedLayers b,
          lm_TotalLayers = (if TotalLayers d \<le> 0 then defaultTotalLayers else TotalLayers d)\<rparr>)"

section \<open>A concrete backend\<close>

text \<open>Two tiers on a card whose free memory is the world itself; used to instantiate the theorems.\<close>

definition exampleWeak :: ModelDescriptor where
  "exampleWeak = \<lparr>TierLabel = TierWeak, Name = ''weak'', FilePath = ''w.gguf'', MMProjPath = ''p.gguf'',
     RequiredVRAMMB = 1800, Modality = ''text'', GPULayers = 0, Port = 8092, TotalLayers = 36,
     KVOverheadMB = 0, KVCacheMB = 150, KVFixedMB = 300, VisionRequiredVRAMMB = 1800,
     VisionKVCacheMB = 150, VisionKVFixedMB = 1100, RequireChatTemplate = True\<rparr>"

definition exampleInner :: "int inner_backend" where
  "exampleInner = \<lparr>inInfer = (\<lambda>req w. (w, 5, Ok (zeroResponse\<lparr>Output := ''hi''\<rparr>))),
     inShutdown = (\<lambda>w. (w, 1, None)), SetNextGPULayers = None, SetNextNeedsVision = None,
     inTokPerSec = Some (\<lambda>w. 20), inInferStream = None, inRestarting = None, inResidentMB = None,
     inTokenize = None, inNCtx = None\<rparr>"

definition exampleBackend :: "int Backend" where
  "exampleBackend = New_Backend ''text'' [exampleStrong, exampleWeak] (\<lambda>w. (w, 1, Ok w))
     [(TierStrong, exampleInner), (TierWeak, exampleInner)] DefaultOptions"

definition exampleSys :: "int sys" where "exampleSys = \<lparr>clock = 0, ext = 3000\<rparr>"

definition exampleReq :: Request where
  "exampleReq = zeroRequest\<lparr>Prompt := ''hello'', Priority := ''high'', MinTier := TierWeak\<rparr>"

lemma exampleBackend_wf: "wf_backend exampleBackend"
  unfolding exampleBackend_def
  by (rule New_Backend_wf)
     (auto simp: exampleStrong_def exampleWeak_def wf_desc_def tier_label_defs DefaultOptions_def)

lemma exampleBackend_slot: "int (sem exampleBackend) < MaxParallel (opts exampleBackend)"
  by (simp add: exampleBackend_def New_Backend_def DefaultOptions_def)

lemma exampleBackend_roster: "roster exampleBackend = [exampleWeak, exampleStrong]"
  by (simp add: exampleBackend_def New_Backend_def exampleStrong_def exampleWeak_def)

end
