(* ===== verification/Eviction.thy ===== *)
theory Eviction
  imports Vram_Select
begin

text \<open>
  The background side of the VRAM backend: \<open>reaper.go\<close> (killing stray subprocesses) and the
  eviction loop of \<open>eviction.go\<close>. The loop takes and drops \<open>mu\<close> several times per tick, so a tick
  is a small state machine: one definition per section between two lock operations.
\<close>

section \<open>The reaper\<close>

definition llamaImageName :: string where "llamaImageName = ''llama-server.exe''"

record 'w portOwner =
  pidOnPort :: "int \<Rightarrow> ('w, int) call"
  imageName :: "int \<Rightarrow> ('w, string) call"
  kill :: "int \<Rightarrow> ('w, go_error option) call"

text \<open>
  The loop of \<open>Sweep\<close>. Beside the world it returns the kills it attempted, as port, process and
  whether the kill succeeded; the count \<open>Sweep\<close> reports is read off that list.
\<close>

fun sweepLoop :: "'w portOwner \<Rightarrow> (int \<Rightarrow> bool) \<Rightarrow> int list \<Rightarrow> 'w sys \<Rightarrow> 'w sys \<times> (int \<times> int \<times> bool) list" where
  "sweepLoop os tracked [] s = (s, [])"
| "sweepLoop os tracked (port # ports) s =
     (let (s1, pid) = do_call (pidOnPort os port) s in
      if pid = 0 \<or> tracked pid then sweepLoop os tracked ports s1
      else let (s2, image) = do_call (imageName os pid) s1 in
           if image \<noteq> llamaImageName then sweepLoop os tracked ports s2
           else let (s3, err) = do_call (kill os pid) s2;
                    (s4, rest) = sweepLoop os tracked ports s3
                in (s4, (port, pid, err = None) # rest))"

definition Sweep :: "'w portOwner \<Rightarrow> (int \<Rightarrow> bool) option \<Rightarrow> int list \<Rightarrow> 'w sys \<Rightarrow> 'w sys \<times> (int \<times> int \<times> bool) list \<times> nat" where
  "Sweep os owned ports s =
     (let tracked = (case owned of None \<Rightarrow> (\<lambda>_. False) | Some f \<Rightarrow> f);
          (s', kills) = sweepLoop os tracked ports s
      in (s', kills, length (filter (\<lambda>k. snd (snd k)) kills)))"

lemma sweepLoop_kills:
  assumes "sweepLoop os tracked ports s = (s', kills)" and "(port, pid, ok) \<in> set kills"
  shows "port \<in> set ports \<and> pid \<noteq> 0 \<and> \<not> tracked pid
    \<and> (\<exists>t. snd (do_call (imageName os pid) t) = llamaImageName)"
  using assms
proof (induction os tracked ports s arbitrary: s' kills rule: sweepLoop.induct)
  case (2 os tracked p ports s)
  obtain s1 q where 1: "do_call (pidOnPort os p) s = (s1, q)" by fastforce
  obtain s2 image where 2: "do_call (imageName os q) s1 = (s2, image)" by fastforce
  obtain s3 err where 3: "do_call (kill os q) s2 = (s3, err)" by fastforce
  obtain s4 rest where 4: "sweepLoop os tracked ports s3 = (s4, rest)" by fastforce
  consider (skip) "q = 0 \<or> tracked q" | (other) "\<not> (q = 0 \<or> tracked q)" "image \<noteq> llamaImageName"
    | (kill) "\<not> (q = 0 \<or> tracked q)" "image = llamaImageName" by blast
  then show ?case
  proof cases
    case skip
    with 1 "2.prems" "2.IH"(1) [OF 1 [symmetric] refl] show ?thesis by auto
  next
    case other
    with 1 2 "2.prems" "2.IH"(2) [OF 1 [symmetric] refl _ 2 [symmetric] refl] show ?thesis by auto
  next
    case kill
    with 1 2 3 4 "2.prems" have "(port, pid, ok) = (p, q, err = None) \<or> (port, pid, ok) \<in> set rest" by auto
    moreover have "\<exists>t. snd (do_call (imageName os q) t) = llamaImageName" using 2 kill by (metis snd_conv)
    ultimately show ?thesis
      using kill "2.IH"(3) [OF 1 [symmetric] refl _ 2 [symmetric] refl _ 3 [symmetric] refl, OF _ _ 4] by auto
  qed
qed simp

text \<open>
  The reaper only kills what it may: every process it tries to kill was found listening on one
  of the roster ports, is not a subprocess the server tracks, and carried the image name
  \<open>llama-server.exe\<close>; and the number it reports counts only kills that succeeded.
\<close>

lemma Sweep_only_strays:
  assumes "Sweep os owned ports s = (s', kills, killed)"
  shows "(\<forall>(port, pid, ok)\<in>set kills. port \<in> set ports \<and> pid \<noteq> 0
        \<and> (\<forall>f. owned = Some f \<longrightarrow> \<not> f pid)
        \<and> (\<exists>t. snd (do_call (imageName os pid) t) = llamaImageName))
    \<and> killed = length (filter (\<lambda>k. snd (snd k)) kills)"
proof -
  from assms have L: "sweepLoop os (case owned of None \<Rightarrow> (\<lambda>_. False) | Some f \<Rightarrow> f) ports s = (s', kills)"
    and k: "killed = length (filter (\<lambda>k. snd (snd k)) kills)"
    by (auto simp: Sweep_def Let_def split: prod.splits)
  with sweepLoop_kills [OF L] show ?thesis by fastforce
qed

definition exampleOS :: "int portOwner" where
  "exampleOS = \<lparr>pidOnPort = (\<lambda>port w. (w, 1, if port = 8090 then 77 else if port = 8092 then 88 else 0)),
     imageName = (\<lambda>pid w. (w, 1, llamaImageName)), kill = (\<lambda>pid w. (w, 1, None))\<rparr>"

lemma Sweep_only_strays_witness:
  "snd (Sweep exampleOS (Some (\<lambda>pid. pid = 88)) [8090, 8091, 8092] exampleSys) = ([(8090, 77, True)], 1)
   \<and> (8090::int) \<in> set [8090, 8091, 8092]"
proof -
  have e: "snd (Sweep exampleOS (Some (\<lambda>pid. pid = 88)) [8090, 8091, 8092] exampleSys) = ([(8090, 77, True)], 1)"
    by (simp add: Sweep_def exampleOS_def exampleSys_def do_call_def)
  then obtain s' where "Sweep exampleOS (Some (\<lambda>pid. pid = 88)) [8090, 8091, 8092] exampleSys
      = (s', [(8090, 77, True)], 1)" by (metis prod.collapse)
  from Sweep_only_strays [OF this] e show ?thesis by auto
qed

section \<open>The eviction loop\<close>

definition reaperSweepEvery :: nat where "reaperSweepEvery = 6"

datatype 'w evictPhase =
    EvWait
  | EvCheck
  | EvPressure ModelDescriptor int bool
  | EvRecheck
  | EvStop "'w inner_backend option" bool

text \<open>\<open>sweeping\<close> is the shared flag, \<open>sweeps\<close> counts the sweeps started. In \<open>EvStop i idle\<close> the model
  has been evicted under the lock and its subprocess is about to be stopped outside it.\<close>

record 'w evictor =
  tick :: nat
  sweeping :: bool
  sweeps :: nat
  phase :: "'w evictPhase"

definition startSweep :: "'w evictor \<Rightarrow> 'w evictor" where
  "startSweep e = (if sweeping e then e else e\<lparr>sweeping := True, sweeps := Suc (sweeps e)\<rparr>)"

definition maybeSweepAfterEvict :: "'w Backend \<Rightarrow> bool \<Rightarrow> 'w evictor \<Rightarrow> 'w evictor" where
  "maybeSweepAfterEvict b force e = (if \<not> HasReaper (opts b) \<or> \<not> force then e else startSweep e)"

definition evictTick :: "'w Backend \<Rightarrow> 'w evictor \<Rightarrow> 'w evictor" where
  "evictTick b e =
     (let e1 = e\<lparr>tick := Suc (tick e)\<rparr> in
      if loadedTier b = None then
        (if HasReaper (opts b) \<and> tick e1 mod reaperSweepEvery = 0 then startSweep e1 else e1)
      else if inflight b > 0 then e1
      else e1\<lparr>phase := EvCheck\<rparr>)"

definition evictCheck :: "'w Backend \<Rightarrow> 'w sys \<Rightarrow> 'w evictor \<Rightarrow> 'w Backend \<times> 'w evictor" where
  "evictCheck b s e =
     (case loadedTier b of
        None \<Rightarrow> (b, e\<lparr>phase := EvWait\<rparr>)
      | Some loaded \<Rightarrow>
          if inflight b > 0 then (b, e\<lparr>phase := EvWait\<rparr>)
          else if (case lastUsed b of None \<Rightarrow> True | Some t \<Rightarrow> clock s - t \<ge> EvictionIdleTimeout (opts b))
          then (let (b1, toStop) = evictLocked b in (b1, e\<lparr>phase := EvStop toStop True\<rparr>))
          else (b, e\<lparr>phase := EvPressure loaded (loadedLayers b) (loadedVision b)\<rparr>))"

definition evictPressure :: "'w Backend \<Rightarrow> 'w sys \<Rightarrow> ModelDescriptor \<Rightarrow> int \<Rightarrow> bool \<Rightarrow> 'w evictor \<Rightarrow> 'w sys \<times> 'w evictor" where
  "evictPressure b s loaded layers vision e =
     (case do_call (vram b) s of
        (s1, Inl _) \<Rightarrow> (s1, e\<lparr>phase := EvWait\<rparr>)
      | (s1, Inr avail) \<Rightarrow>
          if avail < 0 then (s1, e\<lparr>phase := EvWait\<rparr>)
          else if \<not> effectiveHeadroomFits loaded layers vision (MaxParallel (opts b)) avail (BufferPct (opts b))
                  \<and> avail < externalPressureFloorMB
          then (s1, e\<lparr>phase := EvRecheck\<rparr>)
          else (s1, e\<lparr>phase := EvWait\<rparr>))"

definition evictRecheck :: "'w Backend \<Rightarrow> 'w sys \<Rightarrow> 'w evictor \<Rightarrow> 'w Backend \<times> 'w evictor" where
  "evictRecheck b s e =
     (case loadedTier b of
        None \<Rightarrow> (b, e\<lparr>phase := EvWait\<rparr>)
      | Some d \<Rightarrow>
          if inflight b = 0 \<and> \<not> innerBusy b s (TierLabel d)
          then (let (b1, toStop) = evictLocked b
                in (b1, e\<lparr>phase := (case toStop of None \<Rightarrow> EvWait | Some i \<Rightarrow> EvStop (Some i) False)\<rparr>))
          else (b, e\<lparr>phase := EvWait\<rparr>))"

definition evictStop :: "'w Backend \<Rightarrow> 'w sys \<Rightarrow> 'w inner_backend option \<Rightarrow> bool \<Rightarrow> 'w evictor \<Rightarrow> 'w sys \<times> 'w evictor" where
  "evictStop b s toStop idle e =
     (let (s1, err) = stopInner toStop s
      in (s1, maybeSweepAfterEvict b (idle \<or> err \<noteq> None) (e\<lparr>phase := EvWait\<rparr>)))"

section \<open>A section of the loop never touches a busy backend\<close>

lemma evictCheck_busy: "inflight b > 0 \<Longrightarrow> fst (evictCheck b s e) = b"
  by (auto simp: evictCheck_def split: option.splits)

lemma evictRecheck_busy: "inflight b > 0 \<Longrightarrow> fst (evictRecheck b s e) = b"
  by (auto simp: evictRecheck_def split: option.splits)

lemma evictCheck_cases: "fst (evictCheck b s e) = b \<or> fst (evictCheck b s e) = fst (evictLocked b)"
  by (auto simp: evictCheck_def case_prod_beta Let_def split: option.splits)

lemma evictRecheck_cases: "fst (evictRecheck b s e) = b \<or> fst (evictRecheck b s e) = fst (evictLocked b)"
  by (auto simp: evictRecheck_def case_prod_beta Let_def split: option.splits)

lemma evictor_frame [frame]:
  "same_config b (fst (evictCheck b s e))" "same_config b (fst (evictRecheck b s e))"
  using evictCheck_cases [of b s e] evictRecheck_cases [of b s e] evictLocked_frame [of b] by auto

lemma evictor_wf [inv_intro]:
  "wf_backend b \<Longrightarrow> wf_backend (fst (evictCheck b s e))"
  "wf_backend b \<Longrightarrow> wf_backend (fst (evictRecheck b s e))"
  using evictCheck_cases [of b s e] evictRecheck_cases [of b s e] evictLocked_wf [of b] by auto

end
