(* ===== verification/Vram_Select_Props.thy ===== *)
theory Vram_Select_Props
  imports Vram_Select
begin

text \<open>
  Correctness of tier selection: what each step keeps (configuration and invariant), what a
  successful selection guarantees about the loaded tier, that the floor and pin of a request are
  honoured, that both cascades end inside the roster, and that slots are always given back.
\<close>

section \<open>The steps of selectAndLoad\<close>

lemma reuseOrEvict_state:
  "\<exists>t. fst (reuseOrEvict b s f v) = b \<or> fst (reuseOrEvict b s f v) = b\<lparr>lastUsed := t\<rparr>
     \<or> fst (reuseOrEvict b s f v) = fst (evictLocked b)"
  by (auto simp: reuseOrEvict_def Let_def case_prod_beta split: option.split sum.split)

lemma reuseOrEvict_frame [frame]: "same_config b (fst (reuseOrEvict b s f v))"
proof -
  have "same_config b (b\<lparr>lastUsed := t\<rparr>)" for t by (simp add: same_config_def)
  then show ?thesis using reuseOrEvict_state [of b s f v] evictLocked_frame [of b] by auto
qed

lemma lastUsed_wf: "wf_backend b \<Longrightarrow> wf_backend (b\<lparr>lastUsed := t\<rparr>)"
  by (auto simp: wf_backend_def split: option.splits)

lemma reuseOrEvict_wf [inv_intro]:
  "wf_backend b \<Longrightarrow> wf_backend (fst (reuseOrEvict b s f v))"
  using reuseOrEvict_state [of b s f v] evictLocked_wf [of b] lastUsed_wf [of b] by auto

lemma reuseOrEvict_Some:
  assumes "reuseOrEvict b s f v = (b', s', Some (Inr d))"
  shows "loadedTier b' = Some d \<and> loadedVision b' = v \<and> forcedOk f d"
  using assms by (auto simp: reuseOrEvict_def Let_def split: option.splits sum.splits prod.splits if_splits)

lemma loadLoop_props:
  assumes "wf_backend b" and "set ds \<subseteq> set (roster b)" and "loadLoop b s f v a cl first ds = (b', s', r)"
  shows "wf_backend b' \<and> same_config b b' \<and>
    (\<forall>d. r = Inr d \<longrightarrow> d \<in> set ds \<and> matches f v d \<and> loadedTier b' = Some d \<and> loadedVision b' = v)"
  using assms
proof (induction b s f v a cl first ds rule: loadLoop.induct)
  case (2 b s f v a cl first d ds)
  define layers where "layers = (if \<not> first \<and> \<not> a < 0 then fitOf b v a d else cl)"
  obtain b1 s1 e where L: "loadModel b s d layers v = (b1, s1, e)" by (cases "loadModel b s d layers v")
  show ?case
  proof (cases "matches f v d")
    case False
    with 2 show ?thesis by auto
  next
    case True
    then have vis: "v \<longrightarrow> HasVision d" by (auto simp: matches_def split: if_splits)
    from 2 vis have wf1: "wf_backend b1" using loadModel_wf [of b d v s layers] L by auto
    have sc: "same_config b b1" using loadModel_frame [of b s d layers v] L by simp
    show ?thesis
    proof (cases e)
      case None
      with 2 True L loadModel_None [of b s d layers v b1 s1] wf1 sc show ?thesis
        by (auto simp: layers_def [symmetric])
    next
      case (Some err)
      with loadModel_Some [of b s d layers v b1 s1 err] L
      have eq: "b1 = b" "err = OomError (TierLabel d)" by auto
      with 2 True L Some have "loadLoop b1 s1 f v a cl False ds = (b', s', r)"
        by (simp add: layers_def [symmetric])
      with "2.IH" [OF _ layers_def L [symmetric] refl Some] eq True 2 show ?thesis by auto
    qed
  qed
qed auto

lemma chooseTier_Some:
  assumes "chooseTier b f v a = Some (d, l)"
  shows "d \<in> set (roster b) \<and> matches f v d"
  using assms by (auto simp: chooseTier_def dest!: find_Some_mem split: if_splits option.splits)

lemma evictThenLoad_props:
  assumes wf: "wf_backend b" and d: "d \<in> set (roster b)" "matches f v d"
    and eq: "evictThenLoad b s f v a d l res = (b', s', r)"
  shows "wf_backend b' \<and> same_config b b' \<and>
    (\<forall>e. r = Inr e \<longrightarrow> e \<in> set (roster b) \<and> matches f v e \<and> loadedTier b' = Some e \<and> loadedVision b' = v)"
proof -
  obtain b1 i where ev: "evictLocked b = (b1, i)" by (cases "evictLocked b")
  have sc: "same_config b b1" and wf1: "wf_backend b1"
    using evictLocked_frame [of b] evictLocked_wf [OF wf] ev by auto
  then have ro: "roster b1 = roster b" by (simp add: same_config_def)
  from d(1) obtain k where k: "rosterIndex (roster b) (TierLabel d) = Some k"
    using rosterIndex_mem by blast
  define s2 where "s2 = waitForVRAMReclaim b1 a res (fst (stopInner i s))"
  have loop: "loadLoop b1 s2 f v a l True (rev (take (Suc k) (roster b1))) = (b', s', r)"
    using eq by (simp add: evictThenLoad_def ev ro k s2_def case_prod_beta)
  have "set (rev (take (Suc k) (roster b1))) \<subseteq> set (roster b1)" by (auto dest: in_set_takeD)
  from loadLoop_props [OF wf1 this loop] show ?thesis
    using sc ro by (auto intro: same_config_trans dest: in_set_takeD)
qed

text \<open>The contract of \<open>selectAndLoad\<close>: invariant, frame, and what success means.\<close>

lemma selectAndLoad_props:
  assumes wf: "wf_backend b" and eq: "selectAndLoad b s f v = (b', s', r)"
  shows "wf_backend b' \<and> same_config b b' \<and>
    (\<forall>d. r = Inr d \<longrightarrow> d \<in> set (roster b) \<and> matches f v d \<and> loadedTier b' = Some d \<and> loadedVision b' = v)"
proof -
  obtain b1 s1 early where re: "reuseOrEvict b s f v = (b1, s1, early)"
    by (cases "reuseOrEvict b s f v")
  have wf1: "wf_backend b1" and sc1: "same_config b b1"
    using reuseOrEvict_wf [OF wf, of s f v] reuseOrEvict_frame [of b s f v] re by auto
  then have ro: "roster b1 = roster b" by (simp add: same_config_def)
  have lu: "wf_backend (b1\<lparr>lastUsed := t\<rparr>)" "same_config b (b1\<lparr>lastUsed := t\<rparr>)" for t
    using wf1 sc1 by (auto simp: wf_backend_def same_config_def split: option.splits)
  show ?thesis
  proof (cases early)
    case (Some r0)
    with eq re have [simp]: "b' = b1" "r = r0" by (auto simp: selectAndLoad_def)
    have "\<forall>d. r = Inr d \<longrightarrow> d \<in> set (roster b) \<and> matches f v d \<and> loadedTier b' = Some d \<and> loadedVision b' = v"
    proof (intro allI impI)
      fix d assume "r = Inr d"
      with re Some reuseOrEvict_Some [of b s f v b1 s1 d]
      have l: "loadedTier b1 = Some d" "loadedVision b1 = v" "forcedOk f d" by auto
      with wf1 have "d \<in> set (roster b1)" "v \<longrightarrow> HasVision d" by (auto simp: wf_backend_def)
      with l ro show "d \<in> set (roster b) \<and> matches f v d \<and> loadedTier b' = Some d \<and> loadedVision b' = v"
        by (simp add: matches_def)
    qed
    with wf1 sc1 show ?thesis by simp
  next
    case None
    obtain s2 rd where rd: "do_call (vram b1) s1 = (s2, rd)" by (cases "do_call (vram b1) s1")
    show ?thesis
    proof (cases rd)
      case (Inl e)
      with eq re None rd wf1 sc1 show ?thesis by (auto simp: selectAndLoad_def)
    next
      case (Inr a)
      show ?thesis
      proof (cases "chooseTier b1 f v a")
        case None
        with eq re \<open>early = None\<close> rd Inr wf1 sc1 show ?thesis by (auto simp: selectAndLoad_def)
      next
        case (Some dl)
        obtain d l where dl: "dl = (d, l)" by (cases dl)
        from chooseTier_Some [of b1 f v a d l] Some dl
        have d: "d \<in> set (roster b1)" "matches f v d" by auto
        have fin: "evictThenLoad b1 s2 f v a d l res = (b', s', r) \<Longrightarrow> ?thesis" for res
          using evictThenLoad_props [OF wf1 d, of s2 a l res b' s' r] sc1 ro
          by (auto intro: same_config_trans)
        show ?thesis
        proof (cases "\<exists>x. loadedTier b1 = Some x \<and> TierLabel x = TierLabel d \<and> loadedVision b1 = v")
          case True
          then obtain x where x: "loadedTier b1 = Some x" "TierLabel x = TierLabel d" "loadedVision b1 = v"
            by blast
          then have "x = d" using wf_backend_label_unique [OF wf1 _ d(1)] wf_backend_loaded [OF wf1] by blast
          with x eq re None rd Inr Some dl lu d ro show ?thesis
            by (auto simp: selectAndLoad_def \<open>early = None\<close>)
        next
          case False
          then show ?thesis
            using eq re \<open>early = None\<close> rd Inr Some dl fin
            by (auto simp: selectAndLoad_def split: option.splits if_splits)
        qed
      qed
    qed
  qed
qed

section \<open>What selection admits\<close>

lemma find_rev_max:
  assumes "find P (rev xs) = Some d"
  shows "\<exists>i<length xs. xs ! i = d \<and> P d \<and> (\<forall>j. i < j \<and> j < length xs \<longrightarrow> \<not> P (xs ! j))"
proof -
  from assms obtain k where k: "k < length xs" "P (rev xs ! k)" "rev xs ! k = d"
      "\<forall>j<k. \<not> P (rev xs ! j)"
    by (auto simp: find_Some_iff)
  let ?i = "length xs - Suc k"
  have "\<not> P (xs ! j)" if "?i < j" "j < length xs" for j
  proof -
    from that k(1) have "length xs - Suc j < k" "rev xs ! (length xs - Suc j) = xs ! j"
      by (auto simp: rev_nth)
    with k(4) show ?thesis by metis
  qed
  moreover have "?i < length xs" "xs ! ?i = d" "P d" using k by (auto simp: rev_nth)
  ultimately show ?thesis by blast
qed

lemma chooseTier_fits:
  assumes wf: "wf_backend b" and a: "0 \<le> a" and c: "chooseTier b f v a = Some (d, l)"
    and w: "0 < WeightMB d v"
  shows "fitsWithBuffer (residentOf d l v (MaxParallel (opts b))) a (BufferPct (opts b))"
proof -
  from chooseTier_Some [OF c] wf have dw: "wf_desc d" by (auto simp: wf_backend_def wf_roster_def)
  have p: "0 \<le> BufferPct (opts b)" using wf by (simp add: wf_backend_def)
  consider "l \<noteq> 0" "l = fitOf b v a d"
    | "l = 0" "fitsWithBuffer (ScaledKVOverheadMB d (MaxParallel (opts b)) v) a (BufferPct (opts b))"
  proof (cases "find (\<lambda>d. matches f v d \<and> fitOf b v a d \<noteq> 0) (rev (roster b))")
    case None
    let ?Q = "\<lambda>d. matches f v d \<and>
        fitsWithBuffer (ScaledKVOverheadMB d (MaxParallel (opts b)) v) a (BufferPct (opts b))"
    from None c a have "find ?Q (roster b) = Some d" "l = 0" by (auto simp: chooseTier_def)
    with find_Some_mem [of ?Q "roster b" d] that(2) show ?thesis by simp
  next
    case (Some x)
    with c a have "x = d" "l = fitOf b v a d" by (auto simp: chooseTier_def)
    with find_Some_mem [OF Some] that(1) show ?thesis by simp
  qed
  then show ?thesis
  proof cases
    case 1
    let ?kv = "ScaledKVOverheadMB d (MaxParallel (opts b)) v"
    have l: "l = FitLayers (WeightMB d v) ?kv a (TotalLayers d) (BufferPct (opts b))"
      using 1 by (simp add: fitOf_def)
    have kv: "0 \<le> ?kv" using dw by (rule ScaledKVOverheadMB_nonneg)
    have "GPUResidentMB (WeightMB d v) ?kv l (TotalLayers d) \<le> a * 100 sdiv (100 + BufferPct (opts b))"
      using GPUResidentMB_FitLayers [OF w kv a p, of "TotalLayers d"] 1(1) l by simp
    then show ?thesis unfolding residentOf_def
      using w kv a p by (intro budget_fits GPUResidentMB_nonneg) auto
  next
    case 2
    then show ?thesis by (simp add: residentOf_def GPUResidentMB_def)
  qed
qed



text \<open>
  C2. The contract of \<open>selectAndLoad\<close>. Whatever the driver and the inner backends answer, it keeps
  the backend invariant and the configuration; if it succeeds, the tier it returns is a roster
  tier that is now recorded as loaded in the requested mode, has a vision variant when the request
  carries an image, and is the forced tier when one was forced.
\<close>

theorem selectAndLoad_correct:
  assumes "wf_backend b" and "selectAndLoad b s forced vision = (b', s', r)"
  shows "wf_backend b' \<and> same_config b b' \<and>
    (\<forall>d. r = Ok d \<longrightarrow> d \<in> set (roster b) \<and> loadedTier b' = Some d \<and> loadedVision b' = vision
        \<and> (vision \<longrightarrow> HasVision d) \<and> (\<forall>f. forced = Some f \<longrightarrow> TierLabel d = TierLabel f))"
  using selectAndLoad_props [OF assms]
  by (auto simp: matches_def forcedOk_def split: if_splits option.splits)

theorem selectAndLoad_correct_witness:
  "snd (snd (selectAndLoad exampleBackend exampleSys None False)) = Ok exampleStrong \<and>
   loadedTier (fst (selectAndLoad exampleBackend exampleSys None False)) = Some exampleStrong"
proof -
  have r: "snd (snd (selectAndLoad exampleBackend exampleSys None False)) = Ok exampleStrong" by code_simp
  from selectAndLoad_correct [OF exampleBackend_wf, of exampleSys None False] r show ?thesis
    by (simp add: prod_eq_iff)
qed

section \<open>The speed-floor cascade\<close>

lemma skipNonVision_index:
  "skipNonVision r nxt = Some d \<Longrightarrow> HasVision d \<and> indexOf r (Some d) \<le> indexOf r nxt"
proof (induction r nxt rule: skipNonVision.induct)
  case (1 r nxt)
  show ?case
  proof (cases nxt)
    case None
    with 1 show ?thesis by (simp add: skipNonVision.simps)
  next
    case (Some e)
    show ?thesis
    proof (cases "HasVision e")
      case True
      with 1 Some show ?thesis by (simp add: skipNonVision.simps)
    next
      case False
      with 1 Some have "HasVision d \<and> indexOf r (Some d) \<le> indexOf r (tierBelow r (TierLabel e))"
        by (simp add: skipNonVision.simps [of r "Some e"])
      moreover have "indexOf r (tierBelow r (TierLabel e)) \<le> indexOf r (Some e)"
        using tierBelow_index [of r "TierLabel e"]
        by (cases "tierBelow r (TierLabel e)") (auto simp: indexOf_def)
      ultimately show ?thesis using Some by auto
    qed
  qed
qed

lemma indexOf_Some: "d \<in> set r \<Longrightarrow> \<exists>k. rosterIndex r (TierLabel d) = Some k \<and> indexOf r (Some d) = Suc k"
  using rosterIndex_mem by (fastforce simp: indexOf_def)

lemma indexOf_le_length: "indexOf r x \<le> length r"
  by (auto simp: indexOf_def dest: rosterIndex_Some split: option.splits)

lemma cascade_decreases:
  assumes "d \<in> set r"
    and "(if v then skipNonVision r (tierBelow r (TierLabel d)) else tierBelow r (TierLabel d)) = Some n"
  shows "indexOf r (Some n) < indexOf r (Some d)"
proof -
  have below: "indexOf r (tierBelow r (TierLabel d)) < indexOf r (Some d)"
    using tierBelow_index [of r "TierLabel d"] indexOf_Some [OF assms(1)]
    by (cases "tierBelow r (TierLabel d)") (auto simp: indexOf_def)
  with assms(2) skipNonVision_index [of r "tierBelow r (TierLabel d)" n]
  show ?thesis by (auto split: if_splits)
qed

text \<open>\<open>enough n r forced\<close>: \<open>n\<close> rounds suffice from here, since each round goes down the roster.\<close>

definition enough :: "nat \<Rightarrow> ModelDescriptor list \<Rightarrow> ModelDescriptor option \<Rightarrow> bool" where
  "enough n r forced = (case forced of None \<Rightarrow> length r \<le> n | Some f \<Rightarrow> indexOf r (Some f) \<le> n)"

lemma enough_selected:
  assumes "enough n r f" "d \<in> set r" "matches f v d"
  shows "indexOf r (Some d) \<le> n \<and> 0 < n"
proof -
  obtain k where "indexOf r (Some d) = Suc k" using indexOf_Some [OF assms(2)] by blast
  moreover have "indexOf r (Some d) \<le> n"
    using assms indexOf_le_length [of r "Some d"]
    by (auto simp: enough_def matches_def forcedOk_def indexOf_def split: option.splits if_splits)
  ultimately show ?thesis by simp
qed

text \<open>One round of the loop, as a case distinction that its proofs share.\<close>

definition servable :: "Request \<Rightarrow> bool \<Rightarrow> ModelDescriptor option \<Rightarrow> ModelDescriptor \<Rightarrow> bool" where
  "servable req pinned forced d = (matches (if pinned then forced else None) (ImageData req \<noteq> []) d
     \<and> (MinTier req \<noteq> '''' \<longrightarrow> tierRank (MinTier req) \<le> tierRank (TierLabel d)))"

lemma selectInnerLoop_props:
  assumes "wf_backend b" and "enough n (roster b) forced"
    and "selectInnerLoop n b s req pinned forced = (b', s', r)"
  shows "wf_backend b' \<and> same_config b b' \<and>
    (\<forall>d i. r = Inr (d, i) \<longrightarrow> d \<in> set (roster b) \<and> loadedTier b' = Some d \<and> loadedVision b' = (ImageData req \<noteq> [])
        \<and> map_of (inners b) (TierLabel d) = Some i \<and> servable req pinned forced d
        \<and> (\<forall>f. forced = Some f \<longrightarrow> indexOf (roster b) (Some d) \<le> indexOf (roster b) (Some f)))"
  using assms
proof (induction n arbitrary: b s forced)
  case 0
  let ?v = "ImageData req \<noteq> []"
  obtain b1 s1 r1 where S: "selectAndLoad b s forced ?v = (b1, s1, r1)" by (cases "selectAndLoad b s forced ?v")
  note P = selectAndLoad_props [OF 0(1) S]
  have "\<not> (\<exists>d. r1 = Inr d)"
    using P enough_selected [OF 0(2)] by blast
  then obtain e where "r1 = Inl e" by (cases r1) auto
  with 0 S P show ?case by auto
next
  case (Suc n)
  let ?v = "ImageData req \<noteq> []"
  obtain b1 s1 r1 where S: "selectAndLoad b s forced ?v = (b1, s1, r1)" by (cases "selectAndLoad b s forced ?v")
  note P = selectAndLoad_props [OF Suc.prems(1) S]
  then have wf1: "wf_backend b1" and sc1: "same_config b b1" by auto
  show ?case
  proof (cases r1)
    case (Inl e)
    with Suc.prems S P show ?thesis by (auto simp: Let_def)
  next
    case (Inr d)
    with P have d: "d \<in> set (roster b)" "matches forced ?v d" "loadedTier b1 = Some d" "loadedVision b1 = ?v"
      by auto
    have idx: "indexOf (roster b) (Some d) \<le> Suc n" using enough_selected [OF Suc.prems(2) d(1,2)] by simp
    have idxf: "\<forall>f. forced = Some f \<longrightarrow> indexOf (roster b) (Some d) \<le> indexOf (roster b) (Some f)"
      using d(2) by (auto simp: matches_def forcedOk_def indexOf_def split: if_splits)
    show ?thesis
    proof (cases "if MinTier req = '''' then None else enforceMinTier (TierLabel d) (MinTier req)")
      case (Some e)
      with Suc.prems S Inr wf1 sc1 show ?thesis by (auto simp: Let_def)
    next
      case None
      then have floor: "MinTier req \<noteq> '''' \<longrightarrow> tierRank (MinTier req) \<le> tierRank (TierLabel d)"
        by (auto simp: enforceMinTier_def split: if_splits)
      obtain b2 s2 where C: "detectContention b1 s1 d = (b2, s2)" by (cases "detectContention b1 s1 d")
      have wf2: "wf_backend b2" and sc2: "same_config b b2" and l2: "loadedTier b2 = Some d" "loadedVision b2 = ?v"
        using detectContention_wf [OF wf1, of s1 d] detectContention_frame [of b1 s1 d]
          detectContention_loaded [of b1 s1 d] C d(3,4) same_config_trans [OF sc1] by auto
      have ro: "roster b2 = roster b" "inners b2 = inners b" using sc2 by (auto simp: same_config_def)
      obtain i where i: "map_of (inners b) (TierLabel d) = Some i"
        using Suc.prems(1) d(1) by (auto simp: wf_backend_def)
      have sv: "servable req pinned forced d" using d(2) floor by (auto simp: servable_def matches_def forcedOk_def split: if_splits)
      have here: ?thesis if "(b2, s2, Ok (d, i)) = (b', s', r)"
        using that wf2 sc2 l2 d(1) i sv idxf by auto
      let ?nxt = "if ?v then skipNonVision (roster b2) (tierBelow (roster b2) (TierLabel d))
                  else tierBelow (roster b2) (TierLabel d)"
      show ?thesis
      proof (cases "pinned \<or> inTokPerSec i = None \<or> (\<exists>t. inTokPerSec i = Some t \<and> checkSpeedFloor (Priority req) (t (ext s2)) = None)
          \<or> ?nxt = None \<or> (\<exists>m. ?nxt = Some m \<and> MinTier req \<noteq> '''' \<and> tierRank (TierLabel m) < tierRank (MinTier req))")
        case True
        with Suc.prems(3) S Inr None C ro i have "(b2, s2, Ok (d, i)) = (b', s', r)"
          by (auto simp: Let_def split: option.splits if_splits)
        then show ?thesis by (rule here)
      next
        case False
        then obtain m where m: "?nxt = Some m" by auto
        with False Suc.prems(3) S Inr None C ro i
        have rec: "selectInnerLoop n b2 s2 req pinned (Some m) = (b', s', r)"
          by (auto simp: Let_def split: option.splits if_splits)
        have dec: "indexOf (roster b) (Some m) < indexOf (roster b) (Some d)"
          using cascade_decreases [OF d(1), of ?v m] m unfolding ro by blast
        with idx have "enough n (roster b2) (Some m)" by (simp add: enough_def ro)
        from Suc.IH [OF wf2 this rec] False dec idxf sc2 ro show ?thesis
          by (force simp: servable_def intro: same_config_trans)
      qed
    qed
  qed
qed

lemma enough_initial: "enough (length r) r forced"
  by (auto simp: enough_def indexOf_le_length split: option.splits)

lemma tierByLabel_enough: "enough (length r) r (Some d)"
  by (rule enough_initial)

lemma selectInner_props:
  assumes wf: "wf_backend b" and eq: "selectInner b s req forced = (b', s', r)"
  shows "wf_backend b' \<and> same_config b b' \<and>
    (\<forall>d i. r = Inr (d, i) \<longrightarrow> d \<in> set (roster b) \<and> loadedTier b' = Some d \<and> loadedVision b' = (ImageData req \<noteq> [])
        \<and> map_of (inners b) (TierLabel d) = Some i \<and> matches None (ImageData req \<noteq> []) d
        \<and> (MinTier req \<noteq> '''' \<longrightarrow> tierRank (MinTier req) \<le> tierRank (TierLabel d))
        \<and> (PreferredTier req \<noteq> '''' \<longrightarrow> TierLabel d = PreferredTier req)
        \<and> (PreferredTier req = '''' \<longrightarrow> (\<forall>f. forced = Some f \<longrightarrow> indexOf (roster b) (Some d) \<le> indexOf (roster b) (Some f))))"
proof (cases "PreferredTier req = ''''")
  case True
  with eq have "selectInnerLoop (length (roster b)) b s req False forced = (b', s', r)"
    by (simp add: selectInner_def)
  from selectInnerLoop_props [OF wf enough_initial this] True show ?thesis
    by (auto simp: servable_def)
next
  case False
  show ?thesis
  proof (cases "tierByLabel (roster b) (PreferredTier req)")
    case None
    with False eq wf show ?thesis by (auto simp: selectInner_def)
  next
    case (Some f)
    show ?thesis
    proof (cases "ImageData req \<noteq> [] \<and> \<not> HasVision f")
      case True
      with False Some eq wf show ?thesis by (auto simp: selectInner_def)
    next
      case ok: False
      with False Some eq have "selectInnerLoop (length (roster b)) b s req True (Some f) = (b', s', r)"
        by (auto simp: selectInner_def)
      from selectInnerLoop_props [OF wf enough_initial this] False tierByLabel_Some [OF Some] show ?thesis
        by (auto simp: servable_def matches_def forcedOk_def split: if_splits)
    qed
  qed
qed

text \<open>
  \<open>selectInner\<close> honours the request. If it returns a tier, that tier is loaded in the mode the
  request needs and its inner backend is the registered one; it is never below the \<open>min_tier\<close>
  floor, it is exactly the \<open>preferred_tier\<close> when one is pinned (the speed floor cannot move it),
  and an image is only ever sent to a tier with a vision variant.
\<close>

lemma selectInner_honours_request:
  assumes "wf_backend b" and "selectInner b s req forced = (b', s', Ok (d, inner))"
  shows "d \<in> set (roster b) \<and> loadedTier b' = Some d \<and> loadedVision b' = (ImageData req \<noteq> [])
    \<and> map_of (inners b) (TierLabel d) = Some inner
    \<and> (MinTier req \<noteq> '''' \<longrightarrow> tierRank (MinTier req) \<le> tierRank (TierLabel d))
    \<and> (PreferredTier req \<noteq> '''' \<longrightarrow> TierLabel d = PreferredTier req)
    \<and> (ImageData req \<noteq> [] \<longrightarrow> HasVision d)"
  using selectInner_props [OF assms] by (auto simp: matches_def split: if_splits)

lemma selectInner_honours_request_witness:
  "exampleStrong \<in> set (roster exampleBackend) \<and>
   tierRank (MinTier exampleReq) \<le> tierRank (TierLabel exampleStrong)"
proof -
  let ?r = "selectInner exampleBackend exampleSys exampleReq None"
  have r: "map_sum id fst (snd (snd ?r)) = Ok exampleStrong" by code_simp
  then obtain i where "snd (snd ?r) = Ok (exampleStrong, i)" by (cases "snd (snd ?r)") auto
  then have "?r = (fst ?r, fst (snd ?r), Ok (exampleStrong, i))" by (simp add: prod_eq_iff)
  from selectInner_honours_request [OF exampleBackend_wf this]
  show ?thesis by (simp add: exampleReq_def tier_label_defs)
qed

text \<open>Extra rounds change nothing: the loop always returns from inside.\<close>

lemma selectInnerLoop_Suc:
  assumes "wf_backend b" and "enough n (roster b) forced"
  shows "selectInnerLoop (Suc n) b s req pinned forced = selectInnerLoop n b s req pinned forced"
  using assms
proof (induction n arbitrary: b s forced)
  case 0
  let ?v = "ImageData req \<noteq> []"
  obtain b1 s1 r1 where S: "selectAndLoad b s forced ?v = (b1, s1, r1)" by (cases "selectAndLoad b s forced ?v")
  have "\<not> (\<exists>d. r1 = Inr d)"
    using selectAndLoad_props [OF 0(1) S] enough_selected [OF 0(2)] by blast
  then obtain e where "r1 = Inl e" by (cases r1) auto
  with S show ?case by simp
next
  case (Suc n)
  let ?v = "ImageData req \<noteq> []"
  obtain b1 s1 r1 where S: "selectAndLoad b s forced ?v = (b1, s1, r1)" by (cases "selectAndLoad b s forced ?v")
  note P = selectAndLoad_props [OF Suc.prems(1) S]
  have rec: "selectInnerLoop (Suc n) b2 s2 req p (Some m) = selectInnerLoop n b2 s2 req p (Some m)"
    if p: "p = pinned" and d: "r1 = Inr d" and C: "detectContention b1 s1 d = (b2, s2)"
      and m: "(if ?v then skipNonVision (roster b2) (tierBelow (roster b2) (TierLabel d))
               else tierBelow (roster b2) (TierLabel d)) = Some m" for d b2 s2 m p
  unfolding p
  proof (rule Suc.IH)
    from P d have dr: "d \<in> set (roster b)" "matches forced ?v d" and wf1: "wf_backend b1" and sc1: "same_config b b1"
      by auto
    show "wf_backend b2" using detectContention_wf [OF wf1, of s1 d] C by simp
    have ro: "roster b2 = roster b"
      using detectContention_frame [of b1 s1 d] C sc1 by (auto simp: same_config_def)
    have "indexOf (roster b) (Some m) < indexOf (roster b) (Some d)"
      using cascade_decreases [OF dr(1), of ?v m] m unfolding ro by blast
    moreover have "indexOf (roster b) (Some d) \<le> Suc n"
      using enough_selected [OF Suc.prems(2) dr] by simp
    ultimately show "enough n (roster b2) (Some m)" by (simp add: enough_def ro)
  qed
  show ?case
    unfolding selectInnerLoop.simps(2) [of "Suc n"] selectInnerLoop.simps(2) [of n b s] S Let_def
    by (auto intro!: rec simp del: selectInnerLoop.simps split: sum.split option.split prod.split)
qed

text \<open>
  The bound on the speed-floor loop is never what stops it: giving it any number of extra
  rounds beyond the roster size yields the same result, so the plain selection after the loop,
  which would skip the floor check, is unreachable as its comment says.
\<close>

lemma selectInner_bound_unreachable:
  assumes "wf_backend b"
  shows "selectInnerLoop (length (roster b) + k) b s req pinned forced
       = selectInnerLoop (length (roster b)) b s req pinned forced"
proof (induction k)
  case (Suc k)
  have "enough (length (roster b) + k) (roster b) forced"
    using enough_initial [of "roster b" forced] by (auto simp: enough_def split: option.splits)
  from selectInnerLoop_Suc [OF assms this] Suc show ?case by simp
qed simp

lemma selectInner_bound_unreachable_witness:
  "selectInnerLoop (length (roster exampleBackend) + 5) exampleBackend exampleSys exampleReq False None
   = selectInnerLoop (length (roster exampleBackend)) exampleBackend exampleSys exampleReq False None"
  by (rule selectInner_bound_unreachable [OF exampleBackend_wf])

section \<open>Infer\<close>

lemma oomFallbackTier_props:
  assumes "oomFallbackTier r req d e = Some n" and "d \<in> set r"
  shows "indexOf r (Some n) < indexOf r (Some d) \<and> n \<in> set r \<and> PreferredTier req = ''''
    \<and> (MinTier req \<noteq> '''' \<longrightarrow> tierRank (MinTier req) \<le> tierRank (TierLabel n))"
proof -
  from assms(1) have t: "tierBelow r (TierLabel d) = Some n"
    and rest: "PreferredTier req = ''''" "MinTier req \<noteq> '''' \<longrightarrow> tierRank (MinTier req) \<le> tierRank (TierLabel n)"
    by (auto simp: oomFallbackTier_def split: option.splits if_splits)
  with cascade_decreases [OF assms(2), of False n] tierBelow_mem [OF t] show ?thesis by simp
qed

definition degraded :: "Request \<Rightarrow> ModelTierLabel \<Rightarrow> bool" where
  "degraded req l = (Priority req = ''high'' \<and> l = TierWeak)"

lemma markDegraded_props:
  "markDegraded b resp req d = (b', resp') \<Longrightarrow>
     wf_backend b' = wf_backend b \<and> roster b' = roster b \<and> opts b' = opts b \<and> sem b' = sem b \<and> inflight b' = inflight b
     \<and> loadedTier b' = loadedTier b
     \<and> resp' = resp\<lparr>QualityDegraded := (QualityDegraded resp \<or> degraded req (TierLabel d))\<rparr>"
  by (auto simp: markDegraded_def degraded_def wf_backend_def split: if_splits option.splits)

lemma evict_after_failure:
  assumes "wf_backend b" "evictLocked b = (b2, i)"
  shows "wf_backend b2 \<and> same_config b b2"
  using evictLocked_wf [OF assms(1)] evictLocked_frame [of b] assms(2) by auto

lemma inferLoop_props:
  assumes "wf_backend b" and "inferLoop n b s req forced = (b', s', r)"
  shows "wf_backend b' \<and> roster b' = roster b \<and> opts b' = opts b \<and> sem b' = sem b \<and> inflight b' = inflight b \<and>
    (\<forall>resp. r = Inr resp \<longrightarrow> (\<exists>d\<in>set (roster b). loadedTier b' = Some d \<and> ModelTier resp = TierLabel d
        \<and> (MinTier req \<noteq> '''' \<longrightarrow> tierRank (MinTier req) \<le> tierRank (TierLabel d))
        \<and> (PreferredTier req \<noteq> '''' \<longrightarrow> TierLabel d = PreferredTier req)
        \<and> (ImageData req \<noteq> [] \<longrightarrow> HasVision d)
        \<and> (degraded req (TierLabel d) \<longrightarrow> QualityDegraded resp)))"
  using assms
proof (induction n arbitrary: b s forced)
  case (Suc n)
  obtain b1 s1 r1 where S: "selectInner b s req forced = (b1, s1, r1)" by (cases "selectInner b s req forced")
  note P = selectInner_props [OF Suc.prems(1) S]
  then have wf1: "wf_backend b1" and ro: "roster b1 = roster b" "opts b1 = opts b" "sem b1 = sem b" "inflight b1 = inflight b"
    by (auto simp: same_config_def)
  show ?case
  proof (cases r1)
    case (Inl e)
    with Suc.prems S wf1 ro show ?thesis by auto
  next
    case (Inr di)
    obtain d i where di: "di = (d, i)" by (cases di)
    from P Inr di have d: "d \<in> set (roster b)" "loadedTier b1 = Some d" "matches None (ImageData req \<noteq> []) d"
        "MinTier req \<noteq> '''' \<longrightarrow> tierRank (MinTier req) \<le> tierRank (TierLabel d)"
        "PreferredTier req \<noteq> '''' \<longrightarrow> TierLabel d = PreferredTier req" by auto
    obtain s2 out where I: "do_call (inInfer i req) s1 = (s2, out)" by (cases "do_call (inInfer i req) s1")
    show ?thesis
    proof (cases out)
      case (Inr resp)
      obtain b2 resp' where M: "markDegraded b1 (resp\<lparr>ModelTier := TierLabel d\<rparr>) req d = (b2, resp')"
        by (cases "markDegraded b1 (resp\<lparr>ModelTier := TierLabel d\<rparr>) req d")
      with Suc.prems(2) S \<open>r1 = Inr di\<close> di I Inr have "b' = b2" "r = Inr resp'" by auto
      with markDegraded_props [OF M] wf1 ro d show ?thesis
        by (auto simp: matches_def split: if_splits)
    next
      case (Inl e)
      show ?thesis
      proof (cases "oomFallbackTier (roster b1) req d e")
        case None
        with Suc.prems(2) S \<open>r1 = Inr di\<close> di I Inl wf1 ro show ?thesis by auto
      next
        case (Some m)
        obtain b2 toStop where E: "evictLocked b1 = (b2, toStop)" by (cases "evictLocked b1")
        from evict_after_failure [OF wf1 E] ro
        have wf2: "wf_backend b2" and ro2: "roster b2 = roster b" "opts b2 = opts b" "sem b2 = sem b" "inflight b2 = inflight b"
          by (auto simp: same_config_def)
        from Suc.prems(2) S \<open>r1 = Inr di\<close> di I Inl Some E
        have "inferLoop n b2 (fst (stopInner toStop s2)) req (Some m) = (b', s', r)"
          by (auto simp: case_prod_beta)
        from Suc.IH [OF wf2 this] ro2 show ?thesis by simp
      qed
    qed
  qed
qed auto

lemma acquireSlot_wf:
  "wf_backend b \<Longrightarrow> int (sem b) < MaxParallel (opts b) \<Longrightarrow> wf_backend (acquireSlot b)"
  by (auto simp: wf_backend_def acquireSlot_def split: option.splits)

lemma releaseSlot_wf:
  "wf_backend b \<Longrightarrow> 0 < inflight b \<Longrightarrow> wf_backend (releaseSlot b)"
  by (auto simp: wf_backend_def releaseSlot_def split: option.splits)

text \<open>
  C7. \<open>Infer\<close> keeps the backend sound and gives back what it took. Started with a free slot, on
  every path (selection error, inference error, load-failure cascade, success) the invariant holds
  afterwards and the semaphore and the in-flight count are what they were before the call.
\<close>

theorem Infer_preserves_and_releases:
  assumes "wf_backend b" and "int (sem b) < MaxParallel (opts b)"
    and "Infer b s acquired req = (b', s', r)"
  shows "wf_backend b' \<and> sem b' = sem b \<and> inflight b' = inflight b \<and> roster b' = roster b"
proof (cases acquired)
  case False
  with assms show ?thesis by (auto simp: Infer_def)
next
  case True
  obtain b1 s1 r1 where L: "inferLoop (length (roster b)) (acquireSlot b) s req None = (b1, s1, r1)"
    by (cases "inferLoop (length (roster b)) (acquireSlot b) s req None")
  from True assms(3) L have b': "b' = releaseSlot b1" by (auto simp: Infer_def)
  from inferLoop_props [OF acquireSlot_wf [OF assms(1,2)] L]
  have P: "wf_backend b1" "roster b1 = roster b" "sem b1 = Suc (sem b)" "inflight b1 = inflight b + 1"
    by (auto simp: acquireSlot_def)
  moreover have "0 \<le> inflight b" using assms(1) by (simp add: wf_backend_def)
  ultimately show ?thesis using releaseSlot_wf [of b1] by (auto simp: b' releaseSlot_def)
qed

theorem Infer_preserves_and_releases_witness:
  "wf_backend (fst (Infer exampleBackend exampleSys True exampleReq)) \<and>
   sem (fst (Infer exampleBackend exampleSys True exampleReq)) = 0"
  using Infer_preserves_and_releases [OF exampleBackend_wf exampleBackend_slot, of exampleSys True exampleReq]
  by (cases "Infer exampleBackend exampleSys True exampleReq")
     (simp add: exampleBackend_def New_Backend_def)

text \<open>
  C6. An answered request says truthfully which tier answered and meets the caller's terms: the
  response names a roster tier that is still the loaded one, not below \<open>min_tier\<close>, equal to
  \<open>preferred_tier\<close> when pinned, vision-capable when an image was sent, and a high-priority request
  answered by the weak tier is always marked as degraded.
\<close>

theorem Infer_answer_meets_terms:
  assumes "wf_backend b" and "int (sem b) < MaxParallel (opts b)"
    and "Infer b s acquired req = (b', s', Ok resp)"
  shows "\<exists>d\<in>set (roster b). loadedTier b' = Some d \<and> ModelTier resp = TierLabel d
     \<and> (MinTier req \<noteq> '''' \<longrightarrow> tierRank (MinTier req) \<le> tierRank (TierLabel d))
     \<and> (PreferredTier req \<noteq> '''' \<longrightarrow> TierLabel d = PreferredTier req)
     \<and> (ImageData req \<noteq> [] \<longrightarrow> HasVision d)
     \<and> (Priority req = ''high'' \<and> TierLabel d = TierWeak \<longrightarrow> QualityDegraded resp)"
proof -
  obtain b1 s1 r1 where L: "inferLoop (length (roster b)) (acquireSlot b) s req None = (b1, s1, r1)"
    by (cases "inferLoop (length (roster b)) (acquireSlot b) s req None")
  with assms(3) have "b' = releaseSlot b1" "r1 = Inr resp" by (auto simp: Infer_def split: if_splits)
  with inferLoop_props [OF acquireSlot_wf [OF assms(1,2)] L] show ?thesis
    by (auto simp: acquireSlot_def releaseSlot_def degraded_def)
qed

theorem Infer_answer_meets_terms_witness:
  "\<exists>d\<in>set (roster exampleBackend).
     loadedTier (fst (Infer exampleBackend exampleSys True exampleReq)) = Some d \<and> TierLabel d = TierStrong"
proof -
  let ?r = "Infer exampleBackend exampleSys True exampleReq"
  let ?resp = "zeroResponse\<lparr>Output := ''hi'', ModelTier := ''strong''\<rparr>"
  have "snd (snd ?r) = Ok ?resp" by code_simp
  then have "?r = (fst ?r, fst (snd ?r), Ok ?resp)" by (simp add: prod_eq_iff)
  from Infer_answer_meets_terms [OF exampleBackend_wf exampleBackend_slot this]
  show ?thesis by (auto simp: TierStrong_def)
qed

text \<open>Extra rounds change nothing for the load-failure cascade either.\<close>

lemma inferLoop_Suc:
  assumes "wf_backend b" "roster b \<noteq> []" and "enough n (roster b) forced"
    and "\<forall>f. forced = Some f \<longrightarrow> f \<in> set (roster b) \<and> PreferredTier req = ''''"
  shows "inferLoop (Suc n) b s req forced = inferLoop n b s req forced"
  using assms
proof (induction n arbitrary: b s forced)
  case 0
  then have False using indexOf_Some by (fastforce simp: enough_def split: option.splits)
  then show ?case ..
next
  case (Suc n)
  obtain b1 s1 r1 where S: "selectInner b s req forced = (b1, s1, r1)" by (cases "selectInner b s req forced")
  note P = selectInner_props [OF Suc.prems(1) S]
  then have wf1: "wf_backend b1" and ro: "roster b1 = roster b" by (auto simp: same_config_def)
  have rec: "inferLoop (Suc n) b2 s3 req (Some m) = inferLoop n b2 s3 req (Some m)"
    if r: "r1 = Inr (d, i)" and m: "oomFallbackTier (roster b1) req d e = Some m"
      and E: "evictLocked b1 = (b2, t)" for d i e m b2 t s3
  proof (rule Suc.IH)
    from P r have d: "d \<in> set (roster b)"
      and f: "PreferredTier req = '''' \<longrightarrow> (\<forall>f. forced = Some f \<longrightarrow> indexOf (roster b) (Some d) \<le> indexOf (roster b) (Some f))"
      by auto
    from evict_after_failure [OF wf1 E] ro
    show "wf_backend b2" and "roster b2 \<noteq> []" using Suc.prems by (auto simp: same_config_def)
    have ro2: "roster b2 = roster b" using evict_after_failure [OF wf1 E] ro by (auto simp: same_config_def)
    from oomFallbackTier_props [OF m] d ro
    have lt: "indexOf (roster b) (Some m) < indexOf (roster b) (Some d)" "m \<in> set (roster b)" "PreferredTier req = ''''"
      by auto
    have "indexOf (roster b) (Some d) \<le> Suc n"
      using Suc.prems(3) f lt(3) indexOf_le_length [of "roster b" "Some d"]
      by (fastforce simp: enough_def split: option.splits)
    with lt show "enough n (roster b2) (Some m)" by (simp add: enough_def ro2)
    show "\<forall>f. Some m = Some f \<longrightarrow> f \<in> set (roster b2) \<and> PreferredTier req = ''''"
      using lt by (simp add: ro2)
  qed
  show ?case
    unfolding inferLoop.simps(2) [of "Suc n"] inferLoop.simps(2) [of n b s] S
    by (auto simp: rec simp del: inferLoop.simps split: sum.split option.split prod.split)
qed

text \<open>
  C8. The load-failure cascade of \<open>Infer\<close> ends by itself: each failed load moves to a strictly
  smaller roster tier, so with at least one tier configured the round bound is never exhausted and
  the closing "all model tiers failed to load" answer is unreachable; the caller sees the real error
  of the last tier tried.
\<close>

theorem Infer_cascade_bound_unreachable:
  assumes "wf_backend b" and "roster b \<noteq> []"
  shows "inferLoop (length (roster b) + k) b s req None = inferLoop (length (roster b)) b s req None"
proof (induction k)
  case (Suc k)
  have "enough (length (roster b) + k) (roster b) None" by (simp add: enough_def)
  from inferLoop_Suc [OF assms this] Suc show ?case by simp
qed simp

theorem Infer_cascade_bound_unreachable_witness:
  "inferLoop (length (roster exampleBackend) + 3) exampleBackend exampleSys exampleReq None
   = inferLoop (length (roster exampleBackend)) exampleBackend exampleSys exampleReq None"
  by (rule Infer_cascade_bound_unreachable [OF exampleBackend_wf]) (simp add: exampleBackend_roster)

end
