(* ===== verification/Vram_Concurrency.thy ===== *)
theory Vram_Concurrency
  imports Eviction Vram_Select_Props
begin

text \<open>
  The VRAM backend under concurrency: any number of requests, the eviction loop and the outside
  world, interleaved. A request waits for a slot, counts itself in, selects and loads a tier, runs
  on it, and leaves; \<open>loadMu\<close> serialises the selections, so a selection is one step. The outside
  world may change free VRAM and let time pass at any moment.
\<close>

section \<open>States and steps\<close>

datatype 'w reqPhase =
    Waiting
  | Slotted
  | Admitted "ModelDescriptor option"
  | Running ModelDescriptor "'w inner_backend"
  | Finishing
  | Leaving
  | Finished

record 'w conc =
  cb :: "'w Backend"
  cs :: "'w sys"
  reqs :: "(Request \<times> 'w reqPhase) list"
  ev :: "'w evictor"

fun holdsSlot :: "'w reqPhase \<Rightarrow> bool" where
  "holdsSlot Waiting = False"
| "holdsSlot Finished = False"
| "holdsSlot _ = True"

fun isInflight :: "'w reqPhase \<Rightarrow> bool" where
  "isInflight (Admitted f) = True"
| "isInflight (Running d i) = True"
| "isInflight Finishing = True"
| "isInflight _ = False"

definition inPhase :: "'w conc \<Rightarrow> nat \<Rightarrow> Request \<Rightarrow> 'w reqPhase \<Rightarrow> bool" where
  "inPhase c i r p = (i < length (reqs c) \<and> reqs c ! i = (r, p))"

definition goto :: "'w conc \<Rightarrow> nat \<Rightarrow> 'w reqPhase \<Rightarrow> 'w conc" where
  "goto c i p = c\<lparr>reqs := (reqs c)[i := (fst (reqs c ! i), p)]\<rparr>"

text \<open>What one request does on its own.\<close>

inductive req_step :: "'w conc \<Rightarrow> 'w conc \<Rightarrow> bool" where
  acquire: "\<lbrakk>inPhase c i r Waiting; int (sem (cb c)) < MaxParallel (opts (cb c))\<rbrakk> \<Longrightarrow>
     req_step c (goto (c\<lparr>cb := (cb c)\<lparr>sem := Suc (sem (cb c))\<rparr>\<rparr>) i Slotted)"
| admit: "inPhase c i r Slotted \<Longrightarrow>
     req_step c (goto (c\<lparr>cb := (cb c)\<lparr>inflight := inflight (cb c) + 1\<rparr>\<rparr>) i (Admitted None))"
| select_err: "\<lbrakk>inPhase c i r (Admitted f); selectInner (cb c) (cs c) r f = (b, s, Inl e)\<rbrakk> \<Longrightarrow>
     req_step c (goto (c\<lparr>cb := b, cs := s\<rparr>) i Finishing)"
| select_ok: "\<lbrakk>inPhase c i r (Admitted f); selectInner (cb c) (cs c) r f = (b, s, Inr (d, inner))\<rbrakk> \<Longrightarrow>
     req_step c (goto (c\<lparr>cb := b, cs := s\<rparr>) i (Running d inner))"
| run_ok: "\<lbrakk>inPhase c i r (Running d inner); do_call (inInfer inner r) (cs c) = (s, Inr resp)\<rbrakk> \<Longrightarrow>
     req_step c (goto (c\<lparr>cb := fst (markDegraded (cb c) (resp\<lparr>ModelTier := TierLabel d\<rparr>) r d), cs := s\<rparr>) i Finishing)"
| run_err: "\<lbrakk>inPhase c i r (Running d inner); do_call (inInfer inner r) (cs c) = (s, Inl e);
      oomFallbackTier (roster (cb c)) r d e = None\<rbrakk> \<Longrightarrow>
     req_step c (goto (c\<lparr>cs := s\<rparr>) i Finishing)"
| cascade: "\<lbrakk>inPhase c i r (Running d inner); do_call (inInfer inner r) (cs c) = (s, Inl e);
      oomFallbackTier (roster (cb c)) r d e = Some n; evictLocked (cb c) = (b, toStop)\<rbrakk> \<Longrightarrow>
     req_step c (goto (c\<lparr>cb := b, cs := fst (stopInner toStop s)\<rparr>) i (Admitted (Some n)))"
| leave: "inPhase c i r Finishing \<Longrightarrow>
     req_step c (goto (c\<lparr>cb := (cb c)\<lparr>inflight := inflight (cb c) - 1\<rparr>\<rparr>) i Leaving)"
| release: "inPhase c i r Leaving \<Longrightarrow>
     req_step c (goto (c\<lparr>cb := (cb c)\<lparr>sem := sem (cb c) - 1\<rparr>\<rparr>) i Finished)"

text \<open>What the eviction goroutine (and the sweep it started) does.\<close>

inductive ev_step :: "'w conc \<Rightarrow> 'w conc \<Rightarrow> bool" where
  ev_tick: "phase (ev c) = EvWait \<Longrightarrow> ev_step c (c\<lparr>ev := evictTick (cb c) (ev c)\<rparr>)"
| ev_check: "\<lbrakk>phase (ev c) = EvCheck; evictCheck (cb c) (cs c) (ev c) = (b, e)\<rbrakk> \<Longrightarrow>
     ev_step c (c\<lparr>cb := b, ev := e\<rparr>)"
| ev_pressure: "\<lbrakk>phase (ev c) = EvPressure d l v; evictPressure (cb c) (cs c) d l v (ev c) = (s, e)\<rbrakk> \<Longrightarrow>
     ev_step c (c\<lparr>cs := s, ev := e\<rparr>)"
| ev_recheck: "\<lbrakk>phase (ev c) = EvRecheck; evictRecheck (cb c) (cs c) (ev c) = (b, e)\<rbrakk> \<Longrightarrow>
     ev_step c (c\<lparr>cb := b, ev := e\<rparr>)"
| ev_stop: "\<lbrakk>phase (ev c) = EvStop i idle; evictStop (cb c) (cs c) i idle (ev c) = (s, e)\<rbrakk> \<Longrightarrow>
     ev_step c (c\<lparr>cs := s, ev := e\<rparr>)"
| sweep_done: "sweeping (ev c) \<Longrightarrow> ev_step c (c\<lparr>ev := (ev c)\<lparr>sweeping := False\<rparr>\<rparr>)"

text \<open>Arrivals, callers that give up while waiting, and the outside world.\<close>

inductive env_step :: "'w conc \<Rightarrow> 'w conc \<Rightarrow> bool" where
  arrive: "env_step c (c\<lparr>reqs := reqs c @ [(r, Waiting)]\<rparr>)"
| give_up: "inPhase c i r Waiting \<Longrightarrow> env_step c (goto c i Finished)"
| external: "clock (cs c) \<le> clock s \<Longrightarrow> env_step c (c\<lparr>cs := s\<rparr>)"

inductive reachable :: "'w conc \<Rightarrow> 'w conc \<Rightarrow> bool" for c0 where
  start: "reachable c0 c0"
| by_req: "reachable c0 c \<Longrightarrow> req_step c c' \<Longrightarrow> reachable c0 c'"
| by_ev: "reachable c0 c \<Longrightarrow> ev_step c c' \<Longrightarrow> reachable c0 c'"
| by_env: "reachable c0 c \<Longrightarrow> env_step c c' \<Longrightarrow> reachable c0 c'"

inductive_cases ev_stepE: "ev_step c c'"
inductive_cases env_stepE: "env_step c c'"

definition initConc :: "'w Backend \<Rightarrow> 'w sys \<Rightarrow> 'w conc" where
  "initConc b s = \<lparr>cb = b, cs = s, reqs = [],
     ev = \<lparr>tick = 0, sweeping = False, sweeps = 0, phase = EvWait\<rparr>\<rparr>"

section \<open>The accounting invariant\<close>

definition conc_inv :: "'w conc \<Rightarrow> bool" where
  "conc_inv c = (wf_backend (cb c)
     \<and> inflight (cb c) = count_if (isInflight \<circ> snd) (reqs c)
     \<and> int (sem (cb c)) = count_if (holdsSlot \<circ> snd) (reqs c))"

lemma goto_fields [simp]:
  "cb (goto c i p) = cb c" "cs (goto c i p) = cs c" "ev (goto c i p) = ev c"
  by (simp_all add: goto_def)

lemma count_goto [simp]:
  assumes "i < length (reqs c)" and "reqs c ! i = (r, p)"
  shows "count_if (P \<circ> snd) (reqs (goto c i q)) = count_if (P \<circ> snd) (reqs c) - of_bool (P p) + of_bool (P q)"
  using assms by (simp add: goto_def count_if_update)

lemma inflight_holds: "isInflight p \<Longrightarrow> holdsSlot p"
  by (cases p) auto

lemma wf_sem: "wf_backend b \<Longrightarrow> int n \<le> MaxParallel (opts b) \<Longrightarrow> wf_backend (b\<lparr>sem := n\<rparr>)"
  by (auto simp: wf_backend_def split: option.splits)

lemma wf_inflight: "wf_backend b \<Longrightarrow> 0 \<le> k \<Longrightarrow> wf_backend (b\<lparr>inflight := k\<rparr>)"
  by (auto simp: wf_backend_def split: option.splits)

lemma markDegraded_wf:
  "wf_backend (fst (markDegraded b resp r d)) = wf_backend b"
  "sem (fst (markDegraded b resp r d)) = sem b" "inflight (fst (markDegraded b resp r d)) = inflight b"
  "roster (fst (markDegraded b resp r d)) = roster b"
  using markDegraded_props [of b resp r d] by (cases "markDegraded b resp r d"; simp)+

lemma req_step_inv [inv_intro]:
  assumes "req_step c c'" and "conc_inv c"
  shows "conc_inv c'"
  using assms
proof (cases rule: req_step.cases)
  case (acquire i r)
  with assms(2) show ?thesis by (auto simp: conc_inv_def inPhase_def intro: wf_sem wf_inflight)
next
  case (admit i r)
  moreover have "0 \<le> inflight (cb c)" using assms(2) by (simp add: conc_inv_def wf_backend_def)
  ultimately show ?thesis using assms(2) by (auto simp: conc_inv_def inPhase_def intro: wf_sem wf_inflight)
next
  case (select_err i r f b s e)
  with assms(2) selectInner_props [of "cb c" "cs c" r f b s] show ?thesis
    by (auto simp: conc_inv_def inPhase_def same_config_def)
next
  case (select_ok i r f b s d inner)
  with assms(2) selectInner_props [of "cb c" "cs c" r f b s] show ?thesis
    by (auto simp: conc_inv_def inPhase_def same_config_def)
next
  case (run_ok i r d inner s resp)
  with assms(2) show ?thesis by (auto simp: conc_inv_def inPhase_def markDegraded_wf)
next
  case (run_err i r d inner s e)
  with assms(2) show ?thesis by (auto simp: conc_inv_def inPhase_def)
next
  case (cascade i r d inner s e n b toStop)
  with assms(2) evict_after_failure [of "cb c" b toStop] show ?thesis
    by (auto simp: conc_inv_def inPhase_def same_config_def)
next
  case (leave i r)
  then have "0 < inflight (cb c)" using assms(2) count_if_pos [of i "reqs c" "isInflight \<circ> snd"]
    by (simp add: conc_inv_def inPhase_def)
  with leave assms(2) show ?thesis by (auto simp: conc_inv_def inPhase_def intro: wf_sem wf_inflight)
next
  case (release i r)
  then have "0 < sem (cb c)" using assms(2) count_if_pos [of i "reqs c" "holdsSlot \<circ> snd"]
    by (simp add: conc_inv_def inPhase_def)
  moreover have "int (sem (cb c)) \<le> MaxParallel (opts (cb c))" using assms(2) by (simp add: conc_inv_def wf_backend_def)
  ultimately show ?thesis using release assms(2)
    by (auto simp: conc_inv_def inPhase_def intro!: wf_sem)
qed

lemma ev_step_inv [inv_intro]:
  assumes "ev_step c c'" and "conc_inv c"
  shows "conc_inv c'"
  using assms
  by (auto elim!: ev_stepE simp: conc_inv_def)
     (metis evictor_wf evictor_frame same_config_def fst_conv)+

lemma env_step_inv [inv_intro]:
  assumes "env_step c c'" and "conc_inv c"
  shows "conc_inv c'"
  using assms by (auto elim!: env_stepE simp: conc_inv_def inPhase_def)

lemma reachable_inv: "reachable c0 c \<Longrightarrow> conc_inv c0 \<Longrightarrow> conc_inv c"
  by (induction rule: reachable.induct) (auto intro: inv_intro)

lemma initConc_inv:
  "wf_backend b \<Longrightarrow> sem b = 0 \<Longrightarrow> inflight b = 0 \<Longrightarrow> conc_inv (initConc b s)"
  by (simp add: conc_inv_def initConc_def)

text \<open>
  C9. Under every interleaving of requests, eviction ticks and outside interference the concurrency
  accounting is exact: the semaphore equals the number of requests holding a slot and never exceeds
  \<open>MaxParallel\<close>, and \<open>inflight\<close> equals the number of requests between admission and departure.
\<close>

theorem slots_accounted:
  assumes "wf_backend b" "sem b = 0" "inflight b = 0" and "reachable (initConc b s) c"
  shows "wf_backend (cb c)
    \<and> int (sem (cb c)) = count_if (holdsSlot \<circ> snd) (reqs c)
    \<and> inflight (cb c) = count_if (isInflight \<circ> snd) (reqs c)
    \<and> count_if (isInflight \<circ> snd) (reqs c) \<le> MaxParallel (opts (cb c))"
proof -
  from reachable_inv [OF assms(4) initConc_inv [OF assms(1-3)]] have i: "conc_inv c" .
  then have "int (sem (cb c)) \<le> MaxParallel (opts (cb c))" by (simp add: conc_inv_def wf_backend_def)
  moreover have "count_if (isInflight \<circ> snd) (reqs c) \<le> count_if (holdsSlot \<circ> snd) (reqs c)"
    by (rule count_if_mono) (auto simp: inflight_holds)
  ultimately show ?thesis using i by (simp add: conc_inv_def)
qed

lemma ev_step_busy:
  assumes "ev_step c c'" and "inflight (cb c) > 0"
  shows "cb c' = cb c"
  using assms by (auto elim!: ev_stepE dest: evictCheck_busy evictRecheck_busy)
    (metis evictCheck_busy evictRecheck_busy fst_conv)+


text \<open>A request holding a slot can always move, whatever the others do.\<close>

lemma holder_can_step:
  assumes "i < length (reqs c)" and "holdsSlot (snd (reqs c ! i))"
  shows "\<exists>c'. req_step c c'"
proof (cases "snd (reqs c ! i)")
  case Slotted
  with assms show ?thesis by (metis admit inPhase_def prod.collapse)
next
  case (Admitted f)
  then have a: "inPhase c i (fst (reqs c ! i)) (Admitted f)" using assms by (simp add: inPhase_def prod_eq_iff)
  obtain b s r where S: "selectInner (cb c) (cs c) (fst (reqs c ! i)) f = (b, s, r)" by (metis prod.exhaust)
  show ?thesis
  proof (cases r)
    case (Inl e)
    with a S show ?thesis by (blast intro: select_err)
  next
    case (Inr di)
    with a S show ?thesis by (cases di) (blast intro: select_ok)
  qed
next
  case (Running d inner)
  then have a: "inPhase c i (fst (reqs c ! i)) (Running d inner)" using assms by (simp add: inPhase_def prod_eq_iff)
  obtain s out where R: "do_call (inInfer inner (fst (reqs c ! i))) (cs c) = (s, out)" by (metis prod.exhaust)
  show ?thesis
  proof (cases out)
    case (Inl e)
    show ?thesis
    proof (cases "oomFallbackTier (roster (cb c)) (fst (reqs c ! i)) d e")
      case None
      with a R Inl show ?thesis by (blast intro: run_err)
    next
      case (Some n)
      obtain b t where "evictLocked (cb c) = (b, t)" by (metis prod.exhaust)
      with a R Inl Some show ?thesis by (blast intro: cascade)
    qed
  next
    case (Inr resp)
    with a R show ?thesis by (blast intro: run_ok)
  qed
next
  case Finishing
  with assms show ?thesis by (metis leave inPhase_def prod.collapse)
next
  case Leaving
  with assms show ?thesis by (metis release inPhase_def prod.collapse)
qed (use assms in auto)


section \<open>Concrete runs\<close>

lemma exampleBackend_fresh: "sem exampleBackend = 0" "inflight exampleBackend = 0"
  by (simp_all add: exampleBackend_def New_Backend_def)

definition exampleStart :: "int conc" where
  "exampleStart = initConc exampleBackend exampleSys"

definition exampleArrived :: "int conc" where
  "exampleArrived = exampleStart\<lparr>reqs := reqs exampleStart @ [(exampleReq, Waiting)]\<rparr>"

definition exampleAcquired :: "int conc" where
  "exampleAcquired = goto (exampleArrived\<lparr>cb := (cb exampleArrived)\<lparr>sem := Suc (sem (cb exampleArrived))\<rparr>\<rparr>) 0 Slotted"

lemma exampleArrived_reachable: "reachable (initConc exampleBackend exampleSys) exampleArrived"
  unfolding exampleArrived_def exampleStart_def by (rule by_env [OF start arrive])

lemma exampleAcquired_reachable: "reachable (initConc exampleBackend exampleSys) exampleAcquired"
  unfolding exampleAcquired_def
  by (rule by_req [OF exampleArrived_reachable acquire])
     (auto simp: inPhase_def exampleArrived_def exampleStart_def initConc_def exampleBackend_def
       New_Backend_def DefaultOptions_def)

theorem slots_accounted_witness:
  "int (sem (cb exampleAcquired)) = count_if (holdsSlot \<circ> snd) (reqs exampleAcquired)
   \<and> sem (cb exampleAcquired) = 1"
  using slots_accounted [OF exampleBackend_wf exampleBackend_fresh exampleAcquired_reachable]
  by (simp add: exampleAcquired_def exampleArrived_def exampleStart_def initConc_def exampleBackend_fresh)


text \<open>The eviction loop on a model that has been idle for half a minute.\<close>

definition exampleLoaded :: "int Backend" where
  "exampleLoaded = exampleBackend\<lparr>loadedTier := Some exampleStrong, loadedLayers := 11,
     loadedAt := Some 0, lastUsed := Some 0\<rparr>"

definition exampleLater :: "int sys" where "exampleLater = \<lparr>clock = 30000, ext = 3000\<rparr>"

definition exampleTicked :: "int conc" where
  "exampleTicked = (initConc exampleLoaded exampleLater)\<lparr>ev := evictTick exampleLoaded (ev (initConc exampleLoaded exampleLater))\<rparr>"

lemma exampleLoaded_wf: "wf_backend exampleLoaded"
proof -
  have "\<not> loadedVision exampleBackend" by (simp add: exampleBackend_def New_Backend_def)
  with exampleBackend_wf show ?thesis by (simp add: wf_backend_def exampleLoaded_def exampleBackend_roster)
qed

lemma exampleTicked_reachable: "reachable (initConc exampleLoaded exampleLater) exampleTicked"
  unfolding exampleTicked_def
  using by_ev [OF start ev_tick, of "initConc exampleLoaded exampleLater"] by (simp add: initConc_def)


section \<open>What the in-flight check does not cover\<close>

text \<open>
  Only the eviction loop looks at \<open>inflight\<close>. A selection does not: with two slots, a request that
  pins the weak tier evicts and stops the strong model while another request is still running on it.
\<close>

definition examplePin :: "string \<Rightarrow> Request" where
  "examplePin l = zeroRequest\<lparr>Prompt := ''hello'', PreferredTier := l\<rparr>"

definition exampleTwo :: "int conc" where
  "exampleTwo = \<lparr>cb = exampleBackend\<lparr>sem := 2, inflight := 2\<rparr>, cs = exampleSys,
     reqs = [(examplePin TierStrong, Admitted None), (examplePin TierWeak, Admitted None)],
     ev = ev exampleStart\<rparr>"

lemma exampleTwo_reachable: "reachable (initConc exampleBackend exampleSys) exampleTwo"
proof -
  let ?r0 = "examplePin TierStrong" and ?r1 = "examplePin TierWeak"
  let ?st = "\<lambda>n k ps. \<lparr>cb = exampleBackend\<lparr>sem := n, inflight := k\<rparr>, cs = exampleSys, reqs = ps, ev = ev exampleStart\<rparr>"
  note defs = initConc_def exampleStart_def goto_def inPhase_def exampleBackend_def New_Backend_def DefaultOptions_def
  have 0: "initConc exampleBackend exampleSys = ?st 0 0 []" by (simp add: defs)
  note arr = by_env [OF _ arrive] and acq = by_req [OF _ acquire] and adm = by_req [OF _ admit]
  have "reachable (?st 0 0 []) (?st 0 0 [(?r0, Waiting)])" using arr [OF start, of "?st 0 0 []" ?r0] by simp
  from arr [OF this, of ?r1] have "reachable (?st 0 0 []) (?st 0 0 [(?r0, Waiting), (?r1, Waiting)])" by simp
  from acq [OF this, of 0 ?r0] have "reachable (?st 0 0 []) (?st 1 0 [(?r0, Slotted), (?r1, Waiting)])" by (simp add: defs)
  from acq [OF this, of 1 ?r1] have "reachable (?st 0 0 []) (?st 2 0 [(?r0, Slotted), (?r1, Slotted)])"
    by (simp add: defs numeral_2_eq_2)
  from adm [OF this, of 0 ?r0] have "reachable (?st 0 0 []) (?st 2 1 [(?r0, Admitted None), (?r1, Slotted)])" by (simp add: defs)
  from adm [OF this, of 1 ?r1] show ?thesis unfolding 0 by (simp add: exampleTwo_def defs)
qed

lemma select_reachable:
  assumes "reachable c0 c" "inPhase c i r (Admitted f)"
    and "map_sum id fst (snd (snd (selectInner (cb c) (cs c) r f))) = Ok d"
  shows "\<exists>inner. reachable c0 (goto (c\<lparr>cb := fst (selectInner (cb c) (cs c) r f),
      cs := fst (snd (selectInner (cb c) (cs c) r f))\<rparr>) i (Running d inner))"
proof -
  let ?S = "selectInner (cb c) (cs c) r f"
  from assms(3) obtain inner where "snd (snd ?S) = Inr (d, inner)" by (cases "snd (snd ?S)") auto
  then have "?S = (fst ?S, fst (snd ?S), Inr (d, inner))" by (simp add: prod_eq_iff)
  from by_req [OF assms(1) select_ok [OF assms(2) this]] show ?thesis by blast
qed

lemma selection_may_stop_a_running_model:
  "\<exists>c i0 i1. reachable (initConc exampleBackend exampleSys) c
     \<and> inPhase c 0 (examplePin TierStrong) (Running exampleStrong i0)
     \<and> inPhase c 1 (examplePin TierWeak) (Running exampleWeak i1)
     \<and> loadedTier (cb c) = Some exampleWeak"
proof -
  let ?S0 = "selectInner (cb exampleTwo) exampleSys (examplePin TierStrong) None"
  let ?S1 = "selectInner (fst ?S0) (fst (snd ?S0)) (examplePin TierWeak) None"
  have s0: "map_sum id fst (snd (snd ?S0)) = Ok exampleStrong" by code_simp
  have s1: "map_sum id fst (snd (snd ?S1)) = Ok exampleWeak" by code_simp
  have l1: "loadedTier (fst ?S1) = Some exampleWeak" by code_simp
  have p: "inPhase exampleTwo 0 (examplePin TierStrong) (Admitted None)" "cs exampleTwo = exampleSys"
    by (simp_all add: exampleTwo_def inPhase_def)
  from select_reachable [OF exampleTwo_reachable p(1)] s0 p(2) obtain i0
    where r1: "reachable (initConc exampleBackend exampleSys)
      (goto (exampleTwo\<lparr>cb := fst ?S0, cs := fst (snd ?S0)\<rparr>) 0 (Running exampleStrong i0))" by auto
  let ?c = "goto (exampleTwo\<lparr>cb := fst ?S0, cs := fst (snd ?S0)\<rparr>) 0 (Running exampleStrong i0)"
  have q: "inPhase ?c 1 (examplePin TierWeak) (Admitted None)"
    by (simp add: exampleTwo_def inPhase_def goto_def)
  from select_reachable [OF r1 q] s1 obtain i1
    where r2: "reachable (initConc exampleBackend exampleSys)
      (goto (?c\<lparr>cb := fst ?S1, cs := fst (snd ?S1)\<rparr>) 1 (Running exampleWeak i1))" by auto
  moreover have "inPhase (goto (?c\<lparr>cb := fst ?S1, cs := fst (snd ?S1)\<rparr>) 1 (Running exampleWeak i1)) 0
      (examplePin TierStrong) (Running exampleStrong i0)"
    and "inPhase (goto (?c\<lparr>cb := fst ?S1, cs := fst (snd ?S1)\<rparr>) 1 (Running exampleWeak i1)) 1
      (examplePin TierWeak) (Running exampleWeak i1)"
    by (simp_all add: exampleTwo_def inPhase_def goto_def)
  ultimately show ?thesis using l1 by fastforce
qed

end
