(* ===== verification/System.thy ===== *)
theory System
  imports Server_Http Vram_Concurrency Dispatch
begin

text \<open>
  The wiring of \<open>src/cmd/server/main.go\<close>: the HTTP server's backend for both modalities is the one
  VRAM-managed backend. Here the abstract backend of the server theories is instantiated by the model
  of \<open>vram.go\<close>, so that facts about tier selection carry through the handlers to the reply. The world
  the server calls into is the VRAM backend together with the system below it.
\<close>

section \<open>The VRAM backend as the server's backend\<close>

type_synonym 'w world = "'w Backend \<times> 'w sys"

definition hasSlot :: "'w Backend \<Rightarrow> bool" where
  "hasSlot b = (int (sem b) < MaxParallel (opts b))"

definition vramServed :: "'w world srvBackend" where
  "vramServed =
     \<lparr>sbInfer = (\<lambda>req (b, s). case Infer b s (hasSlot b) req of
          (b', s', r) \<Rightarrow> ((b', s'), nat (clock s' - clock s), r)),
      sbStream = Some (\<lambda>req (b, s). case InferStream b s (hasSlot b) req of
          (b', s', chunks, resp, err) \<Rightarrow> ((b', s'), nat (clock s' - clock s), chunks, resp, err))\<rparr>"

definition backendsOf :: "string \<rightharpoonup> 'w world srvBackend" where
  "backendsOf = [''text'' \<mapsto> vramServed, ''vision'' \<mapsto> vramServed]"

text \<open>A sound, idle-enough world, and a request that the weak tier must not answer.\<close>

definition goodWorld :: "'w world \<Rightarrow> bool" where
  "goodWorld w = (wf_backend (fst w) \<and> hasSlot (fst w))"

definition needsCapable :: "Request \<Rightarrow> bool" where
  "needsCapable req = (MinTier req \<in> {''mid'', ''strong''} \<or> PreferredTier req \<in> {''mid'', ''strong''})"

text \<open>The services beside the backend (VRAM sensor, relay, web search) do not touch it.\<close>

definition leavesBackend :: "('w world, 'r) call \<Rightarrow> bool" where
  "leavesBackend f = (\<forall>w. fst (fst (f w)) = fst w)"

definition servicesApart :: "'w world toolEnv \<Rightarrow> 'w world Server \<Rightarrow> bool" where
  "servicesApart env srv =
     ((\<forall>srch q. toolSearcher env = Some srch \<longrightarrow> leavesBackend (srch q))
      \<and> (\<forall>v. vramSrc srv = Some v \<longrightarrow> leavesBackend v)
      \<and> (\<forall>r cid req. relay srv = Some r \<longrightarrow> leavesBackend (relEnqueue r cid req)))"

text \<open>The tiers a reply names.\<close>

definition replyTiers :: "reply \<Rightarrow> string list" where
  "replyTiers rep = (case rep of
       Http resp \<Rightarrow> (case hr_body resp of InferBody r \<Rightarrow> [is_ModelTier r] | _ \<Rightarrow> [])
     | Sse evs \<Rightarrow> concat (map (\<lambda>e. case e of DoneEv d \<Rightarrow> [sd_ModelTier d] | _ \<Rightarrow> []) evs))"

section \<open>Selection facts, through the handlers\<close>

lemma capable_tier:
  assumes "needsCapable req"
    and "MinTier req \<noteq> '''' \<longrightarrow> tierRank (MinTier req) \<le> tierRank t"
    and "PreferredTier req \<noteq> '''' \<longrightarrow> t = PreferredTier req"
  shows "t \<noteq> TierWeak"
proof
  assume t: "t = TierWeak"
  with assms(3) have "PreferredTier req \<notin> {''mid'', ''strong''}" by (auto simp: TierWeak_def)
  with assms(1) have "0 < tierRank (MinTier req)" "MinTier req \<noteq> ''''"
    by (auto simp: needsCapable_def tierRank_def TierMid_def TierStrong_def)
  with assms(2) t show False by (simp add: tierRank_def TierWeak_def TierMid_def TierStrong_def)
qed

lemma do_call_ext: "do_call f s = (s', r) \<Longrightarrow> ext s' = fst (f (ext s)) \<and> r = snd (snd (f (ext s)))"
  by (auto simp: do_call_def split: prod.splits)

lemma leavesBackend_good:
  assumes "leavesBackend f" "do_call f s = (s', r)" "goodWorld (ext s)"
  shows "goodWorld (ext s')"
  using assms(1,3) do_call_ext [OF assms(2)] by (cases "ext s") (simp add: leavesBackend_def goodWorld_def)

text \<open>What one turn on the VRAM backend promises, blocking or streamed.\<close>

lemma release_good:
  assumes "wf_backend b" "hasSlot b" "wf_backend b1" "opts b1 = opts b" "sem b1 = Suc (sem b)" "inflight b1 = inflight b + 1"
  shows "wf_backend (releaseSlot b1) \<and> hasSlot (releaseSlot b1)"
proof
  have "0 \<le> inflight b" using assms(1) by (simp add: wf_backend_def)
  with assms show "wf_backend (releaseSlot b1)" by (intro releaseSlot_wf) auto
  from assms show "hasSlot (releaseSlot b1)" by (simp add: hasSlot_def releaseSlot_def)
qed

lemma vramServed_Infer:
  assumes "goodWorld (ext s)" and "do_call (sbInfer vramServed req) s = (s', r)"
  shows "goodWorld (ext s') \<and> (\<forall>resp. r = Ok resp \<and> needsCapable req \<longrightarrow> ModelTier resp \<noteq> TierWeak)"
proof -
  obtain b w where e: "ext s = (b, w)" by fastforce
  with assms(1) have wf: "wf_backend b" and sl: "hasSlot b" by (auto simp: goodWorld_def)
  then have sl': "int (sem b) < MaxParallel (opts b)" by (simp add: hasSlot_def)
  obtain b1 w1 r1 where L: "inferLoop (length (roster b)) (acquireSlot b) w req None = (b1, w1, r1)"
    by (metis prod_cases3)
  note P = inferLoop_props [OF acquireSlot_wf [OF wf sl'] L]
  have x: "ext s' = (releaseSlot b1, w1)" "r = r1" using do_call_ext [OF assms(2)] e sl L
    by (simp_all add: vramServed_def Infer_def)
  have "wf_backend (releaseSlot b1) \<and> hasSlot (releaseSlot b1)"
    using P by (intro release_good [OF wf sl]) (auto simp: acquireSlot_def)
  moreover have "ModelTier resp \<noteq> TierWeak" if "r = Ok resp" "needsCapable req" for resp
    using P that capable_tier [OF that(2), of "ModelTier resp"] x(2) by auto
  ultimately show ?thesis using x by (auto simp: goodWorld_def)
qed

lemma vramServed_stream:
  assumes "goodWorld (ext s)" and "sbStream vramServed = Some stream"
    and "do_call (stream req) s = (s', chunks, resp, err)" and "needsCapable req"
  shows "goodWorld (ext s') \<and> ModelTier resp \<noteq> TierWeak"
proof -
  obtain b w where e: "ext s = (b, w)" by fastforce
  with assms(1) have wf: "wf_backend b" and sl: "hasSlot b" by (auto simp: goodWorld_def)
  then have sl': "int (sem b) < MaxParallel (opts b)" by (simp add: hasSlot_def)
  obtain b1 w1 r1 where S: "selectInner (acquireSlot b) w req None = (b1, w1, r1)" by (metis prod_cases3)
  note P = selectInner_props [OF acquireSlot_wf [OF wf sl'] S]
  then have b1: "wf_backend b1" "opts b1 = opts b" "sem b1 = Suc (sem b)" "inflight b1 = inflight b + 1"
    by (auto simp: same_config_def acquireSlot_def)
  have st: "stream = (\<lambda>req (b, s). case InferStream b s (hasSlot b) req of
          (b', s', chunks, resp, err) \<Rightarrow> ((b', s'), nat (clock s' - clock s), chunks, resp, err))"
    using assms(2) by (simp add: vramServed_def)
  show ?thesis
  proof (cases r1)
    case (Inl err')
    with do_call_ext [OF assms(3)] e sl S st have "ext s' = (releaseSlot b1, w1)" "resp = zeroResponse"
      by (simp_all add: InferStream_def)
    with release_good [OF wf sl b1] show ?thesis by (simp add: goodWorld_def zeroResponse_def TierWeak_def)
  next
    case (Inr di)
    obtain d i where di: "di = (d, i)" by fastforce
    have t: "TierLabel d \<noteq> TierWeak" using P Inr di by (intro capable_tier [OF assms(4)]) auto
    obtain w2 cs out where I: "streamInner i req w1 = (w2, cs, out)" by (metis prod_cases3)
    show ?thesis
    proof (cases out)
      case (Inl err')
      with do_call_ext [OF assms(3)] e sl S st Inr di I
      have "ext s' = (releaseSlot b1, w2)" "resp = zeroResponse\<lparr>ModelTier := TierLabel d\<rparr>"
        by (simp_all add: InferStream_def)
      with t release_good [OF wf sl b1] show ?thesis by (simp add: goodWorld_def)
    next
      case (Inr resp0)
      obtain b2 resp' where M: "markDegraded b1 (resp0\<lparr>ModelTier := TierLabel d\<rparr>) req d = (b2, resp')" by fastforce
      with do_call_ext [OF assms(3)] e sl S st \<open>r1 = Inr di\<close> di I Inr
      have x: "ext s' = (releaseSlot b2, w2)" "resp = resp'" by (simp_all add: InferStream_def)
      from markDegraded_props [OF M] b1
      have "wf_backend b2" "opts b2 = opts b" "sem b2 = Suc (sem b)" "inflight b2 = inflight b + 1" "ModelTier resp' = TierLabel d"
        by auto
      with t x release_good [OF wf sl, of b2] show ?thesis by (simp add: goodWorld_def)
    qed
  qed
qed

text \<open>The tool calls between two turns do not disturb the backend, so the whole loop keeps the promise.\<close>

lemma executeToolCall_world:
  assumes "executeToolCall env s call = (s1, m, sm)" "s1 \<noteq> s"
  obtains srch r where "toolSearcher env = Some srch" "do_call (srch (queryOf env (tc_Arguments call))) s = (s1, r)"
proof (cases "toolSearcher env")
  case None
  with assms show ?thesis by (simp add: executeToolCall_def Let_def split: if_splits)
next
  case (Some srch)
  obtain s2 r where D: "do_call (srch (queryOf env (tc_Arguments call))) s = (s2, r)" by fastforce
  with assms Some have "s1 = s2" by (cases r) (simp_all add: executeToolCall_def Let_def split: if_splits)
  with D Some that show ?thesis by blast
qed

lemma resolveCalls_good:
  assumes "\<forall>srch q. toolSearcher env = Some srch \<longrightarrow> leavesBackend (srch q)"
  shows "goodWorld (ext s) \<Longrightarrow> resolveCalls env s calls = (s', msgs, sumr) \<Longrightarrow> goodWorld (ext s')"
proof (induction calls arbitrary: s msgs sumr)
  case (Cons call calls)
  obtain s1 m sm where 1: "executeToolCall env s call = (s1, m, sm)" by (metis prod_cases3)
  have "goodWorld (ext s1)"
  proof (cases "s1 = s")
    case False
    with 1 obtain srch r where "toolSearcher env = Some srch" "do_call (srch (queryOf env (tc_Arguments call))) s = (s1, r)"
      by (rule executeToolCall_world)
    with assms show ?thesis by (intro leavesBackend_good [OF _ _ Cons.prems(1)]) simp_all
  qed (use Cons.prems(1) in simp)
  moreover obtain msgs' sumr' where "resolveCalls env s1 calls = (s', msgs', sumr')"
    using Cons.prems(2) 1 by (auto split: prod.splits)
  ultimately show ?case by (rule Cons.IH)
qed simp

lemma needsCapable_followUp [simp]: "needsCapable (followUp req calls msgs) = needsCapable req"
  by (simp add: needsCapable_def followUp_def)

lemma runWithTools_capable:
  assumes "\<forall>srch q. toolSearcher env = Some srch \<longrightarrow> leavesBackend (srch q)"
    and "goodWorld (ext s)" "needsCapable req" "runWithTools env vramServed s req = (s', sumr, r)"
  shows "goodWorld (ext s') \<and> (\<forall>resp. r = Ok resp \<longrightarrow> ModelTier resp \<noteq> TierWeak)"
proof -
  obtain s1 r1 where 1: "do_call (sbInfer vramServed req) s = (s1, r1)" by fastforce
  note A = vramServed_Infer [OF assms(2) 1]
  show ?thesis
  proof (cases "\<exists>resp. r1 = Ok resp \<and> RespToolCalls resp \<noteq> []")
    case False
    with assms(4) 1 have "s' = s1 \<and> r = r1" by (cases r1) (auto simp: runWithTools_def)
    with A assms(3) show ?thesis by simp
  next
    case True
    then obtain resp where resp: "r1 = Ok resp" "RespToolCalls resp \<noteq> []" by blast
    obtain s2 msgs sm where 2: "resolveCalls env s1 (RespToolCalls resp) = (s2, msgs, sm)" by (metis prod_cases3)
    let ?n = "followUp req (RespToolCalls resp) msgs"
    obtain s3 r3 where 3: "do_call (sbInfer vramServed ?n) s2 = (s3, r3)" by fastforce
    from assms(4) 1 resp 2 3 have "s' = s3" "r = r3" by (simp_all add: runWithTools_def)
    with vramServed_Infer [OF resolveCalls_good [OF assms(1) _ 2] 3] A assms(3) show ?thesis by simp
  qed
qed

lemma isEnd_ToolEv: "\<not> isEnd (ToolEv sm)"
  by (simp add: isEnd_def)

lemma runWithToolsStream_capable:
  assumes "\<forall>srch q. toolSearcher env = Some srch \<longrightarrow> leavesBackend (srch q)" and st: "sbStream vramServed = Some stream"
    and "goodWorld (ext s)" "needsCapable req" "runWithToolsStream env stream s req = (s', evs, chunks, resp, err)"
  shows "goodWorld (ext s') \<and> ModelTier resp \<noteq> TierWeak \<and> list_all (\<lambda>e. \<not> isEnd e) evs"
proof -
  obtain s1 c1 resp1 e1 where 1: "do_call (stream req) s = (s1, c1, resp1, e1)" by (metis prod_cases4)
  note A = vramServed_stream [OF assms(3) st 1 assms(4)]
  have z: "ModelTier zeroResponse \<noteq> TierWeak" by (simp add: zeroResponse_def TierWeak_def)
  show ?thesis
  proof (cases "e1 = None \<and> RespToolCalls resp1 \<noteq> []")
    case False
    with assms(5) 1 have "s' = s1 \<and> (resp = resp1 \<or> resp = zeroResponse) \<and> evs = map chunkEv c1"
      by (cases e1) (auto simp: runWithToolsStream_def)
    with A z show ?thesis by (auto simp: list_all_iff)
  next
    case True
    obtain s2 msgs sm where 2: "resolveCalls env s1 (RespToolCalls resp1) = (s2, msgs, sm)" by (metis prod_cases3)
    let ?n = "followUp req (RespToolCalls resp1) msgs"
    obtain s3 c3 resp3 e3 where 3: "do_call (stream ?n) s2 = (s3, c3, resp3, e3)" by (metis prod_cases4)
    from assms(5) 1 True 2 3 have "s' = s3" "resp = resp3 \<or> resp = zeroResponse"
      "evs = map chunkEv c1 @ map ToolEv sm @ map chunkEv c3" by (auto simp: runWithToolsStream_def)
    with vramServed_stream [OF resolveCalls_good [OF assms(1) _ 2] st 3] A assms(4) z show ?thesis
      by (auto simp: list_all_iff isEnd_ToolEv)
  qed
qed

section \<open>The handlers\<close>

lemma deferToRelay_good:
  assumes "servicesApart env srv" "goodWorld (ext s)" "deferToRelay srv s req = (srv', s', r)"
  shows "goodWorld (ext s') \<and> (\<forall>resp. r = Some resp \<longrightarrow> replyTiers (Http resp) = [])"
proof -
  obtain s1 d where D: "shouldDefer srv s (ir_Priority req) = (s1, d)" by fastforce
  have g1: "goodWorld (ext s1)"
  proof (cases "s1 = s")
    case False
    with D obtain v a where "vramSrc srv = Some v" "do_call v s = (s1, a)"
      by (auto simp: shouldDefer_def split: option.splits if_splits prod.splits sum.splits)
    with assms(1,2) leavesBackend_good show ?thesis by (auto simp: servicesApart_def)
  qed (use assms(2) in simp)
  show ?thesis
  proof (cases "d \<and> relay srv \<noteq> None")
    case False
    with assms(3) D have "s' = s1 \<and> r = None" by (cases d) (auto simp: deferToRelay_def split: option.splits)
    with g1 show ?thesis by simp
  next
    case True
    then obtain rl where rl: "relay srv = Some rl" by auto
    obtain s2 o' where E: "do_call (relEnqueue rl (ir_CorrelationID req) req) s1 = (s2, o')" by fastforce
    have "leavesBackend (relEnqueue rl (ir_CorrelationID req) req)" using assms(1) rl by (simp add: servicesApart_def)
    from leavesBackend_good [OF this E g1] assms(3) D True rl E show ?thesis
      by (cases o') (auto simp: deferToRelay_def replyTiers_def writeError_def respond_def)
  qed
qed

lemma servicesApart_record [simp]: "servicesApart env (recordJob e srv) = servicesApart env srv"
  by (simp add: servicesApart_def recordJob_def Let_def)

lemma handleInferWithTools_capable:
  assumes "servicesApart env srv" "goodWorld (ext s)" "needsCapable breq"
    and "handleInferWithTools env backendsOf srv s req breq = (srv', s', resp)"
  shows "goodWorld (ext s') \<and> TierWeak \<notin> set (replyTiers (Http resp))"
proof -
  obtain srv1 s1 r where D: "deferToRelay srv s req = (srv1, s1, r)" by (metis prod_cases3)
  note A = deferToRelay_good [OF assms(1,2) D]
  show ?thesis
  proof (cases "r = None \<and> ir_Modality req \<in> {''text'', ''vision''}")
    case False
    with A assms(4) D show ?thesis
      by (cases r) (auto simp: handleInferWithTools_def backendsOf_def replyTiers_def writeError_def respond_def)
  next
    case True
    obtain s2 sm out where R: "runWithTools env vramServed s1 breq = (s2, sm, out)" by (metis prod_cases3)
    have "backendsOf (ir_Modality req) = Some (vramServed :: 'a world srvBackend)" using True by (auto simp: backendsOf_def)
    then have "s' = s2 \<and> (case out of
          Inl e \<Rightarrow> resp = writeError (errStatusOf e) (errCodeOf e) (ir_CorrelationID req)
        | Inr ok \<Rightarrow> \<exists>b. hr_body resp = InferBody b \<and> is_ModelTier b = ModelTier ok)"
      using assms(4) D conjunct1 [OF True] R
      by (cases out) (simp_all add: handleInferWithTools_def Let_def, auto simp: respond_def)
    moreover have "goodWorld (ext s2) \<and> (\<forall>resp. out = Ok resp \<longrightarrow> ModelTier resp \<noteq> TierWeak)"
      using assms(1,3) A by (intro runWithTools_capable [OF _ _ _ R]) (auto simp: servicesApart_def)
    ultimately show ?thesis
      by (cases out) (auto simp: replyTiers_def writeError_def respond_def)
  qed
qed

lemma finishStream_tier:
  assumes "finishStream False srv req breq t0 t1 chunks resp err = (srv', fin)" "ModelTier resp \<noteq> TierWeak"
  shows "TierWeak \<notin> set (replyTiers (Sse fin))"
  using assms
  by (cases err) (auto simp: finishStream_def Let_def writeDone_def replyTiers_def zeroDone_def TierWeak_def split: if_splits)

lemma replyTiers_append:
  "list_all (\<lambda>e. \<not> isEnd e) evs \<Longrightarrow> replyTiers (Sse (evs @ fin)) = replyTiers (Sse fin)"
  by (induction evs) (auto simp: replyTiers_def isEnd_def split: sse.splits)

lemma handleInferStreamWithTools_capable:
  assumes "servicesApart env srv" "goodWorld (ext s)" "needsCapable breq"
    and "handleInferStreamWithTools env backendsOf canFlush srv s req breq = (srv', s', rep)"
  shows "goodWorld (ext s') \<and> TierWeak \<notin> set (replyTiers rep)"
proof -
  obtain srv1 s1 r where D: "deferToRelay srv s req = (srv1, s1, r)" by (metis prod_cases3)
  note A = deferToRelay_good [OF assms(1,2) D]
  show ?thesis
  proof (cases r)
    case (Some resp)
    with A assms(4) D show ?thesis by (auto simp: handleInferStreamWithTools_def)
  next
    case None
    with D have srv1: "srv1 = srv" by (simp add: deferToRelay_local)
    show ?thesis
    proof (cases "canFlush \<and> backendsOf (ir_Modality req) = Some (vramServed :: 'a world srvBackend)")
      case True
      obtain stream where st: "sbStream vramServed = Some (stream :: Request \<Rightarrow> ('a world, _) call)" by (simp add: vramServed_def)
      obtain s2 evs chunks resp err where R: "runWithToolsStream env stream s1 breq = (s2, evs, chunks, resp, err)"
        by (metis prod_cases5)
      obtain srv2 fin where F: "finishStream False srv1 req breq (clock s1) (clock s2) chunks resp err = (srv2, fin)" by fastforce
      from assms(4) D None True st R F have "s' = s2" "rep = Sse (evs @ fin)"
        by (simp_all add: handleInferStreamWithTools_def)
      moreover have "goodWorld (ext s2) \<and> ModelTier resp \<noteq> TierWeak \<and> list_all (\<lambda>e. \<not> isEnd e) evs"
        using assms(1,3) A by (intro runWithToolsStream_capable [OF _ st _ _ R]) (auto simp: servicesApart_def)
      ultimately show ?thesis using finishStream_tier [OF F] replyTiers_append by simp
    next
      case False
      obtain srv2 s2 resp where H: "handleInferWithTools env backendsOf srv1 s1 req breq = (srv2, s2, resp)" by (metis prod_cases3)
      have "Option.bind (backendsOf (ir_Modality req)) sbStream = (None :: (Request \<Rightarrow> ('a world, _) call) option) \<or> \<not> canFlush"
        using False by (auto simp: backendsOf_def split: if_splits)
      with assms(4) D None H have "s' = s2" "rep = Http resp"
        by (auto simp: handleInferStreamWithTools_def split: bool.splits)
      with handleInferWithTools_capable [OF _ _ assms(3) H] assms(1) A srv1 show ?thesis by simp
    qed
  qed
qed

lemma validated_capable:
  assumes "validateInfer req = None" "ir_Tools req \<noteq> []"
  shows "needsCapable (TranslateInferRequest decode64 req rid)"
  using assms
  by (auto simp: validateInfer_def validateTools_def needsCapable_def translate_defs split: option.splits if_splits)

text \<open>\<open>handleInfer\<close> on a decoded body, once the correlation id is in place.\<close>

definition withID :: "'w inferEnv \<Rightarrow> InferRequest \<Rightarrow> InferRequest" where
  "withID env req = (if ir_CorrelationID req = '''' then req\<lparr>ir_CorrelationID := ''req-'' @ ie_uuid1 env\<rparr> else req)"

lemma withID_tools [simp]: "ir_Tools (withID env req) = ir_Tools req"
  by (simp add: withID_def)

lemma handleInfer_Some:
  "handleInfer env srv s (Some req) =
     (if draining srv then (srv, s, Http (writeError 503 ''draining'' ''''))
      else case validateInfer (withID env req) of
        Some (st, code) \<Rightarrow> (srv, s, Http (writeError st code (ir_CorrelationID (withID env req))))
      | None \<Rightarrow>
          let q = withID env req; breq = TranslateInferRequest (ie_decode64 env) q (ie_uuid2 env) in
          if ir_Stream q then
            handleInferStream (ie_tools env) (ie_backends env) (ie_canFlush env) srv s q breq (ie_select env) (ie_wait env)
          else if ir_Tools q \<noteq> [] then
            (case handleInferWithTools (ie_tools env) (ie_backends env) srv s q breq of (srv1, s1, r) \<Rightarrow> (srv1, s1, Http r))
          else (case handleInferBlocking srv s q breq (ie_select env) (ie_wait env) of (srv1, s1, r) \<Rightarrow> (srv1, s1, Http r)))"
  by (simp only: handleInfer_def withID_def Let_def option.case)

lemma handleInfer_tools_capable:
  assumes "servicesApart (ie_tools env) srv" "ie_backends env = backendsOf" "goodWorld (ext s)" "ir_Tools req \<noteq> []"
    and "handleInfer env srv s (Some req) = (srv', s', rep)"
  shows "goodWorld (ext s') \<and> TierWeak \<notin> set (replyTiers rep)"
proof (cases "draining srv \<or> validateInfer (withID env req) \<noteq> None")
  case True
  with assms(3,5) show ?thesis
    by (auto simp: handleInfer_Some replyTiers_def writeError_def respond_def split: if_splits)
next
  case False
  let ?q = "withID env req"
  let ?b = "TranslateInferRequest (ie_decode64 env) ?q (ie_uuid2 env)"
  have ok: "validateInfer ?q = None" "\<not> draining srv" using False by blast+
  then have c: "needsCapable ?b" using assms(4) by (intro validated_capable) simp_all
  show ?thesis
  proof (cases "ir_Stream ?q")
    case True
    with assms(2,4,5) ok
    have "handleInferStreamWithTools (ie_tools env) backendsOf (ie_canFlush env) srv s ?q ?b = (srv', s', rep)"
      by (simp add: handleInfer_Some handleInferStream_def Let_def)
    from handleInferStreamWithTools_capable [OF assms(1,3) c this] show ?thesis .
  next
    case ns: False
    obtain srv1 s1 resp where H: "handleInferWithTools (ie_tools env) backendsOf srv s ?q ?b = (srv1, s1, resp)" by (metis prod_cases3)
    with ns assms(2,4,5) ok have "s' = s1" "rep = Http resp" by (simp_all add: handleInfer_Some Let_def)
    with handleInferWithTools_capable [OF assms(1,3) c H] show ?thesis by simp
  qed
qed

end
