(* ===== verification/Relay_Store.thy ===== *)
theory Relay_Store
  imports Model_Types
begin

text \<open>
  The hosted relay's job table, \<open>src/internal/railwayq/store.go\<close>, with the in-process helpers of
  \<open>wake.go\<close> and the expiry sweeper of \<open>ttl.go\<close>. The table is the list of its rows; each definition is
  one SQL statement (or one transaction) of the source, with the database's clock as an argument.
  \<open>created_at\<close> is the insertion time; equal times are ordered by position.
\<close>

section \<open>Rows\<close>

datatype QueueJobStatus = QueueJobPending | QueueJobProcessing | QueueJobDone | QueueJobFailed

record QueueJob =
  q_ID :: string
  q_CorrelationID :: string
  q_Status :: QueueJobStatus
  q_Payload :: string
  q_ResultPayload :: "string option"
  q_ErrorCode :: "string option"
  q_CreatedAt :: time
  q_ClaimedAt :: "time option"
  q_FinishedAt :: "time option"
  q_AttemptCount :: int
  q_MaxAttempts :: int
  q_Identity :: string

record MemberProfile =
  mp_StackUserID :: string
  mp_Email :: string
  mp_Username :: "string option"
  mp_DisplayName :: "string option"

text \<open>\<open>oldestFinish\<close> is the finish tracker's time, \<open>signals\<close> the number of times the job signal was
  raised, \<open>pcLast\<close> when the worker was last heard from (\<open>None\<close>: never, or the zero time).\<close>

record relay =
  jobs :: "QueueJob list"
  usage :: "(string \<times> int) \<Rightarrow> int"
  members :: "MemberProfile list"
  oldestFinish :: "time option"
  signals :: nat
  pcLast :: "time option"

definition VisibilityTimeoutMS :: int where "VisibilityTimeoutMS = 120000"
definition LongPollTimeoutMS :: int where "LongPollTimeoutMS = 30000"

section \<open>In-process helpers\<close>

text \<open>A waiter remembers the signal count it subscribed at; its channel is closed once it has grown.\<close>

definition sig_wait :: "relay \<Rightarrow> nat" where "sig_wait r = signals r"
definition sig_notify :: "relay \<Rightarrow> relay" where "sig_notify r = r\<lparr>signals := Suc (signals r)\<rparr>"
definition sig_woken :: "nat \<Rightarrow> relay \<Rightarrow> bool" where "sig_woken ch r = (ch < signals r)"

definition tracker_record :: "time \<Rightarrow> relay \<Rightarrow> relay" where
  "tracker_record t r = (case oldestFinish r of
      None \<Rightarrow> r\<lparr>oldestFinish := Some t\<rparr>
    | Some old \<Rightarrow> if t < old then r\<lparr>oldestFinish := Some t\<rparr> else r)"

definition tracker_peek :: "relay \<Rightarrow> time option" where "tracker_peek r = oldestFinish r"

definition tracker_take :: "relay \<Rightarrow> time option \<times> relay" where
  "tracker_take r = (oldestFinish r, r\<lparr>oldestFinish := None\<rparr>)"

definition pc_seen :: "time \<Rightarrow> relay \<Rightarrow> relay" where
  "pc_seen t r = (case pcLast r of None \<Rightarrow> r\<lparr>pcLast := Some t\<rparr>
     | Some l \<Rightarrow> if t > l then r\<lparr>pcLast := Some t\<rparr> else r)"

definition pc_online :: "time \<Rightarrow> relay \<Rightarrow> bool" where
  "pc_online now r = (case pcLast r of None \<Rightarrow> False | Some l \<Rightarrow> now - l < 2 * LongPollTimeoutMS)"

section \<open>Statements\<close>

definition Enqueue_job :: "time \<Rightarrow> (string \<Rightarrow> bool) \<Rightarrow> relay \<Rightarrow> QueueJob \<Rightarrow> relay \<times> go_error option" where
  "Enqueue_job now validJSON r job =
     (if \<not> validJSON (q_Payload job) then (r, Some (PlainError ''payload is not valid JSON''))
      else (sig_notify (r\<lparr>jobs := jobs r @ [job\<lparr>q_Status := QueueJobPending, q_ResultPayload := None, q_ErrorCode := None,
              q_CreatedAt := now, q_ClaimedAt := None, q_FinishedAt := None, q_AttemptCount := 0\<rparr>]\<rparr>), None))"

definition sweepExpired :: "time \<Rightarrow> relay \<Rightarrow> relay" where
  "sweepExpired now r = r\<lparr>jobs := map (\<lambda>j.
      if q_Status j = QueueJobProcessing \<and> (case q_ClaimedAt j of None \<Rightarrow> False | Some t \<Rightarrow> t < now - VisibilityTimeoutMS)
      then j\<lparr>q_Status := QueueJobPending, q_ClaimedAt := None\<rparr> else j) (jobs r)\<rparr>"

definition claimable :: "QueueJob \<Rightarrow> bool" where
  "claimable j = (q_Status j = QueueJobPending \<and> q_AttemptCount j < q_MaxAttempts j)"

text \<open>\<open>ORDER BY created_at ASC LIMIT 1\<close> over the claimable rows.\<close>

fun oldestClaimable :: "QueueJob list \<Rightarrow> QueueJob option" where
  "oldestClaimable [] = None"
| "oldestClaimable (j # js) =
     (case oldestClaimable js of
        None \<Rightarrow> if claimable j then Some j else None
      | Some k \<Rightarrow> if claimable j \<and> q_CreatedAt j \<le> q_CreatedAt k then Some j else Some k)"

definition updateJob :: "string \<Rightarrow> (QueueJob \<Rightarrow> QueueJob) \<Rightarrow> QueueJob list \<Rightarrow> QueueJob list" where
  "updateJob i f js = map (\<lambda>j. if q_ID j = i then f j else j) js"

definition claimedRow :: "time \<Rightarrow> QueueJob \<Rightarrow> QueueJob" where
  "claimedRow now j = j\<lparr>q_Status := QueueJobProcessing, q_ClaimedAt := Some now, q_AttemptCount := q_AttemptCount j + 1\<rparr>"

definition tryClaimOne :: "time \<Rightarrow> relay \<Rightarrow> relay \<times> QueueJob option" where
  "tryClaimOne now r =
     (case oldestClaimable (jobs r) of
        None \<Rightarrow> (r, None)
      | Some j \<Rightarrow> (r\<lparr>jobs := updateJob (q_ID j) (\<lambda>_. claimedRow now j) (jobs r)\<rparr>, Some (claimedRow now j)))"

text \<open>What ends a wait inside \<open>Claim\<close>: a raised signal at some time, after which others may have
  changed the table; the long-poll timeout; or the end of the request.\<close>

datatype wake = Added time "relay \<Rightarrow> relay" | PollTimeout | RequestEnded

datatype claimResult = Claimed QueueJob | NoJob | ClaimAborted | StillWaiting

fun Claim :: "time \<Rightarrow> relay \<Rightarrow> wake list \<Rightarrow> relay \<times> claimResult" where
  "Claim now r wakes =
     (case tryClaimOne now (sweepExpired now r) of
        (r1, Some j) \<Rightarrow> (r1, Claimed j)
      | (r1, None) \<Rightarrow>
          (case wakes of
             [] \<Rightarrow> (r1, StillWaiting)
           | PollTimeout # _ \<Rightarrow> (r1, NoJob)
           | RequestEnded # _ \<Rightarrow> (r1, ClaimAborted)
           | Added now' others # ws \<Rightarrow> Claim now' (others r1) ws))"

declare Claim.simps [simp del]

record AckRequest =
  ack_JobID :: string
  ack_Status :: QueueJobStatus
  ack_ResultPayload :: string
  ack_ErrorCode :: string

definition ackedRow :: "time \<Rightarrow> AckRequest \<Rightarrow> QueueJob \<Rightarrow> QueueJob" where
  "ackedRow now req j = j\<lparr>q_Status := ack_Status req,
     q_ResultPayload := (if ack_ResultPayload req = '''' then None else Some (ack_ResultPayload req)),
     q_ErrorCode := (if ack_ErrorCode req = '''' then None else Some (ack_ErrorCode req)), q_FinishedAt := Some now\<rparr>"

definition Ack :: "time \<Rightarrow> (string \<Rightarrow> bool) \<Rightarrow> relay \<Rightarrow> AckRequest \<Rightarrow> relay \<times> go_error option" where
  "Ack now validJSON r req =
     (if ack_ResultPayload req \<noteq> '''' \<and> \<not> validJSON (ack_ResultPayload req)
      then (r, Some (PlainError ''result payload is not valid JSON''))
      else let hit = (\<lambda>j. q_ID j = ack_JobID req \<and> q_Status j = QueueJobProcessing);
               r1 = r\<lparr>jobs := map (\<lambda>j. if hit j then ackedRow now req j else j) (jobs r)\<rparr>
           in (if list_ex hit (jobs r) then tracker_record now r1 else r1, None))"

record ResultResponse =
  rr_Status :: QueueJobStatus
  rr_ResultPayload :: "string option"
  rr_ErrorCode :: string

definition owned :: "string \<Rightarrow> string \<Rightarrow> QueueJob \<Rightarrow> bool" where
  "owned i identity j = (q_ID j = i \<and> q_Identity j = identity)"

definition GetResult :: "relay \<Rightarrow> string \<Rightarrow> string \<Rightarrow> ResultResponse option" where
  "GetResult r i identity = map_option (\<lambda>j. \<lparr>rr_Status = q_Status j, rr_ResultPayload = q_ResultPayload j,
      rr_ErrorCode = (case q_ErrorCode j of None \<Rightarrow> '''' | Some c \<Rightarrow> c)\<rparr>) (find (owned i identity) (jobs r))"

datatype cancelResult = Cancelled | CancelNotFound | CancelNotPending

definition CancelPending :: "relay \<Rightarrow> string \<Rightarrow> string \<Rightarrow> relay \<times> cancelResult" where
  "CancelPending r i identity =
     (let hit = (\<lambda>j. owned i identity j \<and> q_Status j = QueueJobPending);
          r1 = r\<lparr>jobs := filter (\<lambda>j. \<not> hit j) (jobs r)\<rparr>
      in if list_ex hit (jobs r) then (r1, Cancelled)
         else if list_ex (owned i identity) (jobs r1) then (r1, CancelNotPending)
         else (r1, CancelNotFound))"

definition CountPending :: "relay \<Rightarrow> nat" where
  "CountPending r = length (filter (\<lambda>j. q_Status j = QueueJobPending) (jobs r))"

definition LastClaimAt :: "relay \<Rightarrow> time option" where
  "LastClaimAt r = (let ts = List.map_filter q_ClaimedAt (jobs r) in if ts = [] then None else Some (Max (set ts)))"

definition terminal :: "QueueJob \<Rightarrow> bool" where
  "terminal j = (q_Status j = QueueJobDone \<or> q_Status j = QueueJobFailed)"

definition expired :: "time \<Rightarrow> int \<Rightarrow> QueueJob \<Rightarrow> bool" where
  "expired now ttl j = (terminal j \<and> (case q_FinishedAt j of None \<Rightarrow> False | Some t \<Rightarrow> t < now - ttl))"

definition PurgeExpired :: "time \<Rightarrow> int \<Rightarrow> relay \<Rightarrow> relay \<times> nat" where
  "PurgeExpired now ttl r = (r\<lparr>jobs := filter (\<lambda>j. \<not> expired now ttl j) (jobs r)\<rparr>, length (filter (expired now ttl) (jobs r)))"

definition OldestFinishedAt :: "relay \<Rightarrow> time option" where
  "OldestFinishedAt r = (let ts = List.map_filter (\<lambda>j. if terminal j then q_FinishedAt j else None) (jobs r)
                         in if ts = [] then None else Some (Min (set ts)))"

definition IncrementUsage :: "int \<Rightarrow> string \<Rightarrow> relay \<Rightarrow> relay" where
  "IncrementUsage day identity r = r\<lparr>usage := (usage r)((identity, day) := usage r (identity, day) + 1)\<rparr>"

definition UsageToday :: "int \<Rightarrow> string \<Rightarrow> relay \<Rightarrow> int" where
  "UsageToday day identity r = usage r (identity, day)"

definition GetMemberProfile :: "relay \<Rightarrow> string \<Rightarrow> MemberProfile option" where
  "GetMemberProfile r u = find (\<lambda>m. mp_StackUserID m = u) (members r)"

definition IsAllowedMember :: "relay \<Rightarrow> string \<Rightarrow> bool" where
  "IsAllowedMember r u = (GetMemberProfile r u \<noteq> None)"

section \<open>The expiry sweeper\<close>

text \<open>\<open>purgeOk\<close> and \<open>oldestOk\<close> say whether the two queries succeed.\<close>

definition sweepIfDue :: "time \<Rightarrow> int \<Rightarrow> bool \<Rightarrow> bool \<Rightarrow> relay \<Rightarrow> relay" where
  "sweepIfDue now ttl purgeOk oldestOk r =
     (case tracker_peek r of
        None \<Rightarrow> r
      | Some oldest \<Rightarrow>
          if now < oldest + ttl then r
          else let r1 = snd (tracker_take r) in
               if \<not> purgeOk then tracker_record oldest r1
               else let r2 = fst (PurgeExpired now ttl r1) in
                    if \<not> oldestOk then tracker_record (now - ttl) r2
                    else (case OldestFinishedAt r2 of None \<Rightarrow> r2 | Some t \<Rightarrow> tracker_record t r2))"

definition checkAtStartup :: "time \<Rightarrow> int \<Rightarrow> bool \<Rightarrow> bool \<Rightarrow> bool \<Rightarrow> relay \<Rightarrow> relay" where
  "checkAtStartup now ttl startOk purgeOk oldestOk r =
     (if \<not> startOk then tracker_record (now - ttl) r
      else sweepIfDue now ttl purgeOk oldestOk
             (case OldestFinishedAt r of None \<Rightarrow> r | Some t \<Rightarrow> tracker_record t r))"

definition sweepInterval :: "int \<Rightarrow> int" where
  "sweepInterval ttl = (let i = (if ttl > 600000 then 600000 else ttl) in if i < 60000 then 60000 else i)"

end
