(* ===== verification/Remote_Worker.thy ===== *)
theory Remote_Worker
  imports Server_Core Relay_Store "HOL-Library.Word"
begin

text \<open>
  The worker that takes jobs from the relay into the local pipeline, \<open>src/internal/remote/client.go\<close>.
  The relay behind HTTP is part of the world: a POST is a call that answers with a status and a decoded
  body, or with no answer. \<open>ctxErr\<close> tells from the world whether the process is shutting down. JSON
  coding is an argument; the choices the scheduler makes in a \<open>select\<close> are arguments too. Durations of
  the loop are in milliseconds; a job's wait is in nanoseconds, at the width of Go's \<open>Duration\<close>.
\<close>

section \<open>The client\<close>

definition backoffMin :: int where "backoffMin = 1000"
definition backoffMax :: int where "backoffMax = 30000"
definition maxJobWait :: int where "maxJobWait = 100000000000"
definition ackRetries :: nat where "ackRetries = 3"
definition pausePoll :: int where "pausePoll = 2000"

text \<open>\<open>resumeCh\<close>: a token is in the channel, whose buffer holds one.\<close>

record Client =
  baseURL :: string
  apiKey :: string
  workerID :: string
  paused :: bool
  resumeCh :: bool

definition trimRight :: "char \<Rightarrow> string \<Rightarrow> string" where
  "trimRight c s = rev (dropWhile (\<lambda>x. x = c) (rev s))"

definition New_Client :: "string \<Rightarrow> string \<Rightarrow> string \<Rightarrow> Client" where
  "New_Client url key worker = \<lparr>baseURL = trimRight (CHR ''/'') url, apiKey = key, workerID = worker, paused = False, resumeCh = False\<rparr>"

definition Pause :: "Client \<Rightarrow> Client" where "Pause c = c\<lparr>paused := True\<rparr>"

definition Resume :: "Client \<Rightarrow> Client" where
  "Resume c = (if paused c then c\<lparr>paused := False, resumeCh := True\<rparr> else c)"

datatype 'b netReply = NoAnswer | Reply int "'b option"

record 'w workerEnv =
  we_claim :: "string \<Rightarrow> ('w, QueueJob option netReply) call"
  we_ack :: "AckRequest \<Rightarrow> ('w, unit netReply) call"
  ctxErr :: "'w \<Rightarrow> bool"
  unmarshal :: "string \<Rightarrow> InferRequest option"
  marshalResp :: "InferResponse \<Rightarrow> string"
  marshalErr :: "string \<Rightarrow> go_error option \<Rightarrow> string \<Rightarrow> string"
  decode64 :: "string \<Rightarrow> nat list option"
  newUUID :: string

text \<open>The result of a POST whose body is decoded when \<open>out\<close> asks for it.\<close>

definition postJSON :: "bool \<Rightarrow> 'b netReply \<Rightarrow> 'b option res" where
  "postJSON out r =
     (case r of
        NoAnswer \<Rightarrow> Inl (PlainError ''transport'')
      | Reply status body \<Rightarrow>
          if status < 200 \<or> 300 \<le> status then Inl (PlainError ''status'')
          else if out \<and> body = None then Inl (PlainError ''decode response'')
          else Inr (if out then body else None))"

definition claim :: "'w workerEnv \<Rightarrow> Client \<Rightarrow> 'w sys \<Rightarrow> 'w sys \<times> QueueJob option res" where
  "claim env c s =
     (case do_call (we_claim env (workerID c)) s of
        (s1, r) \<Rightarrow> (s1, case postJSON True r of Inl e \<Rightarrow> Inl e | Inr b \<Rightarrow> Inr (case b of Some j \<Rightarrow> j | None \<Rightarrow> None)))"

section \<open>Acknowledging\<close>

text \<open>\<open>attempt\<close> counts from zero; \<open>interrupt n\<close> says that the wait after attempt \<open>n\<close> ends with the context.\<close>

fun ackLoop :: "nat \<Rightarrow> 'w workerEnv \<Rightarrow> AckRequest \<Rightarrow> (nat \<Rightarrow> bool) \<Rightarrow> nat \<Rightarrow> int \<Rightarrow> 'w sys \<Rightarrow> 'w sys \<times> go_error option" where
  "ackLoop 0 env req interrupt attempt backoff s = (s, None)"
| "ackLoop (Suc left) env req interrupt attempt backoff s =
     (case do_call (we_ack env req) s of
        (s1, r) \<Rightarrow>
          (case postJSON False r of
             Inr _ \<Rightarrow> (s1, None)
           | Inl e \<Rightarrow>
               if ctxErr env (ext s1) then (s1, Some e)
               else if attempt + 1 < ackRetries then
                 (if interrupt attempt then (s1, Some e)
                  else ackLoop left env req interrupt (attempt + 1) (min (backoff * 2) backoffMax) (s1\<lparr>clock := clock s1 + backoff\<rparr>))
               else (s1, Some e)))"

definition ackWithRetry :: "'w workerEnv \<Rightarrow> AckRequest \<Rightarrow> (nat \<Rightarrow> bool) \<Rightarrow> 'w sys \<Rightarrow> 'w sys \<times> go_error option" where
  "ackWithRetry env req interrupt s = ackLoop ackRetries env req interrupt 0 backoffMin s"

definition failedAck :: "'w workerEnv \<Rightarrow> string \<Rightarrow> string \<Rightarrow> string \<Rightarrow> string option \<Rightarrow> AckRequest" where
  "failedAck env jobID cid errCode errResp =
     \<lparr>ack_JobID = jobID, ack_Status = QueueJobFailed,
      ack_ResultPayload = (case errResp of Some b \<Rightarrow> b | None \<Rightarrow> marshalErr env errCode None cid), ack_ErrorCode = errCode\<rparr>"

definition ackFailed :: "'w workerEnv \<Rightarrow> string \<Rightarrow> string \<Rightarrow> string \<Rightarrow> string option \<Rightarrow> 'w sys \<Rightarrow> 'w sys" where
  "ackFailed env jobID cid errCode errResp s = fst (do_call (we_ack env (failedAck env jobID cid errCode errResp)) s)"

section \<open>One job\<close>

definition jobWait :: "int \<Rightarrow> int" where
  "jobWait timeoutMS =
     (if timeoutMS > 0 then
        let d = sint (of_int (timeoutMS * 1000000) :: 64 word) in if d < maxJobWait then d else maxJobWait
      else maxJobWait)"

text \<open>What ends the wait for the result: the result, the end of the process, or the job's own deadline.\<close>

datatype jobWake = GotResult nat Result | Shutdown nat | JobDeadline nat

definition doneAck :: "'w workerEnv \<Rightarrow> string \<Rightarrow> InferRequest \<Rightarrow> time \<Rightarrow> time \<Rightarrow> Result \<Rightarrow> AckRequest" where
  "doneAck env jobID req enqueuedAt finishedAt result =
     \<lparr>ack_JobID = jobID, ack_Status = QueueJobDone,
      ack_ResultPayload = marshalResp env \<lparr>is_RequestID = newUUID env, is_CorrelationID = ir_CorrelationID req,
        is_Modality = ir_Modality req, is_Output = r_Output result, is_Reasoning = r_Reasoning result,
        is_TokensGenerated = r_TokensGenerated result, is_TokensPerSec = 0, is_QueueWaitMS = 0, is_InferenceMS = 0,
        is_DurationMS = finishedAt - enqueuedAt, is_ModelTier = r_ModelTier result, is_FinishedAt = finishedAt,
        is_ToolCalls = [], is_Truncated = False\<rparr>,
      ack_ErrorCode = ''''\<rparr>"

definition offlineEntry :: "'w workerEnv \<Rightarrow> InferRequest \<Rightarrow> time \<Rightarrow> time \<Rightarrow> JobEntry" where
  "offlineEntry env req enqueuedAt finishedAt =
     zeroEntry\<lparr>je_RequestID := newUUID env, je_CorrelationID := ir_CorrelationID req, je_Source := JobSourceOffline,
       je_Modality := ir_Modality req, je_Priority := ir_Priority req, je_MinTier := ir_MinTier req,
       je_EnqueuedAt := Some enqueuedAt, je_StartedAt := Some enqueuedAt, je_FinishedAt := Some finishedAt,
       je_DurationMS := finishedAt - enqueuedAt\<rparr>"

text \<open>The server whose queue the job enters is also the one whose history \<open>recordJob\<close> extends. A blocked
  \<open>Enqueue\<close> ends with the job's context, as the wait on its result does. The job's own enqueue time is left at zero.\<close>

definition withCorrelation :: "QueueJob \<Rightarrow> InferRequest \<Rightarrow> InferRequest" where
  "withCorrelation job req = (if ir_CorrelationID req = '''' then req\<lparr>ir_CorrelationID := q_CorrelationID job\<rparr> else req)"

definition processJob :: "'w workerEnv \<Rightarrow> 'x Server \<Rightarrow> 'w sys \<Rightarrow> QueueJob \<Rightarrow> selectCase \<Rightarrow> jobWake \<Rightarrow> (nat \<Rightarrow> bool) \<Rightarrow>
    'x Server \<times> 'w sys" where
  "processJob env srv s job sel wake interrupt =
     (case unmarshal env (q_Payload job) of
        None \<Rightarrow> (srv, ackFailed env (q_ID job) (q_CorrelationID job) ''invalid_request'' None s)
      | Some req0 \<Rightarrow>
          let req = withCorrelation job req0; cid = ir_CorrelationID req; enqueuedAt = clock s;
              qJob = \<lparr>job_ID = newUUID env, job_CorrelationID = cid, job_EnqueuedAt = 0,
                      job_Req = TranslateInferRequest (decode64 env) req (newUUID env), hasResultCh = True\<rparr>
          in case (case Enqueue (queue srv) qJob sel of None \<Rightarrow> (queue srv, Some (PlainError ''context'')) | Some qe \<Rightarrow> qe) of
               (q, Some _) \<Rightarrow>
                 (srv, if ctxErr env (ext s) then s else ackFailed env (q_ID job) cid ''overloaded'' None s)
             | (q, None) \<Rightarrow>
                 let srv1 = srv\<lparr>queue := q\<rparr> in
                 (case wake of
                    Shutdown dt \<Rightarrow> (srv1, s\<lparr>clock := clock s + int dt\<rparr>)
                  | JobDeadline dt \<Rightarrow> (srv1, ackFailed env (q_ID job) cid ''timeout'' None (s\<lparr>clock := clock s + int dt\<rparr>))
                  | GotResult dt result \<Rightarrow>
                      let s1 = s\<lparr>clock := clock s + int dt\<rparr>; finishedAt = clock s1;
                          entry = offlineEntry env req enqueuedAt finishedAt
                      in case r_Err result of
                           Some e \<Rightarrow>
                             let errCode = (case isBackendErr e of Some c \<Rightarrow> c | None \<Rightarrow> ''internal_error'')
                             in (recordJob (entry\<lparr>je_Status := JobStatusFailed, je_ErrorCode := errCode\<rparr>) srv1,
                                 ackFailed env (q_ID job) cid errCode (Some (marshalErr env errCode (Some e) cid)) s1)
                         | None \<Rightarrow>
                             (recordJob (entry\<lparr>je_Status := JobStatusDone, je_ModelTier := r_ModelTier result,
                                je_TokensGenerated := r_TokensGenerated result\<rparr>) srv1,
                              fst (ackWithRetry env (doneAck env (q_ID job) req enqueuedAt finishedAt result) interrupt s1))))"

section \<open>The loop\<close>

text \<open>One turn of \<open>Run\<close>. What happens around it: the admin calls before the turn and during its long
  poll, how the pause sleep ends, whether the back-off sleep is cut short, and the choices inside a job.\<close>

datatype adminCall = CallPause | CallResume

fun callAdmin :: "adminCall \<Rightarrow> Client \<Rightarrow> Client" where
  "callAdmin CallPause c = Pause c"
| "callAdmin CallResume c = Resume c"

datatype pauseEnd = PauseCtxDone | PauseResumed | PauseTimer

record turn =
  tu_before :: "adminCall list"
  tu_during :: "adminCall list"
  tu_pause :: pauseEnd
  tu_cut :: bool
  tu_sel :: selectCase
  tu_wake :: jobWake
  tu_interrupt :: "nat \<Rightarrow> bool"

record ('x, 'w) loop =
  lp_client :: Client
  lp_srv :: "'x Server"
  lp_sys :: "'w sys"
  lp_backoff :: int

text \<open>\<open>None\<close>: the loop has returned. A resume token that is not there cannot end the pause sleep; the
  poll timer does.\<close>

definition runTurn :: "'w workerEnv \<Rightarrow> turn \<Rightarrow> ('x, 'w) loop \<Rightarrow> ('x, 'w) loop \<times> bool" where
  "runTurn env t l0 =
     (let c = fold callAdmin (tu_before t) (lp_client l0); l = l0\<lparr>lp_client := c\<rparr>; s = lp_sys l in
      if ctxErr env (ext s) then (l, False)
      else if paused c then
        (case tu_pause t of
           PauseCtxDone \<Rightarrow> (l, False)
         | PauseResumed \<Rightarrow>
             if resumeCh c then (l\<lparr>lp_client := c\<lparr>resumeCh := False\<rparr>\<rparr>, True)
             else (l\<lparr>lp_sys := s\<lparr>clock := clock s + pausePoll\<rparr>\<rparr>, True)
         | PauseTimer \<Rightarrow> (l\<lparr>lp_sys := s\<lparr>clock := clock s + pausePoll\<rparr>\<rparr>, True))
      else
        let c1 = fold callAdmin (tu_during t) c in
        (case claim env c s of
           (s1, Inl _) \<Rightarrow>
             if ctxErr env (ext s1) \<or> tu_cut t then (l\<lparr>lp_client := c1, lp_sys := s1\<rparr>, False)
             else (l\<lparr>lp_client := c1, lp_sys := s1\<lparr>clock := clock s1 + lp_backoff l\<rparr>,
                     lp_backoff := min (lp_backoff l * 2) backoffMax\<rparr>, True)
         | (s1, Inr None) \<Rightarrow> (l\<lparr>lp_client := c1, lp_sys := s1, lp_backoff := backoffMin\<rparr>, True)
         | (s1, Inr (Some job)) \<Rightarrow>
             (case processJob env (lp_srv l) s1 job (tu_sel t) (tu_wake t) (tu_interrupt t) of
                (srv1, s2) \<Rightarrow> (l\<lparr>lp_client := c1, lp_srv := srv1, lp_sys := s2, lp_backoff := backoffMin\<rparr>, True))))"

fun Run_worker :: "'w workerEnv \<Rightarrow> turn list \<Rightarrow> ('x, 'w) loop \<Rightarrow> ('x, 'w) loop" where
  "Run_worker env [] l = l"
| "Run_worker env (t # ts) l = (case runTurn env t l of (l1, True) \<Rightarrow> Run_worker env ts l1 | (l1, False) \<Rightarrow> l1)"

definition startLoop :: "Client \<Rightarrow> 'x Server \<Rightarrow> 'w sys \<Rightarrow> ('x, 'w) loop" where
  "startLoop c srv s = \<lparr>lp_client = c, lp_srv = srv, lp_sys = s, lp_backoff = backoffMin\<rparr>"

section \<open>Pacing\<close>

lemma sint_fits: "- (2 ^ 63) \<le> k \<Longrightarrow> k < 2 ^ 63 \<Longrightarrow> sint (of_int k :: 64 word) = k"
  using signed_take_bit_int_eq_self [of 63 k] by (simp add: signed_of_int)

text \<open>
  How long the worker holds a job. The wait is never longer than the worker's cap, and the cap ends
  before the relay would hand the job out again; a caller's timeout below the cap is honoured exactly.
  From the first number of milliseconds that no longer fits a \<open>Duration\<close> on, the wait is negative
  and the job fails at once as timed out.
\<close>

lemma job_wait_bounded:
  "jobWait t \<le> maxJobWait \<and> maxJobWait < VisibilityTimeoutMS * 1000000
   \<and> (0 < t \<and> t \<le> 9223372036854 \<longrightarrow> jobWait t = min (t * 1000000) maxJobWait)
   \<and> (9223372036854 < t \<and> t \<le> 18446744073709 \<longrightarrow> jobWait t < 0)"
proof (intro conjI impI)
  show "jobWait t \<le> maxJobWait" by (simp add: jobWait_def Let_def)
  show "maxJobWait < VisibilityTimeoutMS * 1000000" by (simp add: maxJobWait_def VisibilityTimeoutMS_def)
next
  assume t: "0 < t \<and> t \<le> 9223372036854"
  then have "sint (of_int (t * 1000000) :: 64 word) = t * 1000000"
    by (intro sint_fits) auto
  with t show "jobWait t = min (t * 1000000) maxJobWait" by (auto simp: jobWait_def Let_def min_def)
next
  assume t: "9223372036854 < t \<and> t \<le> 18446744073709"
  have "(of_int (t * 1000000) :: 64 word) = of_int (t * 1000000 - 2 ^ 64)"
    by (simp add: word_of_int_eq_iff take_bit_eq_mod)
  moreover have "sint (of_int (t * 1000000 - 2 ^ 64) :: 64 word) = t * 1000000 - 2 ^ 64"
    using t by (intro sint_fits) auto
  moreover have "t * 1000000 - 2 ^ 64 < 0" using t by simp
  ultimately have "sint (of_int (t * 1000000) :: 64 word) < 0" by metis
  then show "jobWait t < 0" using t unfolding jobWait_def Let_def maxJobWait_def by auto
qed

lemma job_wait_bounded_witness: "jobWait 5000 = 5000000000 \<and> jobWait 9223372036855 < 0"
  using job_wait_bounded [of 5000] job_wait_bounded [of 9223372036855] by (simp add: maxJobWait_def)

text \<open>Back-off stays between a second and half a minute.\<close>

lemma runTurn_backoff:
  assumes "runTurn env t l = (l', go)" "backoffMin \<le> lp_backoff l" "lp_backoff l \<le> backoffMax"
  shows "backoffMin \<le> lp_backoff l' \<and> lp_backoff l' \<le> backoffMax"
  using assms
  by (auto simp: runTurn_def Let_def backoffMin_def backoffMax_def
      split: if_splits pauseEnd.splits prod.splits sum.splits option.splits)

lemma Run_worker_backoff:
  "backoffMin \<le> lp_backoff l \<Longrightarrow> lp_backoff l \<le> backoffMax \<Longrightarrow>
     backoffMin \<le> lp_backoff (Run_worker env ts l) \<and> lp_backoff (Run_worker env ts l) \<le> backoffMax"
proof (induction ts arbitrary: l)
  case (Cons t ts)
  obtain l1 go where r: "runTurn env t l = (l1, go)" by fastforce
  from runTurn_backoff [OF r Cons.prems] Cons.IH [of l1] r show ?case by (cases go) simp_all
qed simp

definition claimFails :: "'w workerEnv \<Rightarrow> Client \<Rightarrow> bool" where
  "claimFails env c = (\<forall>s. \<exists>s' e. claim env c s = (s', Inl e))"

lemma runTurn_failing:
  assumes "claimFails env (lp_client l)" "\<And>w. \<not> ctxErr env w" "\<not> paused (lp_client l)"
    and "tu_before t = []" "tu_during t = []" "\<not> tu_cut t"
  shows "\<exists>l'. runTurn env t l = (l', True) \<and> lp_client l' = lp_client l \<and> lp_srv l' = lp_srv l
    \<and> lp_backoff l' = min (lp_backoff l * 2) backoffMax \<and> clock (lp_sys l) + lp_backoff l \<le> clock (lp_sys l')"
proof -
  from assms(1) obtain s' e where c: "claim env (lp_client l) (lp_sys l) = (s', Inl e)" unfolding claimFails_def by blast
  then have "clock (lp_sys l) \<le> clock s'"
    by (auto simp: claim_def split: prod.splits dest: do_call_clock)
  with c assms show ?thesis by (simp add: runTurn_def Let_def)
qed

text \<open>
  A relay that cannot be reached is retried at a doubling pace. After \<open>n\<close> failed claims in a row
  from a fresh start the next pause is \<open>2\<^sup>n\<close> seconds, cut off at thirty, no job has entered the local
  pipeline, and the time that has passed is at least the sum of the pauses, so the relay is asked at
  most \<open>n\<close> times in it.
\<close>

lemma backoff_doubles:
  fixes srv :: "'x Server" and s :: "'w sys"
  assumes "claimFails env c" and "\<And>w. \<not> ctxErr env w" and "\<not> paused c"
    and "\<forall>t\<in>set ts. tu_before t = [] \<and> tu_during t = [] \<and> \<not> tu_cut t"
  shows "lp_backoff (Run_worker env ts (startLoop c srv s)) = min (2 ^ length ts * backoffMin) backoffMax
    \<and> lp_srv (Run_worker env ts (startLoop c srv s)) = srv
    \<and> clock s + (\<Sum>k<length ts. min (2 ^ k * backoffMin) backoffMax) \<le> clock (lp_sys (Run_worker env ts (startLoop c srv s)))"
proof -
  have "lp_backoff (Run_worker env ts l) = min (2 ^ (n + length ts) * backoffMin) backoffMax \<and> lp_srv (Run_worker env ts l) = lp_srv l
      \<and> clock (lp_sys l) + (\<Sum>k<length ts. min (2 ^ (n + k) * backoffMin) backoffMax) \<le> clock (lp_sys (Run_worker env ts l))"
    if "lp_client l = c" "lp_backoff l = min (2 ^ n * backoffMin) backoffMax" for l :: "('x, 'w) loop" and n
    using that assms(4)
  proof (induction ts arbitrary: l n)
    case (Cons t ts)
    from runTurn_failing [of env l t] Cons.prems assms(1-3) obtain l1 where l1: "runTurn env t l = (l1, True)" "lp_client l1 = c"
      "lp_srv l1 = lp_srv l" "lp_backoff l1 = min (lp_backoff l * 2) backoffMax" "clock (lp_sys l) + lp_backoff l \<le> clock (lp_sys l1)"
      by auto
    have "lp_backoff l1 = min (2 ^ Suc n * backoffMin) backoffMax"
      using l1(4) Cons.prems(2) by (simp add: min_def backoffMin_def backoffMax_def)
    moreover have "\<forall>t\<in>set ts. tu_before t = [] \<and> tu_during t = [] \<and> \<not> tu_cut t" using Cons.prems(3) by simp
    moreover note l1(2)
    ultimately have IH: "lp_backoff (Run_worker env ts l1) = min (2 ^ (Suc n + length ts) * backoffMin) backoffMax
      \<and> lp_srv (Run_worker env ts l1) = lp_srv l1
      \<and> clock (lp_sys l1) + (\<Sum>k<length ts. min (2 ^ (Suc n + k) * backoffMin) backoffMax) \<le> clock (lp_sys (Run_worker env ts l1))"
      by (intro Cons.IH)
    have sums: "(\<Sum>k<length (t # ts). min (2 ^ (n + k) * backoffMin) backoffMax)
        = lp_backoff l + (\<Sum>k<length ts. min (2 ^ (Suc n + k) * backoffMin) backoffMax)"
      unfolding length_Cons sum.lessThan_Suc_shift Cons.prems(2) by (simp only: add_0_right add_Suc_right add_Suc)
    have r: "Run_worker env (t # ts) l = Run_worker env ts l1" using l1(1) by simp
    have len: "n + length (t # ts) = Suc n + length ts" by simp
    show ?case unfolding r len sums
      by (intro conjI) (use IH l1(3,5) in \<open>linarith | metis\<close>)+
  qed simp
  from this [of "startLoop c srv s" 0] show ?thesis by (simp add: startLoop_def backoffMin_def backoffMax_def)
qed

lemma runTurn_paused:
  assumes "paused (lp_client l)" "CallResume \<notin> set (tu_before t)"
  shows "\<exists>l' go. runTurn env t l = (l', go) \<and> paused (lp_client l') \<and> lp_srv l' = lp_srv l \<and> ext (lp_sys l') = ext (lp_sys l)"
proof -
  have "paused (fold callAdmin as c)" if "paused c" "CallResume \<notin> set as" for as c
    using that
  proof (induction as arbitrary: c)
    case (Cons a as)
    then show ?case by (cases a) (auto simp: Pause_def)
  qed simp
  from this [OF assms] show ?thesis by (auto simp: runTurn_def Let_def split: pauseEnd.split)
qed

text \<open>
  A paused worker leaves the relay alone. As long as nobody calls \<open>Resume\<close>, no turn of the loop
  sends anything or brings a job into the pipeline: the outside world and the server are untouched.
\<close>

lemma paused_worker_idle:
  assumes "paused (lp_client l)" and "\<forall>t\<in>set ts. CallResume \<notin> set (tu_before t)"
  shows "paused (lp_client (Run_worker env ts l)) \<and> lp_srv (Run_worker env ts l) = lp_srv l
    \<and> ext (lp_sys (Run_worker env ts l)) = ext (lp_sys l)"
  using assms
proof (induction ts arbitrary: l)
  case (Cons t ts)
  from runTurn_paused [of l t env] Cons.prems obtain l1 go where "runTurn env t l = (l1, go)" "paused (lp_client l1)"
    "lp_srv l1 = lp_srv l" "ext (lp_sys l1) = ext (lp_sys l)" by auto
  with Cons.IH [of l1] Cons.prems(2) show ?case by (cases go) simp_all
qed simp

section \<open>Verdicts\<close>

text \<open>The same environment with every acknowledgement written down as it is sent.\<close>

definition logged :: "'w workerEnv \<Rightarrow> ('w \<times> AckRequest list) workerEnv" where
  "logged env = \<lparr>we_claim = (\<lambda>i (w, log). case we_claim env i w of (w', dt, r) \<Rightarrow> ((w', log), dt, r)),
     we_ack = (\<lambda>req (w, log). case we_ack env req w of (w', dt, r) \<Rightarrow> ((w', log @ [req]), dt, r)),
     ctxErr = (\<lambda>(w, log). ctxErr env w), unmarshal = unmarshal env, marshalResp = marshalResp env, marshalErr = marshalErr env,
     decode64 = decode64 env, newUUID = newUUID env\<rparr>"

lemma logged_ack: "snd (ext (fst (do_call (we_ack (logged env) req) s))) = snd (ext s) @ [req]"
  by (simp add: do_call_def logged_def split: prod.split)

lemma ackLoop_log:
  "\<exists>n. (left > 0 \<longrightarrow> 0 < n) \<and> n \<le> left \<and> snd (ext (fst (ackLoop left (logged env) req intr k b s))) = snd (ext s) @ replicate n req"
proof (induction left arbitrary: k b s)
  case (Suc left)
  obtain s1 r where d: "do_call (we_ack (logged env) req) s = (s1, r)" by fastforce
  with logged_ack [of env req s] have l1: "snd (ext s1) = snd (ext s) @ [req]" by simp
  let ?rec = "ackLoop left (logged env) req intr (k + 1) (min (b * 2) backoffMax) (s1\<lparr>clock := clock s1 + b\<rparr>)"
  have "ackLoop (Suc left) (logged env) req intr k b s = ?rec
      \<or> fst (ackLoop (Suc left) (logged env) req intr k b s) = s1"
    using d by (auto split: sum.split)
  then show ?case
  proof
    assume e: "ackLoop (Suc left) (logged env) req intr k b s = ?rec"
    from Suc.IH [of "k + 1" "min (b * 2) backoffMax" "s1\<lparr>clock := clock s1 + b\<rparr>"] obtain n
      where "n \<le> left" "snd (ext (fst ?rec)) = snd (ext s1) @ replicate n req" by auto
    with e l1 show ?thesis by (intro exI [of _ "Suc n"]) simp
  next
    assume "fst (ackLoop (Suc left) (logged env) req intr k b s) = s1"
    with l1 show ?thesis by (intro exI [of _ 1]) simp
  qed
qed simp

lemma ackFailed_log: "snd (ext (ackFailed (logged env) i cid c p s)) = snd (ext s) @ [failedAck (logged env) i cid c p]"
  by (simp add: ackFailed_def logged_ack)

text \<open>The verdict a claimed job gets.\<close>

definition verdict :: "'w workerEnv \<Rightarrow> QueueJob \<Rightarrow> bool \<Rightarrow> jobWake \<Rightarrow> QueueJobStatus \<times> string" where
  "verdict env job entered wake =
     (if unmarshal env (q_Payload job) = None then (QueueJobFailed, ''invalid_request'')
      else if \<not> entered then (QueueJobFailed, ''overloaded'')
      else case wake of
             GotResult dt result \<Rightarrow>
               (case r_Err result of
                  None \<Rightarrow> (QueueJobDone, '''')
                | Some e \<Rightarrow> (QueueJobFailed, case isBackendErr e of Some c \<Rightarrow> c | None \<Rightarrow> ''internal_error''))
           | _ \<Rightarrow> (QueueJobFailed, ''timeout''))"

text \<open>
  A claimed job gets one verdict. Whatever happens, all that the worker posts about a job is one
  and the same acknowledgement of that job: done exactly when the pipeline produced a result without an
  error, otherwise failed with the code of what went wrong. A done verdict is sent up to three times, a
  failed one once, and only a process that is shutting down sends none.
\<close>

lemma ack_one_verdict:
  assumes "processJob (logged env) srv \<lparr>clock = now, ext = (w, [])\<rparr> job sel wake intr = (srv', s')"
  shows "\<exists>n req entered. snd (ext s') = replicate n req \<and> n \<le> 3
    \<and> ack_JobID req = q_ID job \<and> (ack_Status req, ack_ErrorCode req) = verdict env job entered wake
    \<and> (ack_Status req \<noteq> QueueJobDone \<longrightarrow> n \<le> 1)
    \<and> (n = 0 \<longrightarrow> ctxErr env w \<or> (\<exists>dt. wake = Shutdown dt))"
proof -
  let ?s = "\<lparr>clock = now, ext = (w, [] :: AckRequest list)\<rparr>"
  have one: ?thesis if "s' = ackFailed (logged env) (q_ID job) cid c p s0" "ext s0 = (w, [])"
    "(QueueJobFailed, c) = verdict env job entered wake" for cid c p s0 entered
    using that ackFailed_log [of env "q_ID job" cid c p s0]
    by (intro exI [of _ 1] exI [of _ "failedAck (logged env) (q_ID job) cid c p"] exI [of _ entered]) (simp add: failedAck_def)
  have none: ?thesis if "ext s' = (w, [])" "ctxErr env w \<or> (\<exists>dt. wake = Shutdown dt)" "fst (verdict env job entered wake) = QueueJobFailed" for entered
    using that
    by (intro exI [of _ 0] exI [of _ "failedAck (logged env) (q_ID job) [] (snd (verdict env job entered wake)) None"] exI [of _ entered])
       (simp add: failedAck_def prod_eq_iff)
  show ?thesis
  proof (cases "unmarshal env (q_Payload job)")
    case None
    then have "s' = ackFailed (logged env) (q_ID job) (q_CorrelationID job) ''invalid_request'' None ?s"
      using assms by (simp add: processJob_def logged_def)
    then show ?thesis by (rule one [where entered = True]) (simp_all add: verdict_def None)
  next
    case (Some req0)
    define req where "req = withCorrelation job req0"
    define qJob where "qJob = \<lparr>job_ID = newUUID env, job_CorrelationID = ir_CorrelationID req, job_EnqueuedAt = 0,
      job_Req = TranslateInferRequest (decode64 env) req (newUUID env), hasResultCh = True\<rparr>"
    obtain q e where E: "(case Enqueue (queue srv) qJob sel of None \<Rightarrow> (queue srv, Some (PlainError ''context'')) | Some qe \<Rightarrow> qe) = (q, e)"
      by fastforce
    have lg: "unmarshal (logged env) (q_Payload job) = Some req0" "newUUID (logged env) = newUUID env" "decode64 (logged env) = decode64 env"
      "ctxErr (logged env) (w, l) = ctxErr env w" for l
      using Some by (simp_all add: logged_def)
    note P = assms [unfolded processJob_def lg option.case Let_def sys.simps req_def [symmetric] qJob_def [symmetric] E prod.case]
    show ?thesis
    proof (cases e)
      case err: (Some x)
      show ?thesis
      proof (cases "ctxErr env w")
        case True
        with P err have "ext s' = (w, [])" by auto
        with True Some show ?thesis by (intro none [where entered = False]) (simp_all add: verdict_def)
      next
        case False
        with P err have "s' = ackFailed (logged env) (q_ID job) (ir_CorrelationID req) ''overloaded'' None ?s" by simp
        then show ?thesis by (rule one [where entered = False]) (simp_all add: verdict_def Some)
      qed
    next
      case ok: None
      show ?thesis
      proof (cases wake)
        case (Shutdown dt)
        with P ok have "ext s' = (w, [])" by auto
        with Shutdown Some show ?thesis by (intro none [where entered = True]) (simp_all add: verdict_def)
      next
        case (JobDeadline dt)
        with P ok have "s' = ackFailed (logged env) (q_ID job) (ir_CorrelationID req) ''timeout'' None (?s\<lparr>clock := now + int dt\<rparr>)" by simp
        then show ?thesis by (rule one [where entered = True]) (simp_all add: verdict_def Some JobDeadline)
      next
        case (GotResult dt result)
        show ?thesis
        proof (cases "r_Err result")
          case fail: (Some err)
          define c where "c = (case isBackendErr err of Some c \<Rightarrow> c | None \<Rightarrow> ''internal_error'')"
          from P ok GotResult fail obtain p where "s' = ackFailed (logged env) (q_ID job) (ir_CorrelationID req) c p (?s\<lparr>clock := now + int dt\<rparr>)"
            by (auto simp: c_def)
          then show ?thesis by (rule one [where entered = True]) (simp_all add: verdict_def Some GotResult fail c_def)
        next
          case fine: None
          let ?req = "doneAck (logged env) (q_ID job) req now (now + int dt) result"
          from P ok GotResult fine have "s' = fst (ackWithRetry (logged env) ?req intr (?s\<lparr>clock := now + int dt\<rparr>))" by simp
          with ackLoop_log [of ackRetries env ?req intr 0 backoffMin "?s\<lparr>clock := now + int dt\<rparr>"]
          obtain n where "0 < n" "n \<le> 3" "snd (ext s') = replicate n ?req" by (auto simp: ackWithRetry_def ackRetries_def)
          then show ?thesis
            by (intro exI [of _ n] exI [of _ ?req] exI [of _ True]) (simp add: doneAck_def verdict_def Some GotResult fine)
        qed
      qed
    qed
  qed
qed

section \<open>A concrete worker\<close>

definition exampleTurn :: turn where
  "exampleTurn = \<lparr>tu_before = [], tu_during = [], tu_pause = PauseTimer, tu_cut = False, tu_sel = ChanReady,
     tu_wake = GotResult 5 (zeroResult\<lparr>r_Output := ''hi''\<rparr>), tu_interrupt = (\<lambda>_. False)\<rparr>"

definition deadRelay :: "unit workerEnv" where
  "deadRelay = \<lparr>we_claim = (\<lambda>_ w. (w, 3, NoAnswer)), we_ack = (\<lambda>_ w. (w, 3, NoAnswer)), ctxErr = (\<lambda>_. False),
     unmarshal = (\<lambda>p. if p = ''{}'' then Some exampleInfer else None), marshalResp = is_Output, marshalErr = (\<lambda>c _ _. c),
     decode64 = (\<lambda>_. None), newUUID = ''u''\<rparr>"

definition exampleClient :: Client where "exampleClient = New_Client ''https://relay/'' ''owner'' ''pc-1''"

lemma backoff_doubles_witness:
  "lp_backoff (Run_worker deadRelay (replicate 3 exampleTurn) (startLoop exampleClient (New_Server (New_Queue 4) 0 :: unit Server) \<lparr>clock = 0, ext = ()\<rparr>)) = 8000"
proof -
  have c: "claimFails deadRelay exampleClient"
    by (simp add: claimFails_def claim_def do_call_def deadRelay_def postJSON_def)
  from backoff_doubles [OF c, of "replicate 3 exampleTurn" "New_Server (New_Queue 4) 0 :: unit Server" "\<lparr>clock = 0, ext = ()\<rparr>"]
  show ?thesis
    by (simp add: deadRelay_def exampleClient_def New_Client_def exampleTurn_def backoffMin_def backoffMax_def)
qed

lemma paused_worker_idle_witness:
  "paused (lp_client (Run_worker deadRelay [exampleTurn] (startLoop (Pause exampleClient) (New_Server (New_Queue 4) 0 :: unit Server) \<lparr>clock = 0, ext = ()\<rparr>)))"
  using paused_worker_idle [of "startLoop (Pause exampleClient) (New_Server (New_Queue 4) 0 :: unit Server) \<lparr>clock = 0, ext = ()\<rparr>" "[exampleTurn]" deadRelay]
  by (simp add: startLoop_def Pause_def exampleTurn_def)

lemma ack_one_verdict_witness:
  "\<exists>n req. snd (ext (snd (processJob (logged deadRelay) (New_Server (New_Queue 4) 0 :: unit Server) \<lparr>clock = 0, ext = ((), [])\<rparr>
     \<lparr>q_ID = ''j'', q_CorrelationID = ''c'', q_Status = QueueJobProcessing, q_Payload = ''?'', q_ResultPayload = None, q_ErrorCode = None,
      q_CreatedAt = 0, q_ClaimedAt = Some 0, q_FinishedAt = None, q_AttemptCount = 1, q_MaxAttempts = 3, q_Identity = ''apikey''\<rparr>
     ChanReady (tu_wake exampleTurn) (\<lambda>_. False)))) = replicate n req \<and> ack_JobID req = ''j''"
proof -
  let ?job = "\<lparr>q_ID = ''j'', q_CorrelationID = ''c'', q_Status = QueueJobProcessing, q_Payload = ''?'', q_ResultPayload = None, q_ErrorCode = None,
      q_CreatedAt = 0, q_ClaimedAt = Some 0, q_FinishedAt = None, q_AttemptCount = 1, q_MaxAttempts = 3, q_Identity = ''apikey''\<rparr>"
  obtain srv' s' where p: "processJob (logged deadRelay) (New_Server (New_Queue 4) 0 :: unit Server) \<lparr>clock = 0, ext = ((), [])\<rparr> ?job
     ChanReady (tu_wake exampleTurn) (\<lambda>_. False) = (srv', s')" by fastforce
  from ack_one_verdict [OF p] p show ?thesis by auto
qed

end
