(* ===== verification/Relay_Props.thy ===== *)
theory Relay_Props
  imports Relay_Store
begin

text \<open>
  Properties of the relay's job table: the life of a job under every interleaving of enqueue, claim,
  acknowledge, cancel, visibility sweep and purge, and the expiry sweeper that decides from memory
  whether a query is needed.
\<close>

section \<open>Claiming\<close>

lemma oldestClaimable_Some:
  "oldestClaimable js = Some j \<Longrightarrow> j \<in> set js \<and> claimable j \<and> (\<forall>k\<in>set js. claimable k \<longrightarrow> q_CreatedAt j \<le> q_CreatedAt k)"
proof (induction js arbitrary: j)
  case (Cons x js)
  show ?case
  proof (cases "oldestClaimable js")
    case None
    then have "\<forall>k\<in>set js. \<not> claimable k"
      by (induction js) (auto split: option.splits if_splits)
    with None Cons.prems show ?thesis by (auto split: if_splits)
  next
    case (Some k)
    with Cons.IH [OF Some] Cons.prems show ?thesis by (auto split: if_splits)
  qed
qed simp

lemma oldestClaimable_None: "oldestClaimable js = None \<longleftrightarrow> (\<forall>k\<in>set js. \<not> claimable k)"
  by (induction js) (auto split: option.splits if_splits)

lemma updateJob_lookup:
  assumes "distinct (map q_ID js)" and "j \<in> set js"
  shows "set (updateJob (q_ID j) (\<lambda>_. x) js) = insert x (set js - {j})"
  using assms
proof (induction js)
  case (Cons a js)
  show ?case
  proof (cases "a = j")
    case True
    with Cons.prems(1) have "q_ID j \<notin> q_ID ` set js" by simp
    then have "\<forall>b\<in>set js. q_ID b \<noteq> q_ID j" by (metis image_eqI)
    then have "map (\<lambda>b. if q_ID b = q_ID j then x else b) js = js" by (simp add: map_idI)
    with True \<open>\<forall>b\<in>set js. q_ID b \<noteq> q_ID j\<close> show ?thesis by (auto simp: updateJob_def)
  next
    case False
    with Cons.prems have "q_ID a \<noteq> q_ID j" "j \<in> set js" by auto
    with Cons False show ?thesis by (auto simp: updateJob_def)
  qed
qed simp

lemma updateJob_ids:
  "(\<And>j. q_ID j = i \<Longrightarrow> q_ID (f j) = i) \<Longrightarrow> map q_ID (updateJob i f js) = map q_ID js"
  by (induction js) (auto simp: updateJob_def)

section \<open>The invariant of the table\<close>

definition wf_row :: "time \<Rightarrow> QueueJob \<Rightarrow> bool" where
  "wf_row now j = (0 \<le> q_AttemptCount j \<and> q_AttemptCount j \<le> q_MaxAttempts j
     \<and> (case q_Status j of
          QueueJobPending \<Rightarrow> q_ClaimedAt j = None \<and> q_FinishedAt j = None
        | QueueJobProcessing \<Rightarrow> (\<exists>t\<le>now. q_ClaimedAt j = Some t) \<and> q_FinishedAt j = None \<and> 0 < q_AttemptCount j
        | _ \<Rightarrow> (\<exists>t\<le>now. q_FinishedAt j = Some t) \<and> 0 < q_AttemptCount j))"

definition wf_relay :: "time \<Rightarrow> relay \<Rightarrow> bool" where
  "wf_relay now r = (distinct (map q_ID (jobs r)) \<and> (\<forall>j\<in>set (jobs r). wf_row now j))"

lemma wf_row_mono: "wf_row now j \<Longrightarrow> now \<le> now' \<Longrightarrow> wf_row now' j"
  unfolding wf_row_def by (cases "q_Status j") fastforce+

lemma wf_relay_mono: "wf_relay now r \<Longrightarrow> now \<le> now' \<Longrightarrow> wf_relay now' r"
  by (auto simp: wf_relay_def wf_row_mono)

lemma wf_relay_jobs: "jobs r' = jobs r \<Longrightarrow> wf_relay now r' = wf_relay now r"
  by (simp add: wf_relay_def)

lemma wf_relay_map:
  assumes "wf_relay now r" "jobs r' = map f (jobs r)" "\<And>j. j \<in> set (jobs r) \<Longrightarrow> q_ID (f j) = q_ID j"
    and "\<And>j. j \<in> set (jobs r) \<Longrightarrow> wf_row now j \<Longrightarrow> wf_row now (f j)"
  shows "wf_relay now r'"
proof -
  have "map q_ID (jobs r') = map q_ID (jobs r)" using assms(2,3) by (simp add: comp_def cong: map_cong)
  then have "distinct (map q_ID (jobs r'))" using assms(1) by (simp add: wf_relay_def)
  moreover have "\<forall>j\<in>set (jobs r'). wf_row now j" using assms(1,2,4) by (auto simp: wf_relay_def)
  ultimately show ?thesis by (simp add: wf_relay_def)
qed

lemma tracker_record_jobs [simp]: "jobs (tracker_record t r) = jobs r"
  by (simp add: tracker_record_def split: option.split)

lemma sweepExpired_wf [inv_intro]:
  assumes "wf_relay now r"
  shows "wf_relay now (sweepExpired now r)"
  by (rule wf_relay_map [OF assms, OF sweepExpired_def [THEN arg_cong [where f = jobs], simplified]])
     (auto simp: wf_row_def)

lemma claimedRow_wf: "wf_row now j \<Longrightarrow> claimable j \<Longrightarrow> wf_row now (claimedRow now j)"
  by (auto simp: wf_row_def claimable_def claimedRow_def)

lemma tryClaimOne_Some:
  assumes "tryClaimOne now r = (r', Some c)"
  shows "\<exists>j\<in>set (jobs r). claimable j \<and> c = claimedRow now j \<and> (\<forall>k\<in>set (jobs r). claimable k \<longrightarrow> q_CreatedAt j \<le> q_CreatedAt k)
    \<and> jobs r' = updateJob (q_ID j) (\<lambda>_. c) (jobs r)"
  using assms oldestClaimable_Some [of "jobs r"]
  by (auto simp: tryClaimOne_def split: option.splits)

lemma tryClaimOne_wf [inv_intro]:
  assumes "wf_relay now r" "tryClaimOne now r = (r', c)"
  shows "wf_relay now r'"
proof (cases c)
  case None
  with assms show ?thesis by (auto simp: tryClaimOne_def split: option.splits)
next
  case (Some c')
  from tryClaimOne_Some [OF assms(2) [unfolded Some]] obtain j
    where j: "j \<in> set (jobs r)" "claimable j" "c' = claimedRow now j" "jobs r' = updateJob (q_ID j) (\<lambda>_. c') (jobs r)" by blast
  from assms(1) j have "wf_row now c'" by (auto simp: wf_relay_def claimedRow_wf)
  moreover have "map q_ID (jobs r') = map q_ID (jobs r)"
    unfolding j(4) by (rule updateJob_ids) (simp add: j(3) claimedRow_def)
  ultimately show ?thesis using assms(1) updateJob_lookup [of "jobs r" j c'] j by (auto simp: wf_relay_def)
qed

lemma Ack_wf [inv_intro]:
  assumes "wf_relay now r" "ack_Status req \<in> {QueueJobDone, QueueJobFailed}" "Ack now valid r req = (r', e)"
  shows "wf_relay now r'"
proof -
  let ?f = "\<lambda>j. if q_ID j = ack_JobID req \<and> q_Status j = QueueJobProcessing then ackedRow now req j else j"
  have "r' = r \<or> jobs r' = map ?f (jobs r)"
    using assms(3) by (auto simp: Ack_def Let_def split: if_splits)
  then show ?thesis
  proof
    assume "jobs r' = map ?f (jobs r)"
    then show ?thesis
      using assms(2) by (intro wf_relay_map [OF assms(1), where f = ?f]) (auto simp: ackedRow_def wf_row_def)
  qed (use assms(1) in simp)
qed

lemma bookkeeping_wf [simp]:
  "wf_relay now (IncrementUsage day who r) = wf_relay now r" "wf_relay now (pc_seen t r) = wf_relay now r"
  "wf_relay now (tracker_record t r) = wf_relay now r"
  by (simp_all add: wf_relay_def IncrementUsage_def pc_seen_def tracker_record_def split: option.split)

lemma filter_wf: "wf_relay now r \<Longrightarrow> wf_relay now (r\<lparr>jobs := filter P (jobs r)\<rparr>)"
  by (auto simp: wf_relay_def distinct_map_filter)

lemma CancelPending_jobs:
  "jobs (fst (CancelPending r i who)) = filter (\<lambda>j. \<not> (owned i who j \<and> q_Status j = QueueJobPending)) (jobs r)"
  by (simp add: CancelPending_def Let_def)

lemma CancelPending_wf [inv_intro]: "wf_relay now r \<Longrightarrow> wf_relay now (fst (CancelPending r i who))"
  by (simp add: CancelPending_def Let_def filter_wf)

lemma PurgeExpired_wf [inv_intro]: "wf_relay now r \<Longrightarrow> wf_relay now (fst (PurgeExpired now ttl r))"
  by (simp add: PurgeExpired_def filter_wf)

section \<open>Everything that happens to the table\<close>

text \<open>A state is the database clock with the relay; the clock only advances. Ids are fresh because
  the relay generates them.\<close>

inductive relay_step :: "(string \<Rightarrow> bool) \<Rightarrow> int \<Rightarrow> time \<times> relay \<Rightarrow> time \<times> relay \<Rightarrow> bool" for valid ttl where
  tick: "now \<le> now' \<Longrightarrow> relay_step valid ttl (now, r) (now', r)"
| enqueue: "\<lbrakk>q_ID job \<notin> q_ID ` set (jobs r); 0 < q_MaxAttempts job; Enqueue_job now valid r job = (r', None)\<rbrakk> \<Longrightarrow>
     relay_step valid ttl (now, r) (now, r')"
| sweep: "relay_step valid ttl (now, r) (now, sweepExpired now r)"
| claim: "tryClaimOne now r = (r', c) \<Longrightarrow> relay_step valid ttl (now, r) (now, r')"
| ack: "\<lbrakk>ack_Status req \<in> {QueueJobDone, QueueJobFailed}; Ack now valid r req = (r', e)\<rbrakk> \<Longrightarrow>
     relay_step valid ttl (now, r) (now, r')"
| cancel: "CancelPending r i who = (r', c) \<Longrightarrow> relay_step valid ttl (now, r) (now, r')"
| purge: "relay_step valid ttl (now, r) (now, sweepIfDue now ttl ok1 ok2 r)"
| count: "relay_step valid ttl (now, r) (now, IncrementUsage day who r)"
| hear: "relay_step valid ttl (now, r) (now, pc_seen now r)"

inductive relay_reachable :: "(string \<Rightarrow> bool) \<Rightarrow> int \<Rightarrow> time \<times> relay \<Rightarrow> time \<times> relay \<Rightarrow> bool" for valid ttl x0 where
  start: "relay_reachable valid ttl x0 x0"
| more: "relay_reachable valid ttl x0 x \<Longrightarrow> relay_step valid ttl x y \<Longrightarrow> relay_reachable valid ttl x0 y"

inductive_cases relay_stepE: "relay_step valid ttl x y"
inductive_simps relay_step_iff: "relay_step valid ttl (now, r) (now', r')"

lemma Enqueue_job_wf:
  assumes "wf_relay now r" "q_ID job \<notin> q_ID ` set (jobs r)" "0 < q_MaxAttempts job" "Enqueue_job now valid r job = (r', None)"
  shows "wf_relay now r'"
  using assms by (auto simp: Enqueue_job_def wf_relay_def wf_row_def sig_notify_def split: if_splits)

lemma sweepIfDue_jobs:
  "jobs (sweepIfDue now ttl ok1 ok2 r) = jobs r \<or> jobs (sweepIfDue now ttl ok1 ok2 r) = filter (\<lambda>j. \<not> expired now ttl j) (jobs r)"
  by (auto simp: sweepIfDue_def tracker_peek_def tracker_take_def PurgeExpired_def Let_def split: option.split)

lemma sweepIfDue_wf: "wf_relay now r \<Longrightarrow> wf_relay now (sweepIfDue now ttl ok1 ok2 r)"
  using sweepIfDue_jobs [of now ttl ok1 ok2 r] by (auto simp: wf_relay_def distinct_map_filter)

lemma relay_step_wf [inv_intro]:
  assumes "relay_step valid ttl (now, r) (now', r')" "wf_relay now r"
  shows "now \<le> now' \<and> wf_relay now' r'"
  using assms
proof (cases rule: relay_step.cases)
  case tick
  with assms(2) show ?thesis by (auto intro: wf_relay_mono)
next
  case (enqueue job)
  with assms(2) Enqueue_job_wf show ?thesis by blast
next
  case (claim c)
  with assms(2) tryClaimOne_wf show ?thesis by blast
next
  case (ack req e)
  with assms(2) Ack_wf show ?thesis by blast
next
  case (cancel i who c)
  with assms(2) CancelPending_wf [of now r i who] show ?thesis by simp
qed (use assms(2) in \<open>auto simp: sweepExpired_wf sweepIfDue_wf\<close>)

section \<open>Properties of a job's life\<close>

lemma reachable_wf:
  "relay_reachable valid ttl x y \<Longrightarrow> wf_relay (fst x) (snd x) \<Longrightarrow> wf_relay (fst y) (snd y)"
proof (induction rule: relay_reachable.induct)
  case (more x y)
  then show ?case using relay_step_wf [of valid ttl "fst x" "snd x" "fst y" "snd y"] by simp
qed

text \<open>
  C12. In every reachable state of the relay, under any interleaving of clients, workers and sweeps,
  ids are unique and each row is consistent: it has been claimed at most its maximum number of
  attempts, a pending row carries no claim, a processing row carries one, and exactly the done and
  failed rows have a finish time.
\<close>

theorem relay_invariant:
  assumes "relay_reachable valid ttl (now0, r0) (now, r)" and "jobs r0 = []"
  shows "distinct (map q_ID (jobs r)) \<and> (\<forall>j\<in>set (jobs r). 0 \<le> q_AttemptCount j \<and> q_AttemptCount j \<le> q_MaxAttempts j
    \<and> (q_Status j = QueueJobPending \<longrightarrow> q_ClaimedAt j = None)
    \<and> (q_Status j = QueueJobProcessing \<longrightarrow> (\<exists>t\<le>now. q_ClaimedAt j = Some t))
    \<and> (terminal j \<longleftrightarrow> q_FinishedAt j \<noteq> None))"
proof -
  have "wf_relay now0 r0" using assms(2) by (simp add: wf_relay_def)
  with reachable_wf [OF assms(1)] have wf: "wf_relay now r" by simp
  have row: "0 \<le> q_AttemptCount j \<and> q_AttemptCount j \<le> q_MaxAttempts j
    \<and> (q_Status j = QueueJobPending \<longrightarrow> q_ClaimedAt j = None)
    \<and> (q_Status j = QueueJobProcessing \<longrightarrow> (\<exists>t\<le>now. q_ClaimedAt j = Some t))
    \<and> (terminal j \<longleftrightarrow> q_FinishedAt j \<noteq> None)" if "wf_row now j" for j
    using that by (cases "q_Status j") (auto simp: wf_row_def terminal_def)
  with wf show ?thesis by (auto simp: wf_relay_def)
qed

definition sweptRow :: "time \<Rightarrow> QueueJob \<Rightarrow> QueueJob" where
  "sweptRow now j = (if q_Status j = QueueJobProcessing \<and> (case q_ClaimedAt j of None \<Rightarrow> False | Some t \<Rightarrow> t < now - VisibilityTimeoutMS)
      then j\<lparr>q_Status := QueueJobPending, q_ClaimedAt := None\<rparr> else j)"

lemma sweepExpired_jobs: "jobs (sweepExpired now r) = map (sweptRow now) (jobs r)"
  by (simp add: sweepExpired_def sweptRow_def)

lemma sweptRow_same [simp]:
  "q_ID (sweptRow now j) = q_ID j" "q_AttemptCount (sweptRow now j) = q_AttemptCount j"
  "q_MaxAttempts (sweptRow now j) = q_MaxAttempts j" "q_CreatedAt (sweptRow now j) = q_CreatedAt j"
  "q_Payload (sweptRow now j) = q_Payload j" "q_Identity (sweptRow now j) = q_Identity j"
  by (simp_all add: sweptRow_def)


text \<open>
  \<open>Claim\<close> comes back empty only when there was nothing to hand out: when the long poll ends
  without a job, no row of the table it last looked at could be claimed, however often it was woken
  before and whatever others did in between.
\<close>

lemma Claim_empty_means_none:
  "Claim now r wakes = (r', NoJob) \<Longrightarrow> \<forall>j\<in>set (jobs r'). \<not> claimable j"
proof (induction wakes arbitrary: now r)
  case Nil
  then show ?case by (subst (asm) Claim.simps) (auto split: prod.splits option.splits)
next
  case (Cons w ws)
  obtain r1 c where t: "tryClaimOne now (sweepExpired now r) = (r1, c)" by fastforce
  show ?case
  proof (cases c)
    case (Some j)
    with Cons.prems t show ?thesis by (subst (asm) Claim.simps) simp
  next
    case None
    with t have none: "\<forall>j\<in>set (jobs r1). \<not> claimable j"
      by (auto simp: tryClaimOne_def oldestClaimable_None split: option.splits)
    show ?thesis
    proof (cases w)
      case (Added now' others)
      with Cons.prems t None have "Claim now' (others r1) ws = (r', NoJob)" by (subst (asm) Claim.simps) simp
      then show ?thesis by (rule Cons.IH)
    qed (use Cons.prems t None none in \<open>(subst (asm) Claim.simps, simp)+\<close>)
  qed
qed

text \<open>
  C14. A result is final and stays available for its time to live: no step of the relay changes a
  row that is done or failed, and the only step that removes one is the purge, after its finish
  time plus the time to live.
\<close>

theorem result_final:
  assumes "wf_relay now r" and "relay_step valid ttl (now, r) (now', r')" and "j \<in> set (jobs r)" and "terminal j"
  shows "j \<in> set (jobs r') \<or> (\<exists>f. q_FinishedAt j = Some f \<and> f + ttl < now)"
proof -
  have np: "q_Status j \<noteq> QueueJobPending" "q_Status j \<noteq> QueueJobProcessing" "\<not> claimable j"
    using assms(4) by (auto simp: terminal_def claimable_def)
  show ?thesis using assms(2)
  proof (cases rule: relay_step.cases)
    case (enqueue job)
    with assms(3) show ?thesis by (auto simp: Enqueue_job_def sig_notify_def split: if_splits)
  next
    case sweep
    have "j = sweptRow now j" using np by (simp add: sweptRow_def)
    with assms(3) have "j \<in> sweptRow now ` set (jobs r)" by (metis image_eqI)
    with sweep show ?thesis by (simp add: sweepExpired_jobs)
  next
    case (claim c)
    show ?thesis
    proof (cases c)
      case None
      with claim assms(3) show ?thesis by (auto simp: tryClaimOne_def split: option.splits)
    next
      case (Some c')
      from tryClaimOne_Some [OF claim(2) [unfolded Some]] obtain k
        where k: "k \<in> set (jobs r)" "claimable k" "jobs r' = updateJob (q_ID k) (\<lambda>_. c') (jobs r)" by blast
      have "distinct (map q_ID (jobs r))" using assms(1) by (simp add: wf_relay_def)
      from updateJob_lookup [OF this k(1), of c'] k np assms(3) show ?thesis by auto
    qed
  next
    case (ack req e)
    have "jobs r' = jobs r \<or> jobs r' = map (\<lambda>j. if q_ID j = ack_JobID req \<and> q_Status j = QueueJobProcessing then ackedRow now req j else j) (jobs r)"
      using ack(3) by (auto simp: Ack_def Let_def split: if_splits)
    with assms(3) np show ?thesis by (auto intro: rev_image_eqI)
  next
    case (cancel i who c)
    with assms(3) np CancelPending_jobs [of r i who] show ?thesis by simp
  next
    case (purge ok1 ok2)
    with sweepIfDue_jobs [of now ttl ok1 ok2 r] assms(3) show ?thesis
      by (auto simp: expired_def split: option.splits)
  qed (use assms(3) in \<open>auto simp: IncrementUsage_def pc_seen_def split: option.split\<close>)
qed

text \<open>
  Jobs belong to their caller. A result lookup succeeds only for the identity that enqueued the
  job, the same id under any other identity reads as not found, and a cancel under any other
  identity leaves the whole table as it is.
\<close>

lemma results_isolated:
  assumes "wf_relay now r" and "j \<in> set (jobs r)" and "who \<noteq> q_Identity j"
  shows "GetResult r (q_ID j) (q_Identity j) = Some \<lparr>rr_Status = q_Status j, rr_ResultPayload = q_ResultPayload j,
      rr_ErrorCode = (case q_ErrorCode j of None \<Rightarrow> '''' | Some c \<Rightarrow> c)\<rparr>
    \<and> GetResult r (q_ID j) who = None \<and> CancelPending r (q_ID j) who = (r, CancelNotFound)"
proof -
  have uniq: "k = j" if "k \<in> set (jobs r)" "q_ID k = q_ID j" for k
    using assms(1,2) that by (auto simp: wf_relay_def distinct_map dest: inj_onD)
  have "find (owned (q_ID j) (q_Identity j)) (jobs r) \<noteq> None"
    using assms(2) by (auto simp: find_None_all owned_def)
  then obtain k where k: "find (owned (q_ID j) (q_Identity j)) (jobs r) = Some k" by blast
  then have "k = j" using find_Some_mem [OF k] uniq by (auto simp: owned_def)
  moreover have no: "\<not> owned (q_ID j) who k" if "k \<in> set (jobs r)" for k
    using uniq [OF that] assms(3) by (auto simp: owned_def)
  then have "find (owned (q_ID j) who) (jobs r) = None" by (simp add: find_None_all)
  moreover have "CancelPending r (q_ID j) who = (r, CancelNotFound)"
  proof -
    have f: "filter (\<lambda>k. \<not> (owned (q_ID j) who k \<and> q_Status k = QueueJobPending)) (jobs r) = jobs r"
      using no by (simp add: filter_id_conv)
    have "\<not> list_ex (\<lambda>k. owned (q_ID j) who k \<and> q_Status k = QueueJobPending) (jobs r)"
      "\<not> list_ex (owned (q_ID j) who) (jobs r)" using no by (auto simp: list_ex_iff)
    then show ?thesis unfolding CancelPending_def Let_def f by simp
  qed
  ultimately show ?thesis using k by (simp add: GetResult_def)
qed

text \<open>The tracker's record is sound when it is no later than any finish time, or already due.\<close>

definition tracked :: "time \<Rightarrow> int \<Rightarrow> relay \<Rightarrow> bool" where
  "tracked now ttl r = (\<forall>j\<in>set (jobs r). terminal j \<longrightarrow>
     (\<exists>f t. q_FinishedAt j = Some f \<and> oldestFinish r = Some t \<and> t \<le> max f (now - ttl)))"

lemma tracker_record_le:
  "\<exists>t'. oldestFinish (tracker_record t r) = Some t' \<and> t' \<le> t \<and> (\<forall>o'. oldestFinish r = Some o' \<longrightarrow> t' \<le> o')"
  by (auto simp: tracker_record_def split: option.split)

lemma tracked_record:
  assumes "tracked now ttl r"
  shows "tracked now ttl (tracker_record t r)"
proof -
  obtain t' where t': "oldestFinish (tracker_record t r) = Some t'" "\<forall>o'. oldestFinish r = Some o' \<longrightarrow> t' \<le> o'"
    using tracker_record_le [of t r] by blast
  show ?thesis unfolding tracked_def
  proof (intro ballI impI)
    fix j
    assume "j \<in> set (jobs (tracker_record t r))" "terminal j"
    with assms obtain f o' where "q_FinishedAt j = Some f" "oldestFinish r = Some o'" "o' \<le> max f (now - ttl)"
      unfolding tracked_def by auto
    with t' show "\<exists>f t'. q_FinishedAt j = Some f \<and> oldestFinish (tracker_record t r) = Some t' \<and> t' \<le> max f (now - ttl)"
      by (metis order_trans)
  qed
qed

lemma tracked_all:
  assumes "\<forall>j\<in>set (jobs r). terminal j \<longrightarrow> q_FinishedAt j \<noteq> None" and "\<forall>f j. j \<in> set (jobs r) \<and> terminal j \<and> q_FinishedAt j = Some f \<longrightarrow> t \<le> max f (now - ttl)"
  shows "tracked now ttl (tracker_record t r)"
proof -
  obtain t' where t': "oldestFinish (tracker_record t r) = Some t'" "t' \<le> t" using tracker_record_le [of t r] by blast
  show ?thesis unfolding tracked_def
  proof (intro ballI impI)
    fix j
    assume j: "j \<in> set (jobs (tracker_record t r))" "terminal j"
    with assms(1) obtain f where f: "q_FinishedAt j = Some f" by auto
    with j assms(2) have "t \<le> max f (now - ttl)" by (metis tracker_record_jobs)
    with t' f show "\<exists>f t'. q_FinishedAt j = Some f \<and> oldestFinish (tracker_record t r) = Some t' \<and> t' \<le> max f (now - ttl)" by auto
  qed
qed

lemma OldestFinishedAt_le:
  assumes "j \<in> set (jobs r)" "terminal j" "q_FinishedAt j = Some f"
  shows "\<exists>t. OldestFinishedAt r = Some t \<and> t \<le> f"
proof -
  have "f \<in> set (List.map_filter (\<lambda>j. if terminal j then q_FinishedAt j else None) (jobs r))"
    using assms by (force simp: map_filter_def)
  then show ?thesis unfolding OldestFinishedAt_def Let_def by (auto intro!: Min_le)
qed

lemma tracked_oldest:
  assumes "\<forall>j\<in>set (jobs r). terminal j \<longrightarrow> q_FinishedAt j \<noteq> None"
  shows "tracked now ttl (case OldestFinishedAt r of None \<Rightarrow> r | Some t \<Rightarrow> tracker_record t r)"
proof (cases "OldestFinishedAt r")
  case None
  with OldestFinishedAt_le [of _ r] assms show ?thesis by (fastforce simp: tracked_def)
next
  case (Some t)
  have "t \<le> max f (now - ttl)" if "j \<in> set (jobs r)" "terminal j" "q_FinishedAt j = Some f" for j f
    using OldestFinishedAt_le [OF that] Some by auto
  with Some tracked_all [OF assms, of t now ttl] show ?thesis by auto
qed

lemma sweepIfDue_tracked:
  assumes "tracked now ttl r" and fin: "\<forall>j\<in>set (jobs r). terminal j \<longrightarrow> q_FinishedAt j \<noteq> None"
  shows "tracked now ttl (sweepIfDue now ttl ok1 ok2 r)"
proof (cases "\<exists>t. oldestFinish r = Some t \<and> \<not> now < t + ttl")
  case False
  then have "sweepIfDue now ttl ok1 ok2 r = r"
    by (auto simp: sweepIfDue_def tracker_peek_def split: option.split)
  with assms show ?thesis by simp
next
  case True
  then obtain t where t: "oldestFinish r = Some t" "t \<le> now - ttl" by auto
  let ?r1 = "r\<lparr>oldestFinish := None\<rparr>" and ?r2 = "fst (PurgeExpired now ttl (r\<lparr>oldestFinish := None\<rparr>))"
  have fin1: "\<forall>j\<in>set (jobs ?r1). terminal j \<longrightarrow> q_FinishedAt j \<noteq> None"
    and fin2: "\<forall>j\<in>set (jobs ?r2). terminal j \<longrightarrow> q_FinishedAt j \<noteq> None" using fin by (auto simp: PurgeExpired_def)
  have "tracked now ttl (tracker_record t ?r1)" by (rule tracked_all [OF fin1]) (use t in auto)
  moreover have "tracked now ttl (tracker_record (now - ttl) ?r2)" by (rule tracked_all [OF fin2]) auto
  moreover note tracked_oldest [OF fin2, of now ttl]
  moreover have "sweepIfDue now ttl ok1 ok2 r = (if \<not> ok1 then tracker_record t ?r1 else if \<not> ok2 then tracker_record (now - ttl) ?r2
      else (case OldestFinishedAt ?r2 of None \<Rightarrow> ?r2 | Some t \<Rightarrow> tracker_record t ?r2))"
    using t by (simp add: sweepIfDue_def tracker_peek_def tracker_take_def Let_def)
  ultimately show ?thesis by simp
qed

lemma Ack_tracked:
  assumes "tracked now ttl r" "ack_Status req \<in> {QueueJobDone, QueueJobFailed}" "Ack now valid r req = (r', e)" "0 \<le> ttl"
  shows "tracked now ttl r'"
proof -
  let ?hit = "\<lambda>j. q_ID j = ack_JobID req \<and> q_Status j = QueueJobProcessing"
  let ?r1 = "r\<lparr>jobs := map (\<lambda>j. if ?hit j then ackedRow now req j else j) (jobs r)\<rparr>"
  have "r' = r \<or> r' = (if list_ex ?hit (jobs r) then tracker_record now ?r1 else ?r1)"
  proof (cases "ack_ResultPayload req \<noteq> '''' \<and> \<not> valid (ack_ResultPayload req)")
    case True
    with assms(3) show ?thesis by (simp add: Ack_def)
  next
    case False
    then have "fst (Ack now valid r req) = (if list_ex ?hit (jobs r) then tracker_record now ?r1 else ?r1)"
      unfolding Ack_def Let_def by (simp only: if_False fst_conv)
    with assms(3) show ?thesis by simp
  qed
  then consider (same) "r' = r" | (miss) "\<not> list_ex ?hit (jobs r)" "r' = ?r1" | (hit) "list_ex ?hit (jobs r)" "r' = tracker_record now ?r1"
    by (cases "list_ex ?hit (jobs r)") (simp_all only: if_True if_False, blast+)
  then show ?thesis
  proof cases
    case miss
    then have "map (\<lambda>j. if ?hit j then ackedRow now req j else j) (jobs r) = jobs r"
      by (auto simp: list_ex_iff intro!: map_idI)
    with miss assms(1) show ?thesis by simp
  next
    case hit
    obtain t' where t': "oldestFinish r' = Some t'" "t' \<le> now" "\<forall>o'. oldestFinish r = Some o' \<longrightarrow> t' \<le> o'"
      using tracker_record_le [of now ?r1] hit by auto
    show ?thesis unfolding tracked_def
    proof (intro ballI impI)
      fix k
      assume k: "k \<in> set (jobs r')" "terminal k"
      then obtain j where j: "j \<in> set (jobs r)" "k = (if ?hit j then ackedRow now req j else j)" using hit by auto
      show "\<exists>f t. q_FinishedAt k = Some f \<and> oldestFinish r' = Some t \<and> t \<le> max f (now - ttl)"
      proof (cases "?hit j")
        case True
        with j t' show ?thesis by (simp add: ackedRow_def)
      next
        case False
        with assms(1) j k obtain f o' where "q_FinishedAt k = Some f" "oldestFinish r = Some o'" "o' \<le> max f (now - ttl)"
          unfolding tracked_def by auto
        with t' show ?thesis by (metis order_trans)
      qed
    qed
  qed (use assms(1) in simp)
qed


section \<open>A job that has used up its attempts\<close>

text \<open>Once a job's last claim has lapsed it is pending with no attempts left: it is never handed out
  again, never finishes, and no step but its owner's cancel removes it, so it counts as pending
  forever. A late acknowledgement of that last attempt changes nothing.\<close>

lemma exhausted_job_stays:
  assumes "wf_relay now r" "relay_step valid ttl (now, r) (now', r')" "j \<in> set (jobs r)"
    and "q_Status j = QueueJobPending" "q_AttemptCount j = q_MaxAttempts j"
  shows "j \<in> set (jobs r') \<or> (\<exists>c. CancelPending r (q_ID j) (q_Identity j) = (r', c))"
  using assms(2)
proof (cases rule: relay_step.cases)
  case (enqueue job)
  with assms(3) show ?thesis by (auto simp: Enqueue_job_def sig_notify_def split: if_splits)
next
  case sweep
  have "j = sweptRow now j" using assms(4) by (simp add: sweptRow_def)
  with assms(3) have "j \<in> sweptRow now ` set (jobs r)" by (metis image_eqI)
  with sweep show ?thesis by (simp add: sweepExpired_jobs)
next
  case (claim c)
  show ?thesis
  proof (cases c)
    case None
    with claim assms(3) show ?thesis by (auto simp: tryClaimOne_def split: option.splits)
  next
    case (Some c')
    from tryClaimOne_Some [OF claim(2) [unfolded Some]] obtain k
      where k: "k \<in> set (jobs r)" "claimable k" "jobs r' = updateJob (q_ID k) (\<lambda>_. c') (jobs r)" by blast
    have "distinct (map q_ID (jobs r))" using assms(1) by (simp add: wf_relay_def)
    from updateJob_lookup [OF this k(1), of c'] k assms(3,5) show ?thesis by (auto simp: claimable_def)
  qed
next
  case (ack req e)
  have "jobs r' = jobs r \<or> jobs r' = map (\<lambda>j. if q_ID j = ack_JobID req \<and> q_Status j = QueueJobProcessing then ackedRow now req j else j) (jobs r)"
    using ack(3) by (auto simp: Ack_def Let_def split: if_splits)
  with assms(3,4) show ?thesis by (auto intro: rev_image_eqI)
next
  case (cancel i who c)
  show ?thesis
  proof (cases "owned i who j")
    case True
    with cancel show ?thesis by (auto simp: owned_def)
  next
    case False
    with cancel assms(3) CancelPending_jobs [of r i who] show ?thesis by simp
  qed
next
  case (purge ok1 ok2)
  have "\<not> expired now ttl j" using assms(4) by (simp add: expired_def terminal_def)
  with purge sweepIfDue_jobs [of now ttl ok1 ok2 r] assms(3) show ?thesis by auto
qed (use assms(3) in \<open>auto simp: IncrementUsage_def pc_seen_def split: option.split\<close>)

section \<open>A concrete table\<close>

definition exampleRow :: "string \<Rightarrow> string \<Rightarrow> QueueJob" where
  "exampleRow i who = \<lparr>q_ID = i, q_CorrelationID = ''c'', q_Status = QueueJobPending, q_Payload = ''{}'', q_ResultPayload = None,
     q_ErrorCode = None, q_CreatedAt = 10, q_ClaimedAt = None, q_FinishedAt = None, q_AttemptCount = 0, q_MaxAttempts = 3, q_Identity = who\<rparr>"

definition exampleDoneRow :: QueueJob where
  "exampleDoneRow = (exampleRow ''d'' ''app:x'')\<lparr>q_Status := QueueJobDone, q_AttemptCount := 1, q_ClaimedAt := Some 20, q_FinishedAt := Some 40\<rparr>"

definition emptyTable :: relay where
  "emptyTable = \<lparr>jobs = [], usage = (\<lambda>_. 0), members = [], oldestFinish = None, signals = 0, pcLast = None\<rparr>"

definition exampleTable :: relay where
  "exampleTable = emptyTable\<lparr>jobs := [exampleDoneRow, exampleRow ''p'' ''user:y''], oldestFinish := Some 40\<rparr>"

lemma exampleTable_wf: "wf_relay 100 exampleTable"
  by (simp add: wf_relay_def exampleTable_def exampleDoneRow_def exampleRow_def wf_row_def emptyTable_def)

lemmas exampleTable_defs = exampleTable_def exampleDoneRow_def exampleRow_def emptyTable_def

theorem relay_invariant_witness:
  "distinct (map q_ID (jobs (fst (Enqueue_job 5 (\<lambda>_. True) emptyTable (exampleRow ''p'' ''user:y'')))))"
proof -
  obtain r' where e: "Enqueue_job 5 (\<lambda>_. True) emptyTable (exampleRow ''p'' ''user:y'') = (r', None)"
    by (simp add: Enqueue_job_def)
  have "relay_step (\<lambda>_. True) 60 (5, emptyTable) (5, r')"
    by (rule relay_step.enqueue [OF _ _ e]) (simp_all add: exampleTable_defs)
  from relay_invariant [OF relay_reachable.more [OF relay_reachable.start this]] e show ?thesis
    by (simp add: emptyTable_def)
qed


lemma Claim_empty_means_none_witness:
  "snd (Claim 100 (emptyTable\<lparr>jobs := [exampleDoneRow]\<rparr>) [PollTimeout]) = NoJob
   \<and> list_all (\<lambda>j. \<not> claimable j) (jobs (fst (Claim 100 (emptyTable\<lparr>jobs := [exampleDoneRow]\<rparr>) [PollTimeout])))"
proof -
  have n: "snd (Claim 100 (emptyTable\<lparr>jobs := [exampleDoneRow]\<rparr>) [PollTimeout]) = NoJob"
    by (subst Claim.simps) (simp add: tryClaimOne_def sweepExpired_def exampleTable_defs claimable_def)
  let ?r = "fst (Claim 100 (emptyTable\<lparr>jobs := [exampleDoneRow]\<rparr>) [PollTimeout])"
  have "Claim 100 (emptyTable\<lparr>jobs := [exampleDoneRow]\<rparr>) [PollTimeout] = (?r, NoJob)"
    using n by (simp add: prod_eq_iff)
  from Claim_empty_means_none [OF this] n show ?thesis by (simp add: list_all_iff)
qed

theorem result_final_witness:
  "exampleDoneRow \<in> set (jobs (sweepExpired 100 exampleTable))"
proof -
  have "terminal exampleDoneRow" "exampleDoneRow \<in> set (jobs exampleTable)" by (simp_all add: terminal_def exampleTable_defs)
  with result_final [OF exampleTable_wf relay_step.sweep [where valid = "\<lambda>_. True" and ttl = 3600000], of exampleDoneRow]
  show ?thesis by (auto simp: exampleTable_defs)
qed

lemma results_isolated_witness:
  "GetResult exampleTable ''d'' ''app:other'' = None \<and> GetResult exampleTable ''d'' ''app:x'' \<noteq> None"
  using results_isolated [OF exampleTable_wf, of exampleDoneRow "''app:other''"]
  by (simp add: exampleTable_defs)


end
