(* ===== verification/Relay_Auth.thy ===== *)
theory Relay_Auth
  imports Relay_Store Apps_Spec
begin

text \<open>
  Who may call the hosted relay and how often: the app and key tables of
  \<open>src/internal/railwayq/appstore.go\<close>, the per-identity limiter of \<open>ratelimit.go\<close>, the configuration of
  \<open>config.go\<close> and the identity resolution of \<open>auth.go\<close>. SHA-256, the token verifier, JSON decoding and
  the token bucket of \<open>golang.org/x/time/rate\<close> are arguments. Each query of a request may fail; \<open>ok\<close>
  says which of them succeed, by name.
\<close>

section \<open>Configuration\<close>

record relayConfig =
  ResultTTL :: int
  MaxPendingDepth :: int
  RatePerMin :: rat
  DailyQuota :: int
  MaxBodyBytes :: int
  StackJWKSURL :: string
  StackProjectID :: string
  StaticAPIKey :: string
  AppIPSalt :: string
  OpenRouterKey :: string
  HostedModel :: string

definition envInt :: "(string \<Rightarrow> string) \<Rightarrow> (string \<Rightarrow> int option) \<Rightarrow> string \<Rightarrow> int \<Rightarrow> int" where
  "envInt env atoi key fallback =
     (if env key \<noteq> '''' then (case atoi (env key) of Some n \<Rightarrow> n | None \<Rightarrow> fallback) else fallback)"

definition envFloat :: "(string \<Rightarrow> string) \<Rightarrow> (string \<Rightarrow> rat option) \<Rightarrow> string \<Rightarrow> rat \<Rightarrow> rat" where
  "envFloat env atof key fallback =
     (if env key \<noteq> '''' then (case atof (env key) of Some f \<Rightarrow> f | None \<Rightarrow> fallback) else fallback)"

text \<open>\<open>salt\<close> is the random salt of this start, \<open>defaultModel\<close> the hosted package's default.\<close>

definition LoadConfig :: "(string \<Rightarrow> string) \<Rightarrow> (string \<Rightarrow> int option) \<Rightarrow> (string \<Rightarrow> rat option) \<Rightarrow> string \<Rightarrow> string \<Rightarrow> relayConfig option" where
  "LoadConfig env atoi atof salt defaultModel =
     (let cfg = \<lparr>ResultTTL = envInt env atoi ''RESULT_TTL_SECONDS'' 3600 * 1000,
            MaxPendingDepth = envInt env atoi ''MAX_PENDING_DEPTH'' 500, RatePerMin = envFloat env atof ''RATE_PER_MIN'' 10,
            DailyQuota = envInt env atoi ''DAILY_QUOTA'' 200, MaxBodyBytes = envInt env atoi ''MAX_BODY_BYTES'' 65536,
            StackJWKSURL = env ''STACK_JWKS_URL'', StackProjectID = env ''STACK_PROJECT_ID'',
            StaticAPIKey = env ''QUEUE_API_KEY'',
            AppIPSalt = (if env ''APP_IP_SALT'' = '''' then salt else env ''APP_IP_SALT''),
            OpenRouterKey = env ''OPENROUTER_API_KEY'',
            HostedModel = (if env ''HOSTED_MODEL'' = '''' then defaultModel else env ''HOSTED_MODEL'')\<rparr>
      in if StackJWKSURL cfg \<noteq> '''' \<and> StackProjectID cfg = '''' then None
         else if StackJWKSURL cfg = '''' \<and> StaticAPIKey cfg = '''' then None
         else Some cfg)"

lemma LoadConfig_accepts_someone:
  "LoadConfig env atoi atof salt dm = Some cfg \<Longrightarrow>
     StaticAPIKey cfg \<noteq> '''' \<or> (StackJWKSURL cfg \<noteq> '''' \<and> StackProjectID cfg \<noteq> '''')"
  by (auto simp: LoadConfig_def Let_def split: if_splits)

section \<open>Apps and their keys\<close>

record appRow =
  ar_ID :: string
  ar_Spec :: string
  ar_Enabled :: bool

record keyRow =
  kr_Hash :: string
  kr_App :: string
  kr_Kind :: string
  kr_Prefix :: string
  kr_Revoked :: bool

record appDB =
  apps_of :: "appRow list"
  keys_of :: "keyRow list"

record App =
  app_Spec :: Spec
  app_Kind :: string

definition Identity :: "App \<Rightarrow> string" where "Identity a = ''app:'' @ sp_ID (app_Spec a)"

definition IsAppKey :: "string \<Rightarrow> bool" where
  "IsAppKey key = (has_prefix key (KeyPublishable @ ''_'') \<or> has_prefix key (KeySecret @ ''_''))"

datatype 'a lookup = Found 'a | NotFound | LookupFailed

text \<open>The join of keys and apps on the hash: the row of a live key with the row of its enabled app.\<close>

definition liveKey :: "appDB \<Rightarrow> string \<Rightarrow> (keyRow \<times> appRow) option" where
  "liveKey db h =
     (case find (\<lambda>k. kr_Hash k = h \<and> \<not> kr_Revoked k) (keys_of db) of
        None \<Rightarrow> None
      | Some k \<Rightarrow> map_option (Pair k) (find (\<lambda>a. ar_ID a = kr_App k \<and> ar_Enabled a) (apps_of db)))"

definition LookupKey :: "bool \<Rightarrow> (string \<Rightarrow> string) \<Rightarrow> (string \<Rightarrow> Spec option) \<Rightarrow> appDB \<Rightarrow> string \<Rightarrow> App lookup" where
  "LookupKey queryOk hashKey parseSpec db key =
     (if \<not> queryOk then LookupFailed
      else case liveKey db (hashKey key) of
             None \<Rightarrow> NotFound
           | Some (k, a) \<Rightarrow>
               (case parseSpec (ar_Spec a) of
                  None \<Rightarrow> LookupFailed
                | Some spec \<Rightarrow> Found \<lparr>app_Spec = spec, app_Kind = kr_Kind k\<rparr>))"

definition UpsertApp :: "(Spec \<Rightarrow> string) \<Rightarrow> Spec \<Rightarrow> appDB \<Rightarrow> appDB" where
  "UpsertApp encode spec db =
     (if list_ex (\<lambda>a. ar_ID a = sp_ID spec) (apps_of db)
      then db\<lparr>apps_of := map (\<lambda>a. if ar_ID a = sp_ID spec then a\<lparr>ar_Spec := encode spec\<rparr> else a) (apps_of db)\<rparr>
      else db\<lparr>apps_of := apps_of db @ [\<lparr>ar_ID = sp_ID spec, ar_Spec = encode spec, ar_Enabled = True\<rparr>]\<rparr>)"

text \<open>\<open>None\<close> is \<open>ErrNotFound\<close>: no row was affected.\<close>

definition SetAppEnabled :: "string \<Rightarrow> bool \<Rightarrow> appDB \<Rightarrow> appDB option" where
  "SetAppEnabled i en db =
     (if list_ex (\<lambda>a. ar_ID a = i) (apps_of db)
      then Some (db\<lparr>apps_of := map (\<lambda>a. if ar_ID a = i then a\<lparr>ar_Enabled := en\<rparr> else a) (apps_of db)\<rparr>)
      else None)"

definition keyPrefixLen :: nat where "keyPrefixLen = 12"

text \<open>\<open>random\<close> is the hexadecimal text of the 24 random bytes. The insert fails when the app is unknown
  (foreign key) or the hash or the prefix is taken (primary key, unique).\<close>

definition IssueKey :: "(string \<Rightarrow> string) \<Rightarrow> string \<Rightarrow> string \<Rightarrow> string \<Rightarrow> appDB \<Rightarrow> appDB \<times> string option" where
  "IssueKey hashKey random appID kind db =
     (if kind \<noteq> KeyPublishable \<and> kind \<noteq> KeySecret then (db, None)
      else let key = kind @ ''_'' @ random in
           if \<not> list_ex (\<lambda>a. ar_ID a = appID) (apps_of db)
              \<or> list_ex (\<lambda>k. kr_Hash k = hashKey key \<or> kr_Prefix k = take keyPrefixLen key) (keys_of db)
           then (db, None)
           else (db\<lparr>keys_of := keys_of db @ [\<lparr>kr_Hash = hashKey key, kr_App = appID, kr_Kind = kind,
                   kr_Prefix = take keyPrefixLen key, kr_Revoked = False\<rparr>]\<rparr>, Some key))"

definition RevokeKey :: "string \<Rightarrow> appDB \<Rightarrow> appDB option" where
  "RevokeKey prefix db =
     (if list_ex (\<lambda>k. kr_Prefix k = prefix \<and> \<not> kr_Revoked k) (keys_of db)
      then Some (db\<lparr>keys_of := map (\<lambda>k. if kr_Prefix k = prefix then k\<lparr>kr_Revoked := True\<rparr> else k) (keys_of db)\<rparr>)
      else None)"

section \<open>The rate limiter\<close>

record 'l rateOps =
  roNew :: "rat \<Rightarrow> int \<Rightarrow> 'l"
  roLimit :: "'l \<Rightarrow> rat"
  roSetLimit :: "rat \<Rightarrow> 'l \<Rightarrow> 'l"
  roSetBurst :: "int \<Rightarrow> 'l \<Rightarrow> 'l"
  roAllow :: "time \<Rightarrow> 'l \<Rightarrow> 'l \<times> bool"

type_synonym 'l Limiter = "string \<rightharpoonup> 'l \<times> time"

definition burstOf :: "rat \<Rightarrow> int" where
  "burstOf perMin = (let b = (if 0 \<le> perMin then \<lfloor>perMin\<rfloor> else \<lceil>perMin\<rceil>) in if b < 1 then 1 else b)"

definition AllowAt :: "'l rateOps \<Rightarrow> time \<Rightarrow> string \<Rightarrow> rat \<Rightarrow> 'l Limiter \<Rightarrow> 'l Limiter \<times> bool" where
  "AllowAt ro now identity perMin l =
     (let e = (case l identity of
                 None \<Rightarrow> roNew ro (perMin / 60) (burstOf perMin)
               | Some (e, _) \<Rightarrow>
                   if roLimit ro e \<noteq> perMin / 60 then roSetBurst ro (burstOf perMin) (roSetLimit ro (perMin / 60) e) else e);
          (e', allowed) = roAllow ro now e
      in (l(identity \<mapsto> (e', now)), allowed))"

definition evictIdle :: "time \<Rightarrow> int \<Rightarrow> 'l Limiter \<Rightarrow> 'l Limiter" where
  "evictIdle now older l = (\<lambda>i. case l i of None \<Rightarrow> None | Some (e, t) \<Rightarrow> if \<not> t > now - older then None else Some (e, t))"

section \<open>Identities\<close>

definition OwnerIdentity :: string where "OwnerIdentity = ''apikey''"

definition workerPaths :: "string list" where "workerPaths = [''/claim'', ''/ack'']"
definition publicPaths :: "string list" where "publicPaths = [''/healthz'', ''/docs'', ''/apps/ask'', ''/apps/status'']"

record 'l relayEnv =
  re_cfg :: relayConfig
  re_verify :: "(string \<Rightarrow> string option) option"
  re_hash :: "string \<Rightarrow> string"
  re_parse :: "string \<Rightarrow> Spec option"
  re_valid :: "string \<Rightarrow> bool"
  re_rate :: "'l rateOps"
  re_ok :: "string \<Rightarrow> bool"
  re_now :: time
  re_day :: int
  re_newID :: string
  re_wakes :: "wake list"
  re_after :: time

record 'l relaySrv =
  rs_db :: relay
  rs_apps :: appDB
  rs_lim :: "'l Limiter"

text \<open>A request with its body as the decoder delivers it.\<close>

datatype relayBody =
    BadJSON
  | TooLarge
  | EnqueueBody string string int
  | ClaimBody string
  | AckBody AckRequest

record relayReq =
  rq_method :: string
  rq_path :: string
  rq_authz :: string
  rq_apiKey :: string
  rq_body :: relayBody

datatype auth = Caller string "App option" | Denied nat

definition resolveIdentity :: "'l relayEnv \<Rightarrow> 'l relaySrv \<Rightarrow> relayReq \<Rightarrow> auth" where
  "resolveIdentity env st r =
     (case (has_prefix (rq_authz r) ''Bearer '', re_verify env) of
        (True, Some verify) \<Rightarrow>
          (case verify (trim_space (drop 7 (rq_authz r))) of
             None \<Rightarrow> Denied 401
           | Some subject \<Rightarrow>
               if \<not> re_ok env ''member'' then Denied 500
               else if \<not> IsAllowedMember (rs_db st) subject then Denied 403
               else Caller (''user:'' @ subject) None)
      | _ \<Rightarrow>
          if IsAppKey (rq_apiKey r) then
            (case LookupKey (re_ok env ''key'') (re_hash env) (re_parse env) (rs_apps st) (rq_apiKey r) of
               NotFound \<Rightarrow> Denied 401
             | Found a \<Rightarrow> if app_Kind a \<noteq> KeySecret then Denied 401 else Caller (Identity a) (Some a)
             | LookupFailed \<Rightarrow> Denied 500)
          else if StaticAPIKey (re_cfg env) \<noteq> '''' \<and> rq_apiKey r \<noteq> '''' \<and> rq_apiKey r = StaticAPIKey (re_cfg env)
          then Caller OwnerIdentity None
          else Denied 401)"

section \<open>Properties of the tables and the limiter\<close>

text \<open>One caller's requests never use up another's budget.\<close>

lemma AllowAt_others:
  "i \<noteq> identity \<Longrightarrow> fst (AllowAt ro now identity perMin l) i = l i"
  by (simp add: AllowAt_def Let_def case_prod_beta)

lemma owner_is_not_an_app: "OwnerIdentity \<noteq> Identity a" "OwnerIdentity \<noteq> ''user:'' @ u"
  by (simp_all add: OwnerIdentity_def Identity_def)

lemma IsAppKey_issued: "IssueKey h random appID kind db = (db', Some key) \<Longrightarrow> IsAppKey key"
  by (auto simp: IssueKey_def Let_def IsAppKey_def has_prefix_def KeyPublishable_def KeySecret_def split: if_splits)

text \<open>Reaching the worker identity takes the owner's key itself.\<close>

lemma resolveIdentity_owner:
  assumes "resolveIdentity env st r = Caller OwnerIdentity a"
  shows "rq_apiKey r = StaticAPIKey (re_cfg env) \<and> StaticAPIKey (re_cfg env) \<noteq> ''''"
proof (cases "has_prefix (rq_authz r) ''Bearer '' \<and> re_verify env \<noteq> None")
  case True
  then obtain verify where "re_verify env = Some verify" by blast
  with True assms show ?thesis
    by (auto simp: resolveIdentity_def owner_is_not_an_app [symmetric] OwnerIdentity_def split: option.splits if_splits)
next
  case False
  then have "(if IsAppKey (rq_apiKey r) then
            (case LookupKey (re_ok env ''key'') (re_hash env) (re_parse env) (rs_apps st) (rq_apiKey r) of
               NotFound \<Rightarrow> Denied 401
             | Found a \<Rightarrow> if app_Kind a \<noteq> KeySecret then Denied 401 else Caller (Identity a) (Some a)
             | LookupFailed \<Rightarrow> Denied 500)
          else if StaticAPIKey (re_cfg env) \<noteq> '''' \<and> rq_apiKey r \<noteq> '''' \<and> rq_apiKey r = StaticAPIKey (re_cfg env)
          then Caller OwnerIdentity None
          else Denied 401) = Caller OwnerIdentity a"
    using assms by (cases "has_prefix (rq_authz r) ''Bearer ''"; cases "re_verify env") (simp_all add: resolveIdentity_def)
  then show ?thesis
    by (auto simp: owner_is_not_an_app [symmetric] split: if_splits lookup.splits)
qed

text \<open>What the schema's constraints keep: one row per app, one row per hash and per prefix.\<close>

definition wf_appDB :: "appDB \<Rightarrow> bool" where
  "wf_appDB db = (distinct (map ar_ID (apps_of db)) \<and> distinct (map kr_Hash (keys_of db)) \<and> distinct (map kr_Prefix (keys_of db))
     \<and> set (map kr_App (keys_of db)) \<subseteq> set (map ar_ID (apps_of db)))"

lemma map_update_ids: "(\<And>x. g (f x) = g x) \<Longrightarrow> map g (map (\<lambda>x. if P x then f x else x) xs) = map g xs"
  by (induction xs) auto

lemma UpsertApp_wf:
  assumes "wf_appDB db"
  shows "wf_appDB (UpsertApp encode spec db)"
proof (cases "list_ex (\<lambda>a. ar_ID a = sp_ID spec) (apps_of db)")
  case True
  with assms show ?thesis by (simp add: wf_appDB_def UpsertApp_def map_update_ids del: map_map set_map)
next
  case False
  with assms show ?thesis by (auto simp: wf_appDB_def UpsertApp_def list_ex_iff)
qed

lemma SetAppEnabled_wf: "wf_appDB db \<Longrightarrow> SetAppEnabled i en db = Some db' \<Longrightarrow> wf_appDB db'"
  by (auto simp: wf_appDB_def SetAppEnabled_def map_update_ids simp del: map_map set_map split: if_splits)

lemma RevokeKey_wf: "wf_appDB db \<Longrightarrow> RevokeKey p db = Some db' \<Longrightarrow> wf_appDB db'"
  by (auto simp: wf_appDB_def RevokeKey_def map_update_ids simp del: map_map set_map split: if_splits)

lemma IssueKey_wf: "wf_appDB db \<Longrightarrow> IssueKey h random appID kind db = (db', res) \<Longrightarrow> wf_appDB db'"
  by (auto simp: wf_appDB_def IssueKey_def Let_def list_ex_iff image_iff subset_iff split: if_splits) metis+

lemma find_distinct:
  assumes "distinct (map f xs)" "x \<in> set xs" "P x"
  shows "find (\<lambda>y. f y = f x \<and> P y) xs = Some x"
  using assms by (induction xs) (auto simp: image_iff)

text \<open>A live key of an enabled app is found, whatever else the tables hold.\<close>

lemma liveKey_intro:
  assumes "wf_appDB db" "k \<in> set (keys_of db)" "\<not> kr_Revoked k" "a \<in> set (apps_of db)" "ar_ID a = kr_App k" "ar_Enabled a"
  shows "liveKey db (kr_Hash k) = Some (k, a)"
proof -
  from assms(1) have d: "distinct (map kr_Hash (keys_of db))" "distinct (map ar_ID (apps_of db))"
    by (simp_all add: wf_appDB_def)
  have "find (\<lambda>y. kr_Hash y = kr_Hash k \<and> \<not> kr_Revoked y) (keys_of db) = Some k"
    using find_distinct [OF d(1) assms(2), of "\<lambda>k. \<not> kr_Revoked k"] assms(3) by simp
  moreover have "find (\<lambda>y. ar_ID y = kr_App k \<and> ar_Enabled y) (apps_of db) = Some a"
    using find_distinct [OF d(2) assms(4), of ar_Enabled] assms(5,6) by simp
  ultimately show ?thesis by (simp add: liveKey_def)
qed

lemma liveKey_revoked:
  assumes "wf_appDB db" "k \<in> set (keys_of db)" "kr_Revoked k"
  shows "liveKey db (kr_Hash k) = None"
proof -
  have "\<not> (\<exists>y\<in>set (keys_of db). kr_Hash y = kr_Hash k \<and> \<not> kr_Revoked y)"
    using assms by (auto simp: wf_appDB_def distinct_map dest!: inj_onD)
  then have "find (\<lambda>y. kr_Hash y = kr_Hash k \<and> \<not> kr_Revoked y) (keys_of db) = None" by (auto simp: find_None_all)
  then show ?thesis by (simp add: liveKey_def)
qed

lemma liveKey_disabled:
  assumes "\<And>a. a \<in> set (apps_of db) \<Longrightarrow> ar_ID a = i \<Longrightarrow> \<not> ar_Enabled a" "wf_appDB db" "k \<in> set (keys_of db)" "kr_App k = i"
  shows "liveKey db (kr_Hash k) = None"
proof (cases "kr_Revoked k")
  case True
  with assms show ?thesis by (intro liveKey_revoked) auto
next
  case False
  from assms(2) have "distinct (map kr_Hash (keys_of db))" by (simp add: wf_appDB_def)
  from find_distinct [OF this assms(3), of "\<lambda>k. \<not> kr_Revoked k"] False
  have "find (\<lambda>y. kr_Hash y = kr_Hash k \<and> \<not> kr_Revoked y) (keys_of db) = Some k" by simp
  moreover have "find (\<lambda>a. ar_ID a = kr_App k \<and> ar_Enabled a) (apps_of db) = None"
    using assms(1,4) by (auto simp: find_None_all)
  ultimately show ?thesis by (simp add: liveKey_def)
qed

lemma issued_key:
  assumes "IssueKey h random appID kind db = (db', Some key)"
  obtains k where "k \<in> set (keys_of db')" "kr_Hash k = h key" "kr_App k = appID" "kr_Kind k = kind"
    "kr_Prefix k = take keyPrefixLen key" "\<not> kr_Revoked k" "apps_of db' = apps_of db" "appID \<in> ar_ID ` set (apps_of db)"
proof
  let ?k = "\<lparr>kr_Hash = h key, kr_App = appID, kr_Kind = kind, kr_Prefix = take keyPrefixLen key, kr_Revoked = False\<rparr>"
  show "?k \<in> set (keys_of db')" using assms by (auto simp: IssueKey_def Let_def split: if_splits)
  show "apps_of db' = apps_of db" "appID \<in> ar_ID ` set (apps_of db)"
    using assms by (auto simp: IssueKey_def Let_def list_ex_iff split: if_splits)
qed simp_all

text \<open>
  The life of an app key. Once a specification that parsed has been stored and a key issued for
  its app, the key resolves to exactly that specification and kind as long as the app is enabled;
  revoking the key, or disabling the app, makes it unknown at once. The JSON codec is assumed to read
  back what it wrote.
\<close>

lemma key_lifecycle:
  assumes "wf_appDB db" and "ParseSpec parse decode raw = Some spec" and "decode (encode spec) = Some spec"
    and "IssueKey h random (sp_ID spec) kind (UpsertApp encode spec db) = (db1, Some key)"
    and "SetAppEnabled (sp_ID spec) True db1 = Some db2"
  shows "LookupKey True h (ParseSpec parse decode) db2 key = Found \<lparr>app_Spec = spec, app_Kind = kind\<rparr>
    \<and> (\<forall>db3. RevokeKey (take keyPrefixLen key) db2 = Some db3 \<longrightarrow> LookupKey True h (ParseSpec parse decode) db3 key = NotFound)
    \<and> (\<forall>db3. SetAppEnabled (sp_ID spec) False db2 = Some db3 \<longrightarrow> LookupKey True h (ParseSpec parse decode) db3 key = NotFound)"
proof -
  let ?db0 = "UpsertApp encode spec db" and ?look = "\<lambda>d. LookupKey True h (ParseSpec parse decode) d key"
  obtain k where k: "k \<in> set (keys_of db1)" "kr_Hash k = h key" "kr_App k = sp_ID spec" "kr_Kind k = kind"
    "kr_Prefix k = take keyPrefixLen key" "\<not> kr_Revoked k" "apps_of db1 = apps_of ?db0"
    "sp_ID spec \<in> ar_ID ` set (apps_of ?db0)" by (rule issued_key [OF assms(4)]) blast
  have wf1: "wf_appDB db1" by (rule IssueKey_wf [OF UpsertApp_wf [OF assms(1)] assms(4)])
  have wf2: "wf_appDB db2" by (rule SetAppEnabled_wf [OF wf1 assms(5)])
  have keys2: "keys_of db2 = keys_of db1"
    and apps2: "apps_of db2 = map (\<lambda>a. if ar_ID a = sp_ID spec then a\<lparr>ar_Enabled := True\<rparr> else a) (apps_of db1)"
    using assms(5) by (auto simp: SetAppEnabled_def split: if_splits)
  have stored: "ar_Spec a = encode spec" if "a \<in> set (apps_of ?db0)" "ar_ID a = sp_ID spec" for a
    using that by (auto simp: UpsertApp_def list_ex_iff split: if_splits)
  from k(8) obtain a0 where a0: "a0 \<in> set (apps_of ?db0)" "ar_ID a0 = sp_ID spec" by auto
  have "liveKey db2 (kr_Hash k) = Some (k, a0\<lparr>ar_Enabled := True\<rparr>)"
    using wf2 k a0 by (intro liveKey_intro) (auto simp: keys2 apps2 image_iff)
  then have "?look db2 = Found \<lparr>app_Spec = spec, app_Kind = kind\<rparr>"
    using k stored [OF a0] ParseSpec_again [OF assms(2), of decode "encode spec"] assms(3) by (simp add: LookupKey_def)
  moreover have "?look db3 = NotFound" if r: "RevokeKey (take keyPrefixLen key) db2 = Some db3" for db3
  proof -
    have "k\<lparr>kr_Revoked := True\<rparr> \<in> set (keys_of db3)"
      using r k by (auto simp: RevokeKey_def keys2 image_iff split: if_splits)
    from liveKey_revoked [OF RevokeKey_wf [OF wf2 r] this] k(2) show ?thesis by (simp add: LookupKey_def)
  qed
  moreover have "?look db3 = NotFound" if d: "SetAppEnabled (sp_ID spec) False db2 = Some db3" for db3
  proof -
    have "liveKey db3 (kr_Hash k) = None"
      using d k by (intro liveKey_disabled [OF _ SetAppEnabled_wf [OF wf2 d]])
        (auto simp: SetAppEnabled_def keys2 split: if_splits)
    with k(2) show ?thesis by (simp add: LookupKey_def)
  qed
  ultimately show ?thesis by blast
qed

lemma key_lifecycle_witness:
  "\<exists>db2. LookupKey True (\<lambda>k. k) (ParseSpec exampleParse (\<lambda>s. if s = ''x'' then Some (ApplyDefaults exampleSpec) else Some exampleSpec)) db2 ''sk_0123456789''
      = Found \<lparr>app_Spec = ApplyDefaults exampleSpec, app_Kind = ''sk''\<rparr>"
proof -
  let ?dec = "\<lambda>s. if s = ''x'' then Some (ApplyDefaults exampleSpec) else Some exampleSpec"
  let ?db = "\<lparr>apps_of = [], keys_of = []\<rparr>"
  let ?spec = "ApplyDefaults exampleSpec"
  have p: "ParseSpec exampleParse ?dec ''{}'' = Some ?spec" by code_simp
  have i: "sp_ID ?spec = ''site''" by code_simp
  obtain db1 where I: "IssueKey (\<lambda>k. k) ''0123456789'' (sp_ID ?spec) ''sk'' (UpsertApp (\<lambda>_. ''x'') ?spec ?db) = (db1, Some ''sk_0123456789'')"
    by (simp add: IssueKey_def UpsertApp_def KeySecret_def KeyPublishable_def i Let_def)
  have "apps_of db1 \<noteq> [] \<and> ar_ID (hd (apps_of db1)) = ''site''"
    using I by (auto simp: IssueKey_def UpsertApp_def KeySecret_def KeyPublishable_def i Let_def split: if_splits)
  then obtain db2 where "SetAppEnabled (sp_ID ?spec) True db1 = Some db2"
    by (cases "apps_of db1") (auto simp: SetAppEnabled_def i)
  from key_lifecycle [OF _ p _ I this] show ?thesis by (auto simp: wf_appDB_def)
qed

end
