(* ===== verification/Relay_Http.thy ===== *)
theory Relay_Http
  imports Relay_Props Relay_Auth
begin

text \<open>
  The relay's HTTP surface: the identity middleware of \<open>src/internal/railwayq/auth.go\<close>, the handlers of
  \<open>handler.go\<close> and \<open>status_public.go\<close>, and the route table of \<open>server.go\<close>. Bodies arrive decoded and paths
  clean; the ask endpoint has its own theory and the documentation page is static.
\<close>

section \<open>Handlers\<close>

datatype relayOut =
    ErrOut nat string
  | TextOut nat string
  | Created string
  | ClaimOut "QueueJob option"
  | NoContent
  | ResultOut ResultResponse
  | ProfileOut MemberProfile
  | StatusOut bool "time option" nat
  | PublicOut bool bool time
  | PageOut
  | NoReply

definition handleEnqueue :: "'l relayEnv \<Rightarrow> 'l relaySrv \<Rightarrow> string \<Rightarrow> relayBody \<Rightarrow> 'l relaySrv \<times> relayOut" where
  "handleEnqueue env st identity body =
     (case body of
        TooLarge \<Rightarrow> (st, ErrOut 413 ''invalid_request'')
      | EnqueueBody cid payload maxAttempts0 \<Rightarrow>
          if cid = '''' \<or> payload = '''' then (st, ErrOut 400 ''invalid_request'')
          else if \<not> re_ok env ''count'' then (st, ErrOut 500 ''internal_error'')
          else if int (CountPending (rs_db st)) \<ge> MaxPendingDepth (re_cfg env) then (st, ErrOut 503 ''queue_full'')
          else let maxAttempts = (if maxAttempts0 \<le> 0 then 3 else maxAttempts0);
                   job = \<lparr>q_ID = re_newID env, q_CorrelationID = cid, q_Status = QueueJobPending, q_Payload = payload,
                     q_ResultPayload = None, q_ErrorCode = None, q_CreatedAt = re_now env, q_ClaimedAt = None,
                     q_FinishedAt = None, q_AttemptCount = 0, q_MaxAttempts = maxAttempts, q_Identity = identity\<rparr>
               in if \<not> re_ok env ''enqueue'' then (st, ErrOut 500 ''internal_error'')
                  else (case Enqueue_job (re_now env) (re_valid env) (rs_db st) job of
                          (_, Some _) \<Rightarrow> (st, ErrOut 500 ''internal_error'')
                        | (r1, None) \<Rightarrow>
                            (st\<lparr>rs_db := (if re_ok env ''increment'' then IncrementUsage (re_day env) identity r1 else r1)\<rparr>,
                             Created (q_ID job)))
      | _ \<Rightarrow> (st, ErrOut 400 ''invalid_request''))"

definition handleClaim :: "'l relayEnv \<Rightarrow> 'l relaySrv \<Rightarrow> relayBody \<Rightarrow> 'l relaySrv \<times> relayOut" where
  "handleClaim env st body =
     (case body of
        ClaimBody _ \<Rightarrow>
          let r0 = pc_seen (re_now env) (rs_db st) in
          if \<not> re_ok env ''sweep'' then (st\<lparr>rs_db := r0\<rparr>, TextOut 500 ''claim failed'')
          else if \<not> re_ok env ''claim'' then (st\<lparr>rs_db := sweepExpired (re_now env) r0\<rparr>, TextOut 500 ''claim failed'')
          else (case Claim (re_now env) r0 (re_wakes env) of
                  (r1, Claimed j) \<Rightarrow> (st\<lparr>rs_db := pc_seen (re_after env) r1\<rparr>, ClaimOut (Some j))
                | (r1, NoJob) \<Rightarrow> (st\<lparr>rs_db := pc_seen (re_after env) r1\<rparr>, ClaimOut None)
                | (r1, _) \<Rightarrow> (st\<lparr>rs_db := r1\<rparr>, NoReply))
      | _ \<Rightarrow> (st, TextOut 400 ''malformed JSON''))"

definition handleAck :: "'l relayEnv \<Rightarrow> 'l relaySrv \<Rightarrow> relayBody \<Rightarrow> 'l relaySrv \<times> relayOut" where
  "handleAck env st body =
     (let st1 = st\<lparr>rs_db := pc_seen (re_now env) (rs_db st)\<rparr> in
      case body of
        AckBody req \<Rightarrow>
          if ack_JobID req = '''' then (st1, TextOut 400 ''job_id is required'')
          else if ack_Status req \<noteq> QueueJobDone \<and> ack_Status req \<noteq> QueueJobFailed then (st1, TextOut 400 ''status must be done or failed'')
          else if \<not> re_ok env ''ack'' then (st1, TextOut 500 ''ack failed'')
          else (case Ack (re_now env) (re_valid env) (rs_db st1) req of
                  (_, Some _) \<Rightarrow> (st1, TextOut 500 ''ack failed'')
                | (r1, None) \<Rightarrow> (st1\<lparr>rs_db := r1\<rparr>, NoContent))
      | _ \<Rightarrow> (st1, TextOut 400 ''malformed JSON''))"

definition handleResult :: "'l relayEnv \<Rightarrow> 'l relaySrv \<Rightarrow> string \<Rightarrow> string \<Rightarrow> relayOut" where
  "handleResult env st identity path =
     (let i = trim_prefix path ''/result/'' in
      if i = '''' \<or> CHR ''/'' \<in> set i then ErrOut 400 ''invalid_request''
      else if \<not> re_ok env ''result'' then ErrOut 500 ''internal_error''
      else (case GetResult (rs_db st) i identity of None \<Rightarrow> ErrOut 404 ''not_found'' | Some res \<Rightarrow> ResultOut res))"

definition handleCancel :: "'l relayEnv \<Rightarrow> 'l relaySrv \<Rightarrow> string \<Rightarrow> string \<Rightarrow> 'l relaySrv \<times> relayOut" where
  "handleCancel env st identity i =
     (if \<not> re_ok env ''cancel'' then (st, ErrOut 500 ''internal_error'')
      else (case CancelPending (rs_db st) i identity of
              (r1, cancelResult.Cancelled) \<Rightarrow> (st\<lparr>rs_db := r1\<rparr>, NoContent)
            | (r1, CancelNotFound) \<Rightarrow> (st\<lparr>rs_db := r1\<rparr>, ErrOut 404 ''not_found'')
            | (r1, CancelNotPending) \<Rightarrow> (st\<lparr>rs_db := r1\<rparr>, ErrOut 409 ''not_pending'')))"

definition handleMembersMe :: "'l relayEnv \<Rightarrow> 'l relaySrv \<Rightarrow> string \<Rightarrow> relayOut" where
  "handleMembersMe env st identity =
     (if \<not> has_prefix identity ''user:'' then ErrOut 404 ''not_found''
      else if \<not> re_ok env ''profile'' then ErrOut 500 ''internal_error''
      else (case GetMemberProfile (rs_db st) (trim_prefix identity ''user:'') of
              None \<Rightarrow> ErrOut 404 ''not_found'' | Some p \<Rightarrow> ProfileOut p))"

definition handleRelayStatus :: "'l relayEnv \<Rightarrow> 'l relaySrv \<Rightarrow> relayOut" where
  "handleRelayStatus env st =
     (if \<not> re_ok env ''lastclaim'' then ErrOut 500 ''internal_error''
      else if \<not> re_ok env ''count'' then ErrOut 500 ''internal_error''
      else StatusOut (pc_online (re_now env) (rs_db st)) (LastClaimAt (rs_db st)) (CountPending (rs_db st)))"

definition handlePublicStatus :: "'l relayEnv \<Rightarrow> 'l relaySrv \<Rightarrow> bool \<Rightarrow> string \<Rightarrow> relayOut" where
  "handlePublicStatus env st fallback method =
     (if method \<noteq> ''GET'' \<and> method \<noteq> ''HEAD'' then ErrOut 405 ''invalid_request''
      else PublicOut (pc_online (re_now env) (rs_db st)) fallback (re_now env))"

section \<open>Middleware and routing\<close>

definition denyCode :: "nat \<Rightarrow> relayOut" where
  "denyCode status = (if status = 403 then ErrOut 403 ''unauthorized''
     else if status = 500 then ErrOut 500 ''internal_error'' else ErrOut 401 ''unauthorized'')"

text \<open>\<open>Inl\<close> is the middleware's own reply, \<open>Inr\<close> the identity the request goes on with.\<close>

definition enqueueAllowed :: "'l relayEnv \<Rightarrow> 'l relaySrv \<Rightarrow> string \<Rightarrow> App option \<Rightarrow> 'l relaySrv \<times> relayOut option" where
  "enqueueAllowed env st identity app =
     (let perMin = (case app of None \<Rightarrow> RatePerMin (re_cfg env) | Some a \<Rightarrow> PerMin (Limits_of (app_Spec a)));
          quota = (case app of None \<Rightarrow> DailyQuota (re_cfg env) | Some a \<Rightarrow> PerDay (Limits_of (app_Spec a)));
          (lim, allowed) = AllowAt (re_rate env) (re_now env) identity perMin (rs_lim st);
          st1 = st\<lparr>rs_lim := lim\<rparr>
      in if \<not> allowed then (st1, Some (ErrOut 429 ''rate_limited''))
         else if \<not> re_ok env ''usage'' then (st1, Some (ErrOut 500 ''internal_error''))
         else if UsageToday (re_day env) identity (rs_db st) \<ge> quota then (st1, Some (ErrOut 429 ''quota_exceeded''))
         else (st1, None))"

definition identityMiddleware :: "'l relayEnv \<Rightarrow> 'l relaySrv \<Rightarrow> relayReq \<Rightarrow> 'l relaySrv \<times> (relayOut + string)" where
  "identityMiddleware env st r =
     (if rq_path r \<in> set publicPaths then (st, Inr '''')
      else case resolveIdentity env st r of
             Denied status \<Rightarrow> (st, Inl (denyCode status))
           | Caller identity app \<Rightarrow>
               if rq_path r \<in> set workerPaths \<and> identity \<noteq> OwnerIdentity then (st, Inl (ErrOut 403 ''unauthorized''))
               else if rq_path r = ''/enqueue'' then
                 (case enqueueAllowed env st identity app of
                    (st1, Some out) \<Rightarrow> (st1, Inl out) | (st1, None) \<Rightarrow> (st1, Inr identity))
               else (st, Inr identity))"

definition relayMux :: "'l relayEnv \<Rightarrow> 'l relaySrv \<Rightarrow> bool \<Rightarrow> relayReq \<Rightarrow> string \<Rightarrow> 'l relaySrv \<times> relayOut" where
  "relayMux env st fallback r identity =
     (let p = rq_path r in
      if p = ''/enqueue'' then handleEnqueue env st identity (rq_body r)
      else if p = ''/claim'' then handleClaim env st (rq_body r)
      else if p = ''/ack'' then handleAck env st (rq_body r)
      else if has_prefix p ''/result/'' then (st, handleResult env st identity p)
      else if p = ''/status'' then (st, handleRelayStatus env st)
      else if p = ''/members/me'' then (st, handleMembersMe env st identity)
      else if has_prefix p ''/job/'' \<and> drop 5 p \<noteq> '''' \<and> CHR ''/'' \<notin> set (drop 5 p) then
        (if rq_method r = ''DELETE'' then handleCancel env st identity (drop 5 p) else (st, TextOut 405 ''Method Not Allowed''))
      else if p = ''/apps/status'' then (st, handlePublicStatus env st fallback (rq_method r))
      else if p = ''/healthz'' \<or> p = ''/docs'' \<or> p = ''/apps/ask'' then (st, PageOut)
      else if p = ''/result'' then (st, TextOut 301 ''/result/'')
      else (st, TextOut 404 ''404 page not found''))"

definition ServeRelay :: "'l relayEnv \<Rightarrow> 'l relaySrv \<Rightarrow> bool \<Rightarrow> relayReq \<Rightarrow> 'l relaySrv \<times> relayOut" where
  "ServeRelay env st fallback r =
     (case identityMiddleware env st r of
        (st1, Inl out) \<Rightarrow> (st1, out)
      | (st1, Inr identity) \<Rightarrow> relayMux env st1 fallback r identity)"

section \<open>Properties\<close>

lemma denyCode_status: "\<exists>s\<in>{401, 403, 500}. \<exists>c. denyCode status = ErrOut s c"
  by (simp add: denyCode_def)

text \<open>
  C26. The worker routes belong to the owner. A request to \<open>/claim\<close> or \<open>/ack\<close> that does not carry the
  owner's key, whatever token or app key it does carry, is refused with 401, 403 or 500, hands out no
  job and changes nothing.
\<close>

theorem worker_routes_owner_only:
  assumes "rq_path r \<in> {''/claim'', ''/ack''}" and "rq_apiKey r \<noteq> StaticAPIKey (re_cfg env) \<or> StaticAPIKey (re_cfg env) = ''''"
    and "ServeRelay env st fallback r = (st', out)"
  shows "st' = st \<and> (\<exists>status\<in>{401, 403, 500}. \<exists>code. out = ErrOut status code)"
proof -
  have paths: "rq_path r \<notin> set publicPaths" "rq_path r \<in> set workerPaths"
    using assms(1) by (auto simp: publicPaths_def workerPaths_def)
  have "resolveIdentity env st r \<noteq> Caller OwnerIdentity a" for a
    using resolveIdentity_owner [of env st r a] assms(2) by auto
  then have "identityMiddleware env st r = (st, Inl (ErrOut 403 ''unauthorized'')) \<or>
      (\<exists>status. identityMiddleware env st r = (st, Inl (denyCode status)))"
    using paths by (cases "resolveIdentity env st r") (auto simp: identityMiddleware_def)
  then show ?thesis
  proof
    assume "\<exists>status. identityMiddleware env st r = (st, Inl (denyCode status))"
    then obtain status where "identityMiddleware env st r = (st, Inl (denyCode status))" ..
    with assms(3) denyCode_status [of status] show ?thesis by (simp add: ServeRelay_def)
  qed (use assms(3) in \<open>auto simp: ServeRelay_def\<close>)
qed

text \<open>What the middleware lets through, and that it never touches the tables.\<close>

lemma enqueueAllowed_frame:
  "enqueueAllowed env st identity app = (st', res) \<Longrightarrow> rs_db st' = rs_db st \<and> rs_apps st' = rs_apps st"
  by (auto simp: enqueueAllowed_def Let_def case_prod_beta split: if_splits)

lemma identityMiddleware_frame:
  "identityMiddleware env st r = (st', res) \<Longrightarrow> rs_db st' = rs_db st \<and> rs_apps st' = rs_apps st"
  by (auto simp: identityMiddleware_def dest: enqueueAllowed_frame split: if_splits auth.splits prod.splits option.splits)

lemma identityMiddleware_caller:
  assumes "identityMiddleware env st r = (st', Inr identity)" "rq_path r \<notin> set publicPaths"
  shows "\<exists>app. resolveIdentity env st r = Caller identity app
    \<and> (rq_path r \<in> set workerPaths \<longrightarrow> identity = OwnerIdentity)
    \<and> (rq_path r = ''/enqueue'' \<longrightarrow> UsageToday (re_day env) identity (rs_db st) <
         (case app of None \<Rightarrow> DailyQuota (re_cfg env) | Some a \<Rightarrow> PerDay (Limits_of (app_Spec a))))"
  using assms
  by (auto simp: identityMiddleware_def enqueueAllowed_def Let_def case_prod_beta workerPaths_def
      split: if_splits auth.splits option.splits)

text \<open>The rows another caller owns.\<close>

definition othersJobs :: "string \<Rightarrow> 'l relaySrv \<Rightarrow> QueueJob list" where
  "othersJobs identity st = filter (\<lambda>j. q_Identity j \<noteq> identity) (jobs (rs_db st))"

lemma handleEnqueue_created:
  assumes "handleEnqueue env st identity body = (st', Created i)"
  shows "\<exists>row r1. jobs (rs_db st') = jobs (rs_db st) @ [row] \<and> q_ID row = i \<and> i = re_newID env \<and> q_Identity row = identity
    \<and> q_Status row = QueueJobPending \<and> q_AttemptCount row = 0 \<and> 0 < q_MaxAttempts row
    \<and> int (CountPending (rs_db st)) < MaxPendingDepth (re_cfg env)
    \<and> UsageToday (re_day env) identity (rs_db st') = UsageToday (re_day env) identity (rs_db st) + of_bool (re_ok env ''increment'')
    \<and> rs_lim st' = rs_lim st \<and> rs_apps st' = rs_apps st"
  using assms
  by (cases body)
     (auto simp: handleEnqueue_def Let_def Enqueue_job_def sig_notify_def IncrementUsage_def UsageToday_def split: if_splits)

lemma handleEnqueue_refused:
  assumes "handleEnqueue env st identity body = (st', out)" "\<And>i. out \<noteq> Created i"
  shows "st' = st"
  using assms by (cases body) (auto simp: handleEnqueue_def Let_def split: if_splits prod.splits option.splits)

lemma handleCancel_others:
  assumes "handleCancel env st identity i = (st', out)"
  shows "othersJobs identity st' = othersJobs identity st"
proof (cases "re_ok env ''cancel''")
  case True
  obtain r1 c where C: "CancelPending (rs_db st) i identity = (r1, c)" by fastforce
  then have j: "jobs r1 = filter (\<lambda>j. \<not> (owned i identity j \<and> q_Status j = QueueJobPending)) (jobs (rs_db st))"
    by (auto simp: CancelPending_def Let_def split: if_splits)
  from assms True C have "rs_db st' = r1" by (auto simp: handleCancel_def split: cancelResult.splits)
  with j show ?thesis by (auto simp: othersJobs_def owned_def intro!: filter_cong)
qed (use assms in \<open>simp add: handleCancel_def\<close>)

lemma relayMux_others:
  assumes "relayMux env st fallback r identity = (st', out)" "rq_path r \<notin> set workerPaths"
  shows "othersJobs identity st' = othersJobs identity st"
proof (cases "rq_path r = ''/enqueue''")
  case True
  with assms(1) have h: "handleEnqueue env st identity (rq_body r) = (st', out)" by (simp add: relayMux_def)
  show ?thesis
  proof (cases "\<exists>i. out = Created i")
    case True
    then obtain i where "out = Created i" ..
    with handleEnqueue_created [of env st identity "rq_body r" st' i] h show ?thesis by (auto simp: othersJobs_def)
  next
    case False
    with handleEnqueue_refused [OF h] show ?thesis by simp
  qed
next
  case False
  with assms show ?thesis
    by (auto simp: relayMux_def workerPaths_def Let_def dest: handleCancel_others split: if_splits)
qed

text \<open>
  C27. Callers are kept apart. Whatever a member or an app that is not the owner sends, every row that
  belongs to someone else stays exactly as it was, and a result that is returned is that of a row of
  the caller's own.
\<close>

theorem callers_isolated:
  assumes "resolveIdentity env st r = Caller identity app" and "identity \<noteq> OwnerIdentity" and "rq_path r \<notin> set publicPaths"
    and "ServeRelay env st fallback r = (st', out)"
  shows "othersJobs identity st' = othersJobs identity st
    \<and> (\<forall>res. out = ResultOut res \<longrightarrow> (\<exists>j\<in>set (jobs (rs_db st)). q_Identity j = identity \<and> rr_Status res = q_Status j
          \<and> rr_ResultPayload res = q_ResultPayload j))"
proof -
  obtain st1 res where M: "identityMiddleware env st r = (st1, res)" by fastforce
  note F = identityMiddleware_frame [OF M]
  show ?thesis
  proof (cases res)
    case (Inl out1)
    with assms M have e: "st' = st1" "out = out1" by (auto simp: ServeRelay_def)
    have "\<nexists>x. out1 = ResultOut x" using M Inl
      by (auto simp: identityMiddleware_def enqueueAllowed_def denyCode_def Let_def case_prod_beta
          split: if_splits auth.splits option.splits)
    with e F show ?thesis by (simp add: othersJobs_def)
  next
    case (Inr who)
    with M assms(1,3) have who: "who = identity" and w: "rq_path r \<notin> set workerPaths"
      using identityMiddleware_caller [of env st r st1 who] assms(2) by auto
    from assms(4) M Inr who have mux: "relayMux env st1 fallback r identity = (st', out)" by (simp add: ServeRelay_def)
    have "\<exists>j\<in>set (jobs (rs_db st)). q_Identity j = identity \<and> rr_Status x = q_Status j \<and> rr_ResultPayload x = q_ResultPayload j"
      if "out = ResultOut x" for x
    proof -
      from mux that w have "handleResult env st1 identity (rq_path r) = ResultOut x"
        by (auto simp: relayMux_def handleEnqueue_def handleCancel_def handleRelayStatus_def handleMembersMe_def
            handlePublicStatus_def workerPaths_def Let_def
            split: if_splits relayBody.splits prod.splits option.splits cancelResult.splits)
      then obtain i where "GetResult (rs_db st1) i identity = Some x"
        by (auto simp: handleResult_def Let_def split: if_splits option.splits)
      with F show ?thesis by (auto simp: GetResult_def owned_def dest!: find_Some_mem)
    qed
    with relayMux_others [OF mux w] F show ?thesis by (simp add: othersJobs_def)
  qed
qed

text \<open>Only the enqueue handler makes the table longer.\<close>

lemma handleCancel_length: "length (jobs (rs_db (fst (handleCancel env st identity i)))) \<le> length (jobs (rs_db st))"
  by (simp add: handleCancel_def CancelPending_def Let_def)

lemma tryClaimOne_length: "length (jobs (fst (tryClaimOne now r))) = length (jobs r)"
  by (simp add: tryClaimOne_def updateJob_def split: option.split)

lemma Claim_length:
  assumes "\<forall>t f. Added t f \<notin> set wakes"
  shows "length (jobs (fst (Claim now r wakes))) = length (jobs r)"
proof -
  have "length (jobs (fst (tryClaimOne now (sweepExpired now r)))) = length (jobs r)"
    by (simp add: tryClaimOne_length) (simp add: sweepExpired_def)
  moreover have "\<nexists>t f ws. wakes = Added t f # ws" using assms by (meson list.set_intros(1))
  ultimately show ?thesis
    by (subst Claim.simps) (auto split: prod.split option.split list.split wake.split)
qed

lemma pc_seen_jobs: "jobs (pc_seen t r) = jobs r"
  by (simp add: pc_seen_def split: option.split)

lemma handleClaim_length:
  assumes "\<forall>t f. Added t f \<notin> set (re_wakes env)"
  shows "length (jobs (rs_db (fst (handleClaim env st body)))) = length (jobs (rs_db st))"
proof -
  have "length (jobs (fst (Claim (re_now env) (pc_seen (re_now env) (rs_db st)) (re_wakes env)))) = length (jobs (rs_db st))"
    by (simp add: Claim_length [OF assms] pc_seen_jobs)
  then show ?thesis
    by (auto simp: handleClaim_def Let_def pc_seen_jobs sweepExpired_def
        split: relayBody.split prod.split claimResult.split)
qed

lemma Ack_length: "length (jobs (fst (Ack now valid r req))) = length (jobs r)"
  by (simp add: Ack_def Let_def tracker_record_def split: option.split)

lemma handleAck_length: "length (jobs (rs_db (fst (handleAck env st body)))) = length (jobs (rs_db st))"
proof (cases body)
  case (AckBody req)
  show ?thesis
    using Ack_length [of "re_now env" "re_valid env" "pc_seen (re_now env) (rs_db st)" req]
    by (auto simp: AckBody handleAck_def Let_def pc_seen_jobs split: prod.split option.split)
qed (simp_all add: handleAck_def Let_def pc_seen_jobs)

lemma relayMux_length:
  assumes "\<forall>t f. Added t f \<notin> set (re_wakes env)" "rq_path r \<noteq> ''/enqueue''"
  shows "length (jobs (rs_db (fst (relayMux env st fallback r identity)))) \<le> length (jobs (rs_db st))"
  using assms(2) by (simp add: relayMux_def Let_def handleClaim_length [OF assms(1)] handleAck_length handleCancel_length)

lemma handlers_not_created:
  "snd (handleClaim env st body) \<noteq> Created i" "snd (handleAck env st body) \<noteq> Created i"
  "snd (handleCancel env st identity k) \<noteq> Created i" "handleResult env st identity p \<noteq> Created i"
  "handleMembersMe env st identity \<noteq> Created i" "handleRelayStatus env st \<noteq> Created i"
  "handlePublicStatus env st fallback m \<noteq> Created i" "denyCode status \<noteq> Created i"
  by (auto simp: handleClaim_def handleAck_def handleCancel_def handleResult_def handleMembersMe_def handleRelayStatus_def
      handlePublicStatus_def denyCode_def Let_def
      split: relayBody.split prod.split claimResult.split option.split cancelResult.split)

lemma relayMux_created:
  assumes "relayMux env st fallback r identity = (st', Created i)"
  shows "rq_path r = ''/enqueue'' \<and> handleEnqueue env st identity (rq_body r) = (st', Created i)"
proof (cases "rq_path r = ''/enqueue''")
  case False
  have "snd (relayMux env st fallback r identity) \<noteq> Created i"
    using False by (simp add: relayMux_def Let_def handlers_not_created)
  with assms show ?thesis by simp
qed (use assms in \<open>simp add: relayMux_def\<close>)

lemma identityMiddleware_not_created:
  assumes "identityMiddleware env st r = (st1, Inl out)"
  shows "out \<noteq> Created i"
  using assms handlers_not_created(8)
  by (auto simp: identityMiddleware_def enqueueAllowed_def Let_def case_prod_beta
      split: if_splits auth.splits option.splits)

lemma created_accounted:
  assumes "ServeRelay env st fallback r = (st', Created i)"
  shows "\<exists>identity app row. resolveIdentity env st r = Caller identity app
        \<and> jobs (rs_db st') = jobs (rs_db st) @ [row] \<and> q_ID row = i \<and> q_Identity row = identity
        \<and> q_Status row = QueueJobPending \<and> q_AttemptCount row = 0 \<and> 0 < q_MaxAttempts row
        \<and> int (CountPending (rs_db st)) < MaxPendingDepth (re_cfg env)
        \<and> UsageToday (re_day env) identity (rs_db st) < (case app of None \<Rightarrow> DailyQuota (re_cfg env) | Some a \<Rightarrow> PerDay (Limits_of (app_Spec a)))
        \<and> UsageToday (re_day env) identity (rs_db st') = UsageToday (re_day env) identity (rs_db st) + of_bool (re_ok env ''increment'')"
proof -
  obtain st1 res where M: "identityMiddleware env st r = (st1, res)" by fastforce
  with assms identityMiddleware_not_created [of env st r st1] obtain identity where I: "res = Inr identity"
    by (cases res) (auto simp: ServeRelay_def)
  with assms M have "relayMux env st1 fallback r identity = (st', Created i)" by (simp add: ServeRelay_def)
  note E = relayMux_created [OF this]
  then have "rq_path r \<notin> set publicPaths" by (simp add: publicPaths_def)
  from identityMiddleware_caller [OF M [unfolded I] this] E
  obtain app where A: "resolveIdentity env st r = Caller identity app"
    "UsageToday (re_day env) identity (rs_db st) < (case app of None \<Rightarrow> DailyQuota (re_cfg env) | Some a \<Rightarrow> PerDay (Limits_of (app_Spec a)))"
    by blast
  from handleEnqueue_created [OF conjunct2 [OF E]] identityMiddleware_frame [OF M] A show ?thesis by auto
qed

text \<open>
  Enqueueing is bounded and accounted for. A job enters the table over HTTP only as the answer 201
  to a known caller who is within their daily quota, while the queue is below its depth limit; then
  exactly one pending row under that caller's identity is appended, never tried before and with at
  least one attempt allowed, and the caller's usage goes up by one when the counter can be written.
  No other request makes the table longer (a claim that waits may see the rows others add meanwhile).
\<close>

lemma enqueue_accounted:
  assumes "ServeRelay env st fallback r = (st', out)"
  shows "(\<forall>i. out = Created i \<longrightarrow> (\<exists>identity app row. resolveIdentity env st r = Caller identity app
        \<and> jobs (rs_db st') = jobs (rs_db st) @ [row] \<and> q_ID row = i \<and> q_Identity row = identity
        \<and> q_Status row = QueueJobPending \<and> q_AttemptCount row = 0 \<and> 0 < q_MaxAttempts row
        \<and> int (CountPending (rs_db st)) < MaxPendingDepth (re_cfg env)
        \<and> UsageToday (re_day env) identity (rs_db st) < (case app of None \<Rightarrow> DailyQuota (re_cfg env) | Some a \<Rightarrow> PerDay (Limits_of (app_Spec a)))
        \<and> UsageToday (re_day env) identity (rs_db st') = UsageToday (re_day env) identity (rs_db st) + of_bool (re_ok env ''increment'')))
    \<and> ((\<forall>t f. Added t f \<notin> set (re_wakes env)) \<and> (\<nexists>i. out = Created i) \<longrightarrow> length (jobs (rs_db st')) \<le> length (jobs (rs_db st)))"
proof (intro conjI allI impI)
  fix i
  assume "out = Created i"
  with created_accounted [of env st fallback r st' i] assms
  show "\<exists>identity app row. resolveIdentity env st r = Caller identity app
        \<and> jobs (rs_db st') = jobs (rs_db st) @ [row] \<and> q_ID row = i \<and> q_Identity row = identity
        \<and> q_Status row = QueueJobPending \<and> q_AttemptCount row = 0 \<and> 0 < q_MaxAttempts row
        \<and> int (CountPending (rs_db st)) < MaxPendingDepth (re_cfg env)
        \<and> UsageToday (re_day env) identity (rs_db st) < (case app of None \<Rightarrow> DailyQuota (re_cfg env) | Some a \<Rightarrow> PerDay (Limits_of (app_Spec a)))
        \<and> UsageToday (re_day env) identity (rs_db st') = UsageToday (re_day env) identity (rs_db st) + of_bool (re_ok env ''increment'')"
    by blast
next
  assume a: "(\<forall>t f. Added t f \<notin> set (re_wakes env)) \<and> (\<nexists>i. out = Created i)"
  obtain st1 res where M: "identityMiddleware env st r = (st1, res)" by fastforce
  note F = identityMiddleware_frame [OF M]
  show "length (jobs (rs_db st')) \<le> length (jobs (rs_db st))"
  proof (cases res)
    case (Inl out1)
    with assms M F show ?thesis by (simp add: ServeRelay_def)
  next
    case (Inr identity)
    with assms M have m: "relayMux env st1 fallback r identity = (st', out)" by (simp add: ServeRelay_def)
    show ?thesis
    proof (cases "rq_path r = ''/enqueue''")
      case True
      with m have "handleEnqueue env st1 identity (rq_body r) = (st', out)" by (simp add: relayMux_def)
      with handleEnqueue_refused [OF this] a F show ?thesis by auto
    next
      case False
      from relayMux_length [of env r st1 fallback identity] a False m F show ?thesis by simp
    qed
  qed
qed

section \<open>A concrete relay\<close>

definition exampleBucket :: "nat rateOps" where
  "exampleBucket = \<lparr>roNew = (\<lambda>_ _. 5), roLimit = (\<lambda>_. 1 / 6), roSetLimit = (\<lambda>_ n. n), roSetBurst = (\<lambda>_ n. n),
     roAllow = (\<lambda>_ n. (n - 1, n > 0))\<rparr>"

definition exampleRelayEnv :: "nat relayEnv" where
  "exampleRelayEnv = \<lparr>re_cfg = \<lparr>ResultTTL = 3600000, MaxPendingDepth = 500, RatePerMin = 10, DailyQuota = 200, MaxBodyBytes = 65536,
       StackJWKSURL = ''https://auth/jwks'', StackProjectID = ''p'', StaticAPIKey = ''owner'', AppIPSalt = ''s'', OpenRouterKey = '''',
       HostedModel = ''m''\<rparr>,
     re_verify = Some (\<lambda>tok. if tok = ''tok'' then Some ''y'' else None), re_hash = (\<lambda>k. k), re_parse = (\<lambda>_. None),
     re_valid = (\<lambda>_. True), re_rate = exampleBucket, re_ok = (\<lambda>_. True), re_now = 100, re_day = 0, re_newID = ''n'',
     re_wakes = [PollTimeout], re_after = 30100\<rparr>"

definition exampleRelaySrv :: "nat relaySrv" where
  "exampleRelaySrv = \<lparr>rs_db = exampleTable\<lparr>members := [\<lparr>mp_StackUserID = ''y'', mp_Email = ''y@x'', mp_Username = None, mp_DisplayName = None\<rparr>]\<rparr>,
     rs_apps = \<lparr>apps_of = [], keys_of = []\<rparr>, rs_lim = (\<lambda>_. None)\<rparr>"

definition exampleRelayReq :: "string \<Rightarrow> string \<Rightarrow> relayBody \<Rightarrow> relayReq" where
  "exampleRelayReq method path body = \<lparr>rq_method = method, rq_path = path, rq_authz = ''Bearer tok'', rq_apiKey = '''', rq_body = body\<rparr>"

lemma exampleRelay_caller: "resolveIdentity exampleRelayEnv exampleRelaySrv (exampleRelayReq m p b) = Caller ''user:y'' None"
  by (simp add: resolveIdentity_def exampleRelayEnv_def exampleRelaySrv_def exampleRelayReq_def has_prefix_def trim_space_def
      IsAllowedMember_def GetMemberProfile_def is_space_def)

lemma exampleRelay_enqueue:
  "identityMiddleware exampleRelayEnv exampleRelaySrv (exampleRelayReq ''POST'' ''/enqueue'' b)
     = (exampleRelaySrv\<lparr>rs_lim := [''user:y'' \<mapsto> (4, 100)]\<rparr>, Inr ''user:y'')"
proof -
  have "enqueueAllowed exampleRelayEnv exampleRelaySrv ''user:y'' None = (exampleRelaySrv\<lparr>rs_lim := [''user:y'' \<mapsto> (4, 100)]\<rparr>, None)"
    by (simp add: enqueueAllowed_def AllowAt_def Let_def UsageToday_def exampleBucket_def exampleRelayEnv_def exampleRelaySrv_def
        exampleTable_defs)
  moreover have "rq_path (exampleRelayReq ''POST'' ''/enqueue'' b) = ''/enqueue''" by (simp add: exampleRelayReq_def)
  ultimately show ?thesis
    by (simp add: identityMiddleware_def exampleRelay_caller publicPaths_def workerPaths_def)
qed

theorem worker_routes_owner_only_witness:
  "\<exists>status code. ServeRelay exampleRelayEnv exampleRelaySrv False (exampleRelayReq ''POST'' ''/claim'' (ClaimBody ''w''))
     = (exampleRelaySrv, ErrOut status code)"
proof -
  obtain st' out where S: "ServeRelay exampleRelayEnv exampleRelaySrv False (exampleRelayReq ''POST'' ''/claim'' (ClaimBody ''w'')) = (st', out)"
    by fastforce
  from worker_routes_owner_only [OF _ _ S] show ?thesis
    using S by (auto simp: exampleRelayReq_def exampleRelayEnv_def)
qed

theorem callers_isolated_witness:
  "othersJobs ''user:y'' (fst (ServeRelay exampleRelayEnv exampleRelaySrv False (exampleRelayReq ''DELETE'' ''/job/p'' BadJSON))) = [exampleDoneRow]"
proof -
  obtain st' out where S: "ServeRelay exampleRelayEnv exampleRelaySrv False (exampleRelayReq ''DELETE'' ''/job/p'' BadJSON) = (st', out)"
    by fastforce
  from callers_isolated [OF exampleRelay_caller _ _ S]
  have "othersJobs ''user:y'' st' = othersJobs ''user:y'' exampleRelaySrv"
    by (simp add: OwnerIdentity_def publicPaths_def exampleRelayReq_def)
  with S show ?thesis by (simp add: othersJobs_def exampleRelaySrv_def exampleTable_defs)
qed

lemma enqueue_accounted_witness:
  "\<exists>st' row. ServeRelay exampleRelayEnv exampleRelaySrv False (exampleRelayReq ''POST'' ''/enqueue'' (EnqueueBody ''c'' ''{}'' 0)) = (st', Created ''n'')
     \<and> jobs (rs_db st') = jobs exampleTable @ [row] \<and> q_Identity row = ''user:y'' \<and> UsageToday 0 ''user:y'' (rs_db st') = 1"
proof -
  let ?r = "exampleRelayReq ''POST'' ''/enqueue'' (EnqueueBody ''c'' ''{}'' 0)"
  have o: "snd (ServeRelay exampleRelayEnv exampleRelaySrv False ?r) = Created ''n''"
    by (simp add: ServeRelay_def exampleRelay_enqueue)
       (simp add: relayMux_def handleEnqueue_def Enqueue_job_def Let_def CountPending_def
        exampleRelayReq_def exampleRelayEnv_def exampleRelaySrv_def exampleTable_defs)
  then obtain st' where S: "ServeRelay exampleRelayEnv exampleRelaySrv False ?r = (st', Created ''n'')"
    by (cases "ServeRelay exampleRelayEnv exampleRelaySrv False ?r") simp
  from conjunct1 [OF enqueue_accounted [OF S], rule_format, OF refl]
  obtain identity app row where R: "resolveIdentity exampleRelayEnv exampleRelaySrv ?r = Caller identity app"
    "jobs (rs_db st') = jobs (rs_db exampleRelaySrv) @ [row]" "q_Identity row = identity"
    "UsageToday (re_day exampleRelayEnv) identity (rs_db st')
       = UsageToday (re_day exampleRelayEnv) identity (rs_db exampleRelaySrv) + of_bool (re_ok exampleRelayEnv ''increment'')"
    by (elim exE conjE) (assumption | rule that)+
  from R(1) have "identity = ''user:y''" unfolding exampleRelay_caller by simp
  with S R(2-4) show ?thesis by (simp add: exampleRelayEnv_def exampleRelaySrv_def UsageToday_def exampleTable_defs)
qed

end
