(* ===== verification/Remote_Relay.thy ===== *)
theory Remote_Relay
  imports Remote_Worker Relay_Http
begin

text \<open>
  The worker of \<open>src/internal/remote/client.go\<close> against the relay of \<open>src/internal/railwayq\<close>, over a
  network that may lose a request or lose its reply. The \<open>k\<close>-th request of the run meets the relay with
  its own clock, identifiers and query failures.
\<close>

section \<open>The network\<close>

datatype fault = Delivered | RequestLost | ReplyLost

record 'l net =
  n_srv :: "'l relaySrv"
  n_count :: nat

definition statusOf :: "relayOut \<Rightarrow> int option" where
  "statusOf out = (case out of ErrOut c _ \<Rightarrow> Some (int c) | TextOut c _ \<Rightarrow> Some (int c) | Created _ \<Rightarrow> Some 201
     | NoContent \<Rightarrow> Some 204 | NoReply \<Rightarrow> None | _ \<Rightarrow> Some 200)"

definition workerReq :: "string \<Rightarrow> string \<Rightarrow> relayBody \<Rightarrow> relayReq" where
  "workerReq key path body = \<lparr>rq_method = ''POST'', rq_path = path, rq_authz = '''', rq_apiKey = key, rq_body = body\<rparr>"

definition overNet :: "(nat \<Rightarrow> 'l relayEnv) \<Rightarrow> (nat \<Rightarrow> fault) \<Rightarrow> relayReq \<Rightarrow> 'l net \<Rightarrow> 'l net \<times> relayOut" where
  "overNet envs faults r n =
     (let k = n_count n; n1 = n\<lparr>n_count := Suc k\<rparr> in
      if faults k = RequestLost then (n1, NoReply)
      else case ServeRelay (envs k) (n_srv n) False r of
             (st, out) \<Rightarrow> (n1\<lparr>n_srv := st\<rparr>, if faults k = ReplyLost then NoReply else out))"

definition claimReply :: "relayOut \<Rightarrow> QueueJob option netReply" where
  "claimReply out = (case statusOf out of None \<Rightarrow> NoAnswer
     | Some c \<Rightarrow> Reply c (case out of ClaimOut j \<Rightarrow> Some j | _ \<Rightarrow> None))"

definition ackReply :: "relayOut \<Rightarrow> unit netReply" where
  "ackReply out = (case statusOf out of None \<Rightarrow> NoAnswer | Some c \<Rightarrow> Reply c None)"

text \<open>The worker's environment on this network; the codecs are those of \<open>codec\<close>.\<close>

definition netEnv :: "(nat \<Rightarrow> 'l relayEnv) \<Rightarrow> (nat \<Rightarrow> fault) \<Rightarrow> string \<Rightarrow> unit workerEnv \<Rightarrow> 'l net workerEnv" where
  "netEnv envs faults key codec =
     \<lparr>we_claim = (\<lambda>worker n. case overNet envs faults (workerReq key ''/claim'' (ClaimBody worker)) n of (n1, out) \<Rightarrow> (n1, 0, claimReply out)),
      we_ack = (\<lambda>req n. case overNet envs faults (workerReq key ''/ack'' (AckBody req)) n of (n1, out) \<Rightarrow> (n1, 0, ackReply out)),
      ctxErr = (\<lambda>_. False), unmarshal = unmarshal codec, marshalResp = marshalResp codec, marshalErr = marshalErr codec,
      decode64 = decode64 codec, newUUID = newUUID codec\<rparr>"

section \<open>One acknowledgement\<close>

definition acked :: "time \<Rightarrow> AckRequest \<Rightarrow> QueueJob list \<Rightarrow> QueueJob list" where
  "acked t req js = map (\<lambda>j. if q_ID j = ack_JobID req \<and> q_Status j = QueueJobProcessing then ackedRow t req j else j) js"

lemma acked_once: "ack_Status req \<noteq> QueueJobProcessing \<Longrightarrow> acked t' req (acked t req js) = acked t req js"
  by (simp add: acked_def ackedRow_def)

text \<open>An owner's key that is not itself shaped like an app key, and a request the relay accepts.\<close>

definition ownerKey :: "(nat \<Rightarrow> 'l relayEnv) \<Rightarrow> string \<Rightarrow> bool" where
  "ownerKey envs key = (key \<noteq> '''' \<and> \<not> IsAppKey key \<and> (\<forall>k. StaticAPIKey (re_cfg (envs k)) = key))"

definition ackable :: "(nat \<Rightarrow> 'l relayEnv) \<Rightarrow> AckRequest \<Rightarrow> bool" where
  "ackable envs req = (ack_JobID req \<noteq> '''' \<and> ack_Status req \<in> {QueueJobDone, QueueJobFailed}
     \<and> (\<forall>k. re_valid (envs k) (ack_ResultPayload req)))"

lemma owner_served:
  assumes "ownerKey envs key" "rq_path (workerReq key p b) \<in> {''/claim'', ''/ack''}"
  shows "ServeRelay (envs k) st fb (workerReq key p b) = relayMux (envs k) st fb (workerReq key p b) OwnerIdentity"
  using assms
  by (auto simp: ServeRelay_def identityMiddleware_def resolveIdentity_def workerReq_def ownerKey_def publicPaths_def has_prefix_def)

lemma owner_ack:
  assumes "ownerKey envs key" "ackable envs req"
  shows "\<exists>st' out. ServeRelay (envs k) st fb (workerReq key ''/ack'' (AckBody req)) = (st', out)
    \<and> (if re_ok (envs k) ''ack'' then jobs (rs_db st') = acked (re_now (envs k)) req (jobs (rs_db st)) \<and> out = NoContent
       else jobs (rs_db st') = jobs (rs_db st) \<and> out = TextOut 500 ''ack failed'')"
proof -
  have "ServeRelay (envs k) st fb (workerReq key ''/ack'' (AckBody req)) = handleAck (envs k) st (AckBody req)"
    using owner_served [OF assms(1)] by (simp add: workerReq_def relayMux_def)
  moreover have "\<exists>r1. Ack t v r req = (r1, None) \<and> jobs r1 = acked t req (jobs r)" if "v (ack_ResultPayload req)" for t v r
    using that by (simp add: Ack_def Let_def acked_def tracker_record_def split: option.split)
  then obtain r1 where "Ack (re_now (envs k)) (re_valid (envs k)) (pc_seen (re_now (envs k)) (rs_db st)) req = (r1, None)"
    "jobs r1 = acked (re_now (envs k)) req (jobs (rs_db st))"
    using assms(2) unfolding ackable_def by (metis pc_seen_jobs)
  ultimately show ?thesis using assms(2)
    by (auto simp: handleAck_def Let_def ackable_def pc_seen_jobs)
qed

definition lands :: "(nat \<Rightarrow> 'l relayEnv) \<Rightarrow> (nat \<Rightarrow> fault) \<Rightarrow> nat \<Rightarrow> bool" where
  "lands envs faults k = (faults k \<noteq> RequestLost \<and> re_ok (envs k) ''ack'')"

abbreviation tableOf :: "'l net sys \<Rightarrow> QueueJob list" where "tableOf s \<equiv> jobs (rs_db (n_srv (ext s)))"

lemma ack_call:
  assumes "ownerKey envs key" "ackable envs req" "do_call (we_ack (netEnv envs faults key codec) req) s = (s1, r)"
  shows "n_count (ext s1) = Suc (n_count (ext s))"
    and "lands envs faults (n_count (ext s)) \<Longrightarrow> tableOf s1 = acked (re_now (envs (n_count (ext s)))) req (tableOf s)"
    and "\<not> lands envs faults (n_count (ext s)) \<Longrightarrow> tableOf s1 = tableOf s \<and> (\<exists>e. postJSON False r = Inl e)"
proof -
  obtain st' out where S: "ServeRelay (envs (n_count (ext s))) (n_srv (ext s)) False (workerReq key ''/ack'' (AckBody req)) = (st', out)"
    "if re_ok (envs (n_count (ext s))) ''ack'' then jobs (rs_db st') = acked (re_now (envs (n_count (ext s)))) req (tableOf s) \<and> out = NoContent
       else jobs (rs_db st') = tableOf s \<and> out = TextOut 500 ''ack failed''"
    using owner_ack [OF assms(1,2), of "n_count (ext s)" "n_srv (ext s)" False] by blast
  note D = assms(3) [unfolded do_call_def netEnv_def overNet_def Let_def workerEnv.simps S(1)]
  show "n_count (ext s1) = Suc (n_count (ext s))" using D by (auto split: if_splits)
  show "tableOf s1 = acked (re_now (envs (n_count (ext s)))) req (tableOf s)" if "lands envs faults (n_count (ext s))"
    using D S(2) that by (auto simp: lands_def split: if_splits)
  show "tableOf s1 = tableOf s \<and> (\<exists>e. postJSON False r = Inl e)" if "\<not> lands envs faults (n_count (ext s))"
    using D S(2) that by (auto simp: lands_def ackReply_def statusOf_def postJSON_def split: if_splits)
qed

lemma ackLoop_table:
  assumes "ownerKey envs key" "ackable envs req"
  shows "tableOf (fst (ackLoop left (netEnv envs faults key codec) req intr a b s)) = tableOf s
    \<or> (\<exists>t. tableOf (fst (ackLoop left (netEnv envs faults key codec) req intr a b s)) = acked t req (tableOf s))"
proof (induction left arbitrary: a b s)
  case (Suc left)
  let ?env = "netEnv envs faults key codec"
  obtain s1 r where d: "do_call (we_ack ?env req) s = (s1, r)" by fastforce
  have T1: "tableOf s1 = tableOf s \<or> (\<exists>t. tableOf s1 = acked t req (tableOf s))"
    using ack_call [OF assms d] by blast
  let ?rec = "ackLoop left ?env req intr (a + 1) (min (b * 2) backoffMax) (s1\<lparr>clock := clock s1 + b\<rparr>)"
  have "ackLoop (Suc left) ?env req intr a b s = ?rec \<or> fst (ackLoop (Suc left) ?env req intr a b s) = s1"
    using d by (auto split: sum.split)
  then show ?case
  proof
    assume e: "ackLoop (Suc left) ?env req intr a b s = ?rec"
    have "ack_Status req \<noteq> QueueJobProcessing" using assms(2) by (auto simp: ackable_def)
    note once = acked_once [OF this]
    from Suc.IH [of "a + 1" "min (b * 2) backoffMax" "s1\<lparr>clock := clock s1 + b\<rparr>"] T1 show ?thesis
      unfolding e by (auto simp: once)
  qed (use T1 in simp)
qed simp

lemma ackLoop_lands:
  assumes "ownerKey envs key" "ackable envs req" "\<forall>k. \<not> intr k"
  shows "a + left = ackRetries \<Longrightarrow> \<exists>k<left. lands envs faults (n_count (ext s) + k) \<Longrightarrow>
    \<exists>t. tableOf (fst (ackLoop left (netEnv envs faults key codec) req intr a b s)) = acked t req (tableOf s)"
proof (induction left arbitrary: a b s)
  case (Suc left)
  let ?env = "netEnv envs faults key codec"
  obtain s1 r where d: "do_call (we_ack ?env req) s = (s1, r)" by fastforce
  note C = ack_call [OF assms(1,2) d]
  let ?s2 = "s1\<lparr>clock := clock s1 + b\<rparr>"
  let ?rec = "ackLoop left ?env req intr (a + 1) (min (b * 2) backoffMax) ?s2"
  have np: "ack_Status req \<noteq> QueueJobProcessing" using assms(2) by (auto simp: ackable_def)
  show ?case
  proof (cases "lands envs faults (n_count (ext s))")
    case True
    have "ackLoop (Suc left) ?env req intr a b s = ?rec \<or> fst (ackLoop (Suc left) ?env req intr a b s) = s1"
      using d by (auto split: sum.split)
    then show ?thesis
    proof
      assume e: "ackLoop (Suc left) ?env req intr a b s = ?rec"
      from ackLoop_table [OF assms(1,2), of left faults codec intr "a + 1" "min (b * 2) backoffMax" ?s2] C(2) [OF True]
      show ?thesis unfolding e by (auto simp: acked_once [OF np])
    qed (use C(2) [OF True] in auto)
  next
    case False
    from Suc.prems(2) False obtain k where k: "k < Suc left" "lands envs faults (n_count (ext s) + k)" "k \<noteq> 0"
      by (metis add.right_neutral)
    then have l: "\<exists>k'<left. lands envs faults (n_count (ext ?s2) + k')" using C(1) by (intro exI [of _ "k - 1"]) auto
    have r: "(a + 1) + left = ackRetries" "a + 1 < ackRetries" using Suc.prems(1) k by auto
    obtain e where "postJSON False r = Inl e" using C(3) [OF False] by blast
    moreover have "\<not> ctxErr ?env w" for w by (simp add: netEnv_def)
    ultimately have "ackLoop (Suc left) ?env req intr a b s = ?rec" using d r(2) assms(3) by simp
    moreover have "\<exists>t. tableOf (fst ?rec) = acked t req (tableOf ?s2)" by (rule Suc.IH [OF r(1) l])
    ultimately have "\<exists>t. tableOf (fst (ackLoop (Suc left) ?env req intr a b s)) = acked t req (tableOf ?s2)" by simp
    with C(3) [OF False] show ?thesis by simp
  qed
qed simp

text \<open>
  C30. A lost acknowledgement is made up for, and a repeated one does no harm. When any of the worker's
  three attempts reaches a relay whose statement succeeds, the claimed row ends with exactly that
  verdict, whichever of the requests and replies around it are lost, and no other row changes: the
  table is what a single acknowledgement would have left.
\<close>

theorem ack_survives_faults:
  assumes "ownerKey envs key" and "ackable envs req" and "\<forall>k. \<not> intr k"
    and "\<exists>k<3. lands envs faults (n_count (ext s) + k)"
  shows "\<exists>t. tableOf (fst (ackWithRetry (netEnv envs faults key codec) req intr s)) = acked t req (tableOf s)"
  using ackLoop_lands [OF assms(1-3), of 0 ackRetries faults s codec backoffMin] assms(4)
  by (simp add: ackWithRetry_def ackRetries_def)

section \<open>From claim to result\<close>

lemma owner_claim:
  assumes "ownerKey envs key" "wf_relay (re_now (envs k)) (rs_db st)" "\<forall>t f. Added t f \<notin> set (re_wakes (envs k))"
    and "ServeRelay (envs k) st fb (workerReq key ''/claim'' (ClaimBody w)) = (st', ClaimOut (Some c))"
  shows "c \<in> set (jobs (rs_db st')) \<and> q_Status c = QueueJobProcessing \<and> distinct (map q_ID (jobs (rs_db st')))"
proof -
  let ?r0 = "pc_seen (re_now (envs k)) (rs_db st)"
  let ?r1 = "sweepExpired (re_now (envs k)) ?r0"
  have "handleClaim (envs k) st (ClaimBody w) = (st', ClaimOut (Some c))"
    using assms(4) owner_served [OF assms(1)] by (simp add: workerReq_def relayMux_def)
  then obtain r2 where C: "Claim (re_now (envs k)) ?r0 (re_wakes (envs k)) = (r2, Claimed c)" "jobs (rs_db st') = jobs r2"
    by (auto simp: handleClaim_def Let_def pc_seen_jobs split: if_splits prod.splits claimResult.splits)
  have "\<nexists>t f ws. re_wakes (envs k) = Added t f # ws" using assms(3) by (metis list.set_intros(1))
  with C(1) have T: "tryClaimOne (re_now (envs k)) ?r1 = (r2, Some c)"
    by (subst (asm) Claim.simps) (auto split: prod.splits option.splits list.splits wake.splits)
  have wf: "wf_relay (re_now (envs k)) ?r1"
    using assms(2) by (intro sweepExpired_wf) (simp add: wf_relay_def pc_seen_jobs)
  from tryClaimOne_Some [OF T] obtain j where j: "j \<in> set (jobs ?r1)" "c = claimedRow (re_now (envs k)) j"
    "jobs r2 = updateJob (q_ID j) (\<lambda>_. c) (jobs ?r1)" by blast
  from wf have "distinct (map q_ID (jobs ?r1))" by (simp add: wf_relay_def)
  from updateJob_lookup [OF this j(1), of c] j have "c \<in> set (jobs r2)" by simp
  moreover have "distinct (map q_ID (jobs r2))" using tryClaimOne_wf [OF wf T] by (simp add: wf_relay_def)
  ultimately show ?thesis using j(2) C(2) by (simp add: claimedRow_def)
qed

lemma GetResult_acked:
  assumes "distinct (map q_ID (jobs r))" "c \<in> set js" "distinct (map q_ID js)" "q_Status c = QueueJobProcessing" "ack_JobID req = q_ID c"
    "jobs r = acked t req js"
  shows "GetResult r (q_ID c) (q_Identity c) = Some \<lparr>rr_Status = ack_Status req,
    rr_ResultPayload = (if ack_ResultPayload req = '''' then None else Some (ack_ResultPayload req)), rr_ErrorCode = ack_ErrorCode req\<rparr>"
proof -
  have m: "ackedRow t req c \<in> set (jobs r)" using assms by (auto simp: acked_def image_iff)
  have i: "q_ID (ackedRow t req c) = q_ID c" "q_Identity (ackedRow t req c) = q_Identity c" by (simp_all add: ackedRow_def)
  have "find (\<lambda>y. q_ID y = q_ID (ackedRow t req c) \<and> q_Identity y = q_Identity c) (jobs r) = Some (ackedRow t req c)"
    by (rule find_distinct [OF assms(1) m]) (simp add: i)
  then have "find (owned (q_ID c) (q_Identity c)) (jobs r) = Some (ackedRow t req c)" unfolding owned_def i .
  then show ?thesis by (simp add: GetResult_def ackedRow_def)
qed


section \<open>A concrete run\<close>

text \<open>The first acknowledgement gets lost on the way, the reply to the second on the way back.\<close>

definition exampleFaults :: "nat \<Rightarrow> fault" where
  "exampleFaults k = (if k = 1 then RequestLost else if k = 2 then ReplyLost else Delivered)"

definition exampleAck :: AckRequest where
  "exampleAck = \<lparr>ack_JobID = ''p'', ack_Status = QueueJobDone, ack_ResultPayload = ''{}'', ack_ErrorCode = ''''\<rparr>"

lemma example_ownerKey: "ownerKey (\<lambda>_. exampleRelayEnv) ''owner''"
  by (simp add: ownerKey_def IsAppKey_def has_prefix_def KeyPublishable_def KeySecret_def exampleRelayEnv_def)

theorem ack_survives_faults_witness:
  "\<exists>t. tableOf (fst (ackWithRetry (netEnv (\<lambda>_. exampleRelayEnv) exampleFaults ''owner'' deadRelay) exampleAck (\<lambda>_. False)
      \<lparr>clock = 0, ext = \<lparr>n_srv = exampleRelaySrv, n_count = 1\<rparr>\<rparr>)) = acked t exampleAck (jobs (rs_db exampleRelaySrv))"
proof -
  have a: "ackable (\<lambda>_. exampleRelayEnv) exampleAck" by (simp add: ackable_def exampleAck_def exampleRelayEnv_def)
  have "lands (\<lambda>_. exampleRelayEnv) exampleFaults 2" by (simp add: lands_def exampleFaults_def exampleRelayEnv_def)
  then have "\<exists>k<3. lands (\<lambda>_. exampleRelayEnv) exampleFaults (1 + k)" by (intro exI [of _ 1]) (simp add: numeral_2_eq_2)
  then show ?thesis
    using ack_survives_faults [OF example_ownerKey a, of "\<lambda>_. False" exampleFaults "\<lparr>clock = 0, ext = \<lparr>n_srv = exampleRelaySrv, n_count = 1\<rparr>\<rparr>" deadRelay]
    by simp
qed

definition exampleCodec :: "unit workerEnv" where
  "exampleCodec = deadRelay\<lparr>marshalResp := (\<lambda>r. CHR ''='' # is_Output r)\<rparr>"

lemma example_claim:
  "\<exists>st1 job. ServeRelay exampleRelayEnv exampleRelaySrv False (workerReq ''owner'' ''/claim'' (ClaimBody ''w'')) = (st1, ClaimOut (Some job))
     \<and> q_ID job = ''p'' \<and> q_Payload job = ''{}''"
proof -
  have "ServeRelay exampleRelayEnv exampleRelaySrv False (workerReq ''owner'' ''/claim'' (ClaimBody ''w''))
      = handleClaim exampleRelayEnv exampleRelaySrv (ClaimBody ''w'')"
    using owner_served [OF example_ownerKey] by (simp add: workerReq_def relayMux_def)
  then show ?thesis
    by (simp add: handleClaim_def Let_def Claim.simps tryClaimOne_def sweepExpired_def claimable_def claimedRow_def pc_seen_def
        exampleRelayEnv_def exampleRelaySrv_def exampleTable_defs)
qed


end
