(* ===== verification/Apps_Answer.thy ===== *)
theory Apps_Answer
  imports Apps_Spec "HOL-Library.Sublist"
begin

text \<open>
  From raw model output to the answer a visitor sees, \<open>src/internal/apps/answer.go\<close>. Go's regular
  expressions are modelled by a small matcher with their leftmost-first choice; it works on bytes, which
  for these expressions is the same as on runes, and ignores case for ASCII letters only.
\<close>

section \<open>Regular expressions\<close>

datatype regex =
    Chr "char \<Rightarrow> bool"
  | Eps
  | Seq regex regex
  | Alt regex regex
  | Star bool regex
  | LineStart
  | WordBoundary

definition wordChar :: "char \<Rightarrow> bool" where
  "wordChar c = (let n = of_char c :: nat in (97 \<le> n \<and> n \<le> 122) \<or> (65 \<le> n \<and> n \<le> 90) \<or> (48 \<le> n \<and> n \<le> 57) \<or> n = 95)"

definition boundaryAt :: "string \<Rightarrow> nat \<Rightarrow> bool" where
  "boundaryAt s i = ((0 < i \<and> i \<le> length s \<and> wordChar (s ! (i - 1))) \<noteq> (i < length s \<and> wordChar (s ! i)))"

text \<open>The ends of the matches that begin at \<open>i\<close>, preferred ones first.\<close>

function ends :: "string \<Rightarrow> regex \<Rightarrow> nat \<Rightarrow> nat list" where
  "ends s (Chr p) i = (if i < length s \<and> p (s ! i) then [Suc i] else [])"
| "ends s Eps i = [i]"
| "ends s (Seq a b) i = concat (map (ends s b) (ends s a i))"
| "ends s (Alt a b) i = ends s a i @ ends s b i"
| "ends s (Star greedy a) i =
     (let more = concat (map (\<lambda>j. if i < j \<and> j \<le> length s then ends s (Star greedy a) j else []) (ends s a i))
      in if greedy then more @ [i] else i # more)"
| "ends s LineStart i = (if i = 0 \<or> (i \<le> length s \<and> s ! (i - 1) = CHR 0x0A) then [i] else [])"
| "ends s WordBoundary i = (if boundaryAt s i then [i] else [])"
  by pat_completeness auto
termination
  by (relation "inv_image (less_than <*lex*> less_than) (\<lambda>(s, r, i). (size r, length s - i))") auto

declare ends.simps(5) [simp del]

definition matchAt :: "regex \<Rightarrow> string \<Rightarrow> nat \<Rightarrow> nat option" where
  "matchAt r s i = (case ends s r i of [] \<Rightarrow> None | j # _ \<Rightarrow> Some j)"

text \<open>The text cut into the bytes between matches and the matches themselves, from left to right.
  None of the expressions below matches the empty string.\<close>

function segments :: "regex \<Rightarrow> string \<Rightarrow> nat \<Rightarrow> (char + string) list" where
  "segments r s i =
     (if length s \<le> i then []
      else case matchAt r s i of
             None \<Rightarrow> Inl (s ! i) # segments r s (Suc i)
           | Some j \<Rightarrow> if i < j then Inr (take (j - i) (drop i s)) # segments r s j else Inl (s ! i) # segments r s (Suc i))"
  by pat_completeness auto
termination
  by (relation "measure (\<lambda>(r, s, i). length s - i)") auto

declare segments.simps [simp del]

definition pieces :: "(string \<Rightarrow> string) \<Rightarrow> (char + string) list \<Rightarrow> string" where
  "pieces f segs = concat (map (\<lambda>x. case x of Inl c \<Rightarrow> [c] | Inr m \<Rightarrow> f m) segs)"

definition replaceAll :: "regex \<Rightarrow> (string \<Rightarrow> string) \<Rightarrow> string \<Rightarrow> string" where
  "replaceAll r f s = pieces f (segments r s 0)"

definition findAll :: "regex \<Rightarrow> string \<Rightarrow> string list" where
  "findAll r s = List.map_filter (\<lambda>x. case x of Inl _ \<Rightarrow> None | Inr m \<Rightarrow> Some m) (segments r s 0)"

fun firstMatch :: "(char + string) list \<Rightarrow> string" where
  "firstMatch [] = []"
| "firstMatch (Inl c # xs) = c # firstMatch xs"
| "firstMatch (Inr m # xs) = []"

text \<open>The text before the leftmost match, or all of it.\<close>

definition cutAt :: "regex \<Rightarrow> string \<Rightarrow> string" where
  "cutAt r s = firstMatch (segments r s 0)"

section \<open>The expressions of the source\<close>

definition ci :: "char \<Rightarrow> regex" where "ci c = Chr (\<lambda>x. to_lower [x] = to_lower [c])"

fun litWith :: "(char \<Rightarrow> regex) \<Rightarrow> string \<Rightarrow> regex" where
  "litWith g [] = Eps"
| "litWith g [c] = g c"
| "litWith g (c # cs) = Seq (g c) (litWith g cs)"

abbreviation lit :: "string \<Rightarrow> regex" where "lit \<equiv> litWith (\<lambda>c. Chr (\<lambda>x. x = c))"
abbreviation liti :: "string \<Rightarrow> regex" where "liti \<equiv> litWith ci"

definition reSpace :: "char \<Rightarrow> bool" where "reSpace c = (c \<in> {CHR 0x09, CHR 0x0A, CHR 0x0C, CHR 0x0D, CHR '' ''})"
definition reDigit :: "char \<Rightarrow> bool" where "reDigit c = (let n = of_char c :: nat in 48 \<le> n \<and> n \<le> 57)"

abbreviation star :: "regex \<Rightarrow> regex" where "star \<equiv> Star True"
abbreviation plus1 :: "regex \<Rightarrow> regex" where "plus1 r \<equiv> Seq r (Star True r)"
abbreviation opt :: "regex \<Rightarrow> regex" where "opt r \<equiv> Alt r Eps"
abbreviation ws :: regex where "ws \<equiv> Chr reSpace"
abbreviation nonws :: regex where "nonws \<equiv> Chr (\<lambda>c. \<not> reSpace c)"

definition thinkRe :: regex where
  "thinkRe = Seq (lit ''<think>'') (Seq (Star False (Chr (\<lambda>_. True))) (lit ''</think>''))"

definition runOnRe :: regex where
  "runOnRe = Seq (lit [CHR 0x0A]) (Seq (star ws)
     (Alt (liti ''<question>'') (Alt (liti ''question:'') (Alt (liti ''earlier questions'') (liti ''answer:'')))))"

definition tagRe :: regex where
  "tagRe = Seq (lit ''<'') (Seq (star (Chr (\<lambda>c. c \<noteq> CHR ''>''))) (lit ''>''))"

definition mdLinkRe :: regex where
  "mdLinkRe = Seq (lit ''['') (Seq (plus1 (Chr (\<lambda>c. c \<noteq> CHR '']''))) (Seq (lit '']('') (Seq (star (Chr (\<lambda>c. c \<noteq> CHR '')''))) (lit '')''))))"

definition hostChar :: "char \<Rightarrow> bool" where
  "hostChar c = (let n = of_char c :: nat in (97 \<le> n \<and> n \<le> 122) \<or> (65 \<le> n \<and> n \<le> 90) \<or> (48 \<le> n \<and> n \<le> 57) \<or> c = CHR ''-'')"

definition urlRe :: regex where
  "urlRe = Alt (Seq WordBoundary (Seq (Alt (Seq (liti ''http'') (Seq (opt (ci (CHR ''s''))) (lit ''://''))) (liti ''www.'')) (plus1 nonws)))
     (Seq WordBoundary (Seq (plus1 (Chr hostChar)) (Seq (plus1 (Seq (lit ''.'') (plus1 (Chr hostChar)))) (Seq (lit ''/'') (star nonws)))))"

definition sourceWord :: regex where
  "sourceWord = opt (Seq (liti ''source'') (Seq (opt (ci (CHR ''s''))) (star ws)))"

definition citeRe :: regex where
  "citeRe = Seq (lit ''['') (Seq sourceWord (Seq (plus1 (Chr reDigit))
     (Seq (star (Seq (star ws) (Seq (lit '','') (Seq (star ws) (Seq sourceWord (plus1 (Chr reDigit))))))) (lit '']''))))"

definition headingRe :: regex where "headingRe = Seq LineStart (Seq (star ws) (Seq (plus1 (lit ''#'')) (star ws)))"

definition bulletRe :: regex where
  "bulletRe = Seq LineStart (Seq (star ws) (Seq (Alt (lit ''*'') (lit [CHR 0xE2, CHR 0x80, CHR 0xA2])) (plus1 ws)))"

definition emphasisRe :: regex where "emphasisRe = Alt (lit ''**'') (Alt (lit ''__'') (lit [CHR 0x60]))"
definition spacesRe :: regex where "spacesRe = plus1 (Chr (\<lambda>c. c = CHR '' '' \<or> c = CHR 0x09))"
definition blankRe :: regex where "blankRe = Seq (lit [CHR 0x0A, CHR 0x0A, CHR 0x0A]) (star (lit [CHR 0x0A]))"
definition spaceDotRe :: regex where "spaceDotRe = Seq (plus1 ws) (Chr (\<lambda>c. c \<in> set ''.,;:!?''))"
definition digitsRe :: regex where "digitsRe = plus1 (Chr reDigit)"

section \<open>Cleaning\<close>

record Doc =
  d_Title :: string
  d_Link :: string
  d_Text :: string

record Citation =
  cit_N :: nat
  cit_Title :: string
  cit_Link :: string

record Answer =
  an_Text :: string
  an_Citations :: "Citation list"
  an_Refused :: bool
  an_ServedBy :: string
  an_Remaining :: int

definition numberOf :: "string \<Rightarrow> nat" where
  "numberOf ds = foldl (\<lambda>n c. 10 * n + (of_char c - 48)) 0 ds"

text \<open>The numbers of one match that point at a source; one too large for an \<open>int\<close> points at none.\<close>

definition keptNumbers :: "Doc list \<Rightarrow> string \<Rightarrow> string list" where
  "keptNumbers sources m = filter (\<lambda>n. 1 \<le> numberOf n \<and> numberOf n \<le> length sources) (findAll digitsRe m)"

definition citeText :: "Doc list \<Rightarrow> string \<Rightarrow> string" where
  "citeText sources m = concat (map (\<lambda>n. ''['' @ n @ '']'') (keptNumbers sources m))"

definition addCite :: "Doc list \<Rightarrow> nat \<Rightarrow> Citation list \<Rightarrow> Citation list" where
  "addCite sources i cites =
     (if i \<in> cit_N ` set cites then cites
      else cites @ [\<lparr>cit_N = i, cit_Title = d_Title (sources ! (i - 1)), cit_Link = d_Link (sources ! (i - 1))\<rparr>])"

definition citationsOf :: "Doc list \<Rightarrow> string \<Rightarrow> Citation list" where
  "citationsOf sources s =
     fold (addCite sources) (map numberOf (concat (map (keptNumbers sources) (findAll citeRe s)))) []"

definition refusal :: "Spec \<Rightarrow> string" where
  "refusal spec = (if Refusal spec \<noteq> '''' then Refusal spec else DefaultRefusal)"

definition linkText :: "string \<Rightarrow> string" where "linkText m = takeWhile (\<lambda>c. c \<noteq> CHR '']'') (tl m)"

text \<open>The text before the citations are looked at, and after.\<close>

definition stripMarkup :: "string \<Rightarrow> string" where
  "stripMarkup output =
     (let s = replaceAll thinkRe (\<lambda>_. '''') output;
          s = cutAt runOnRe s;
          s = replaceAll mdLinkRe linkText s;
          s = replaceAll tagRe (\<lambda>_. '''') s;
          s = replaceAll urlRe (\<lambda>_. '''') s;
          s = replaceAll headingRe (\<lambda>_. '''') s;
          s = replaceAll bulletRe (\<lambda>_. ''- '') s
      in replaceAll emphasisRe (\<lambda>_. '''') s)"

definition tidy :: "string \<Rightarrow> string" where
  "tidy s =
     (let s = replaceAll spacesRe (\<lambda>_. '' '') s;
          s = replaceAll spaceDotRe (\<lambda>m. [last m]) s;
          s = replaceAll blankRe (\<lambda>_. [CHR 0x0A, CHR 0x0A]) s
      in trim_space s)"

definition Clean :: "string \<Rightarrow> Doc list \<Rightarrow> Spec \<Rightarrow> Answer" where
  "Clean output sources spec =
     (let s0 = stripMarkup output; cites = citationsOf sources s0; s = tidy (replaceAll citeRe (citeText sources) s0)
      in if s = '''' \<or> (RequireCitations spec \<and> cites = [])
         then \<lparr>an_Text = refusal spec, an_Citations = [], an_Refused = True, an_ServedBy = '''', an_Remaining = 0\<rparr>
         else \<lparr>an_Text = s, an_Citations = cites, an_Refused = (Refusal spec \<noteq> '''' \<and> s = Refusal spec), an_ServedBy = '''', an_Remaining = 0\<rparr>)"

section \<open>Citations\<close>

lemma addCite_inv:
  assumes "distinct (map cit_N cites)" "\<forall>c\<in>set cites. 1 \<le> cit_N c \<and> cit_N c \<le> length sources \<and> cit_Title c = d_Title (sources ! (cit_N c - 1))
      \<and> cit_Link c = d_Link (sources ! (cit_N c - 1))" "1 \<le> i" "i \<le> length sources"
  shows "distinct (map cit_N (addCite sources i cites)) \<and> (\<forall>c\<in>set (addCite sources i cites). 1 \<le> cit_N c \<and> cit_N c \<le> length sources
      \<and> cit_Title c = d_Title (sources ! (cit_N c - 1)) \<and> cit_Link c = d_Link (sources ! (cit_N c - 1)))"
  using assms by (auto simp: addCite_def)

lemma fold_addCite_inv:
  assumes "distinct (map cit_N cites)" "\<forall>c\<in>set cites. 1 \<le> cit_N c \<and> cit_N c \<le> length sources \<and> cit_Title c = d_Title (sources ! (cit_N c - 1))
      \<and> cit_Link c = d_Link (sources ! (cit_N c - 1))" "\<forall>i\<in>set is. 1 \<le> i \<and> i \<le> length sources"
  shows "distinct (map cit_N (fold (addCite sources) is cites)) \<and> (\<forall>c\<in>set (fold (addCite sources) is cites). 1 \<le> cit_N c \<and> cit_N c \<le> length sources
      \<and> cit_Title c = d_Title (sources ! (cit_N c - 1)) \<and> cit_Link c = d_Link (sources ! (cit_N c - 1)))"
  using assms
proof (induction "is" arbitrary: cites)
  case (Cons i "is")
  from addCite_inv [OF Cons.prems(1,2), of i] Cons.prems(3) Cons.IH [of "addCite sources i cites"] show ?case by simp
qed simp

lemma citationsOf_sound:
  "distinct (map cit_N (citationsOf sources s)) \<and> (\<forall>c\<in>set (citationsOf sources s). 1 \<le> cit_N c \<and> cit_N c \<le> length sources
      \<and> cit_Title c = d_Title (sources ! (cit_N c - 1)) \<and> cit_Link c = d_Link (sources ! (cit_N c - 1)))"
  unfolding citationsOf_def by (rule fold_addCite_inv) (auto simp: keptNumbers_def)

section \<open>Cutting a text\<close>

lemma ends_ge: "j \<in> set (ends s r i) \<Longrightarrow> i \<le> j"
proof (induction s r i arbitrary: j rule: ends.induct)
  case (3 s a b i)
  then show ?case by (fastforce intro: order_trans)
next
  case (5 s greedy a i)
  from 5(3) have "j = i \<or> (\<exists>x\<in>set (ends s a i). i < x \<and> x \<le> length s \<and> j \<in> set (ends s (Star greedy a) x))"
    by (subst (asm) ends.simps) (auto simp: Let_def split: if_splits)
  then show ?case
  proof
    assume "\<exists>x\<in>set (ends s a i). i < x \<and> x \<le> length s \<and> j \<in> set (ends s (Star greedy a) x)"
    then obtain x where "x \<in> set (ends s a i)" "i < x" "x \<le> length s" "j \<in> set (ends s (Star greedy a) x)" by blast
    with 5(2) [of x j] show ?thesis by simp
  qed simp
qed (auto split: if_splits)

text \<open>Nothing is lost when a text is cut, and every match is a piece of the text.\<close>

lemma pieces_id: "pieces (\<lambda>m. m) (segments r s i) = drop i s"
proof (induction r s i rule: segments.induct)
  case (1 r s i)
  show ?case
  proof (cases "length s \<le> i")
    case True
    then show ?thesis by (subst segments.simps) (simp add: pieces_def)
  next
    case False
    then have c: "drop i s = s ! i # drop (Suc i) s" by (simp add: Cons_nth_drop_Suc)
    show ?thesis
    proof (cases "\<exists>j. matchAt r s i = Some j \<and> i < j")
      case True
      then obtain j where j: "matchAt r s i = Some j" "i < j" by blast
      have "take (j - i) (drop i s) @ drop j s = drop i s"
        using j(2) by (metis append_take_drop_id drop_drop le_add_diff_inverse2 less_imp_le)
      with 1(2) [OF False j] j False show ?thesis by (subst segments.simps) (simp add: pieces_def)
    next
      case no: False
      then have "pieces (\<lambda>m. m) (segments r s (Suc i)) = drop (Suc i) s"
        using 1(1) [OF False] 1(3) [OF False] by (cases "matchAt r s i") auto
      with no False c show ?thesis by (subst segments.simps) (auto simp: pieces_def split: option.split)
    qed
  qed
qed

lemma segments_nonempty: "Inr m \<in> set (segments r s i) \<Longrightarrow> m \<noteq> []"
proof (induction r s i rule: segments.induct)
  case (1 r s i)
  from 1(4) show ?case
    by (subst (asm) segments.simps) (auto split: if_splits option.splits dest: 1(1-3))
qed

section \<open>Tags\<close>

text \<open>No tag: no opening bracket with a closing one somewhere after it.\<close>

fun tagFree :: "string \<Rightarrow> bool" where
  "tagFree [] = True"
| "tagFree (c # cs) = ((c = CHR ''<'' \<longrightarrow> CHR ''>'' \<notin> set cs) \<and> tagFree cs)"

definition angles :: "string \<Rightarrow> string" where
  "angles s = filter (\<lambda>c. c = CHR ''<'' \<or> c = CHR ''>'') s"

lemma angles_append [simp]: "angles (a @ b) = angles a @ angles b" by (simp add: angles_def)

lemma angles_Cons: "angles (c # s) = angles [c] @ angles s" by (simp add: angles_def)

lemma tagFree_angles: "tagFree (angles s) = tagFree s"
  by (induction s) (auto simp: angles_def)

lemma tagFree_subseq: "subseq xs ys \<Longrightarrow> tagFree ys \<Longrightarrow> tagFree xs"
proof (induction rule: list_emb.induct)
  case (list_emb_Cons2 x y xs ys)
  then have "set xs \<subseteq> set ys" by (auto elim: list_emb_set)
  with list_emb_Cons2 show ?case by auto
qed auto

lemma pieces_subseq:
  assumes "\<And>m. Inr m \<in> set segs \<Longrightarrow> subseq (angles (f m)) (angles m)"
  shows "subseq (angles (pieces f segs)) (angles (pieces (\<lambda>m. m) segs))"
  using assms
proof (induction segs)
  case (Cons x segs)
  then show ?case by (cases x) (auto simp: pieces_def angles_Cons [of _ "concat _"] intro!: list_emb_append_mono)
qed (simp add: pieces_def)

lemma replaceAll_tagFree:
  assumes "tagFree s" "\<And>m. m \<noteq> [] \<Longrightarrow> subseq (angles (f m)) (angles m)"
  shows "tagFree (replaceAll r f s)"
proof -
  have "subseq (angles (replaceAll r f s)) (angles s)"
    unfolding replaceAll_def using pieces_subseq [of "segments r s 0" f] assms(2) segments_nonempty by (simp add: pieces_id)
  then show ?thesis using assms(1) tagFree_subseq tagFree_angles by metis
qed

lemma findAll_subseq: "subseq (concat (map angles (findAll r s))) (angles s)"
proof -
  have "subseq (concat (map angles (List.map_filter (\<lambda>x. case x of Inl _ \<Rightarrow> None | Inr m \<Rightarrow> Some m) segs))) (angles (pieces (\<lambda>m. m) segs))" for segs :: "(char + string) list"
  proof (induction segs)
    case (Cons x segs)
    then show ?case by (cases x) (auto simp: pieces_def List.map_filter_def angles_Cons [of _ "concat _"] intro: list_emb_append_mono list_emb_append2)
  qed (simp add: pieces_def List.map_filter_def)
  from this [of "segments r s 0"] show ?thesis by (simp add: findAll_def pieces_id)
qed

lemma subseq_concat_filter: "subseq (concat (map g (filter P xs))) (concat (map g xs))"
  by (induction xs) (auto intro: list_emb_append_mono list_emb_append2)

lemma citeText_angles: "subseq (angles (citeText sources m)) (angles m)"
proof -
  have "angles (citeText sources m) = concat (map angles (keptNumbers sources m))"
    unfolding citeText_def by (induction "keptNumbers sources m") (auto simp: angles_def filter_concat comp_def)
  then show ?thesis
    using subseq_concat_filter [of angles _ "findAll digitsRe m"] findAll_subseq [of digitsRe m]
    unfolding keptNumbers_def by (metis subseq_order.order_trans)
qed

lemma last_angles: "m \<noteq> [] \<Longrightarrow> subseq (angles [last m]) (angles m)"
  by (metis angles_append append_butlast_last_id list_emb_append2 subseq_order.order_refl)

text \<open>The tag expression misses no tag.\<close>

lemma star_reaches:
  assumes "i \<le> k" "k \<le> length s" "\<forall>m. i \<le> m \<and> m < k \<longrightarrow> p (s ! m)"
  shows "k \<in> set (ends s (Star g (Chr p)) i)"
  using assms
proof (induction "k - i" arbitrary: i)
  case (Suc n)
  then have "k \<in> set (ends s (Star g (Chr p)) (Suc i))" by auto
  with Suc show ?case by (subst ends.simps) (auto simp: Let_def)
next
  case 0
  then have "k = i" by simp
  then show ?case by (subst ends.simps) (simp add: Let_def)
qed

lemma tagRe_matches:
  assumes "i < length s" "s ! i = CHR ''<''" "CHR ''>'' \<in> set (drop (Suc i) s)"
  shows "\<exists>j>i. matchAt tagRe s i = Some j"
proof -
  from assms(3) obtain n where "n < length (drop (Suc i) s)" "drop (Suc i) s ! n = CHR ''>''" by (auto simp: in_set_conv_nth)
  then have "Suc i \<le> Suc i + n \<and> Suc i + n < length s \<and> s ! (Suc i + n) = CHR ''>''" by simp
  then obtain k where k: "Suc i \<le> k" "k < length s" "s ! k = CHR ''>''" "\<forall>m. Suc i \<le> m \<and> m < k \<longrightarrow> s ! m \<noteq> CHR ''>''"
    using exists_least_iff [of "\<lambda>k. Suc i \<le> k \<and> k < length s \<and> s ! k = CHR ''>''"] by (metis less_trans)
  have "k \<in> set (ends s (Star True (Chr (\<lambda>c. c \<noteq> CHR ''>''))) (Suc i))" by (rule star_reaches) (use k in auto)
  then have "Suc k \<in> set (ends s tagRe i)" using assms(1,2) k(2,3) by (force simp: tagRe_def)
  then obtain j js where e: "ends s tagRe i = j # js" by (cases "ends s tagRe i") auto
  then have "j \<in> set (ends s tagRe i)" by simp
  then have "Suc i \<le> j" unfolding tagRe_def using ends_ge by (auto split: if_splits dest!: ends_ge)
  with e show ?thesis by (auto simp: matchAt_def)
qed

lemma pieces_subset: "set (pieces (\<lambda>_. []) (segments r s i)) \<subseteq> set (drop i s)"
proof -
  have "set (pieces (\<lambda>_. []) segs) \<subseteq> set (pieces (\<lambda>m. m) segs)" for segs
    by (auto simp: pieces_def split: sum.splits)
  then show ?thesis by (metis pieces_id)
qed

lemma tagRe_removes: "tagFree (replaceAll tagRe (\<lambda>_. []) s)"
proof -
  have "tagFree (pieces (\<lambda>_. []) (segments tagRe s i))" for i
  proof (induction tagRe s i rule: segments.induct)
    case (1 s i)
    show ?case
    proof (cases "length s \<le> i")
      case True
      then show ?thesis by (subst segments.simps) (simp add: pieces_def)
    next
      case False
      show ?thesis
      proof (cases "\<exists>j. matchAt tagRe s i = Some j \<and> i < j")
        case True
        then obtain j where j: "matchAt tagRe s i = Some j" "i < j" by blast
        with 1(2) [OF False j] False show ?thesis by (subst segments.simps) (simp add: pieces_def)
      next
        case no: False
        then have IH: "tagFree (pieces (\<lambda>_. []) (segments tagRe s (Suc i)))"
          using 1(1) [OF False] 1(3) [OF False] by (cases "matchAt tagRe s i") auto
        have "s ! i = CHR ''<'' \<longrightarrow> CHR ''>'' \<notin> set (drop (Suc i) s)" using tagRe_matches [of i s] no False by auto
        then have "s ! i = CHR ''<'' \<longrightarrow> CHR ''>'' \<notin> set (pieces (\<lambda>_. []) (segments tagRe s (Suc i)))"
          using pieces_subset [of tagRe s "Suc i"] by blast
        with IH no False show ?thesis by (subst segments.simps) (auto simp: pieces_def split: option.split)
      qed
    qed
  qed
  then show ?thesis by (simp add: replaceAll_def)
qed

lemma tagFree_trim: "tagFree s \<Longrightarrow> tagFree (trim_space s)"
proof -
  have "subseq (dropWhile is_space s) s" for s by (metis suffix_dropWhile suffix_imp_subseq)
  moreover have "subseq (rev a) (rev b)" if "subseq a b" for a b :: string
    using that by (induction rule: list_emb.induct) (auto intro: list_emb_append_mono subseq_rev_drop_many)
  ultimately have "subseq (trim_space s) s"
    unfolding trim_space_def by (metis rev_rev_ident subseq_order.order_trans)
  then show "tagFree s \<Longrightarrow> tagFree (trim_space s)" by (rule tagFree_subseq)
qed

lemma angles_none [simp]: "angles [] = []" "angles ''- '' = []" "angles '' '' = []" "angles [CHR 0x0A, CHR 0x0A] = []"
  by (simp_all add: angles_def)

lemma stripMarkup_tagFree: "tagFree (stripMarkup output)"
  unfolding stripMarkup_def Let_def by (intro replaceAll_tagFree tagRe_removes) simp_all

lemma tidy_tagFree: "tagFree s \<Longrightarrow> tagFree (tidy s)"
  unfolding tidy_def Let_def by (intro tagFree_trim replaceAll_tagFree) (simp_all add: last_angles)

text \<open>
  C24. What a visitor is shown is safe and sourced. Whatever the model wrote, the answer is not empty; it
  is the app's refusal, or a text without any tag; each citation names a supplied source, by its number,
  title and link, and no source twice; and where the app requires citations, an answer without one is
  the refusal.
\<close>

theorem answer_safe_and_sourced:
  "let a = Clean output sources spec in an_Text a \<noteq> '''' \<and> (an_Text a = refusal spec \<or> tagFree (an_Text a))
    \<and> distinct (map cit_N (an_Citations a))
    \<and> list_all (\<lambda>c. 1 \<le> cit_N c \<and> cit_N c \<le> length sources \<and> cit_Title c = d_Title (sources ! (cit_N c - 1))
          \<and> cit_Link c = d_Link (sources ! (cit_N c - 1))) (an_Citations a)
    \<and> (RequireCitations spec \<and> an_Citations a = [] \<longrightarrow> an_Refused a \<and> an_Text a = refusal spec)"
proof -
  let ?raw = "stripMarkup output" and ?s = "tidy (replaceAll citeRe (citeText sources) (stripMarkup output))"
  have t: "tagFree ?s" by (intro tidy_tagFree replaceAll_tagFree stripMarkup_tagFree citeText_angles)
  have r: "refusal spec \<noteq> ''''" by (simp add: refusal_def DefaultRefusal_def)
  define a where "a = Clean output sources spec"
  show ?thesis
  proof (cases "?s = '''' \<or> (RequireCitations spec \<and> citationsOf sources ?raw = [])")
    case True
    then have "a = \<lparr>an_Text = refusal spec, an_Citations = [], an_Refused = True, an_ServedBy = '''', an_Remaining = 0\<rparr>"
      by (auto simp: a_def Clean_def Let_def)
    with r show ?thesis unfolding Let_def a_def [symmetric] by simp
  next
    case False
    then have "a = \<lparr>an_Text = ?s, an_Citations = citationsOf sources ?raw, an_Refused = (Refusal spec \<noteq> '''' \<and> ?s = Refusal spec), an_ServedBy = '''', an_Remaining = 0\<rparr>"
      unfolding a_def Clean_def Let_def by (simp only: if_False)
    with False t citationsOf_sound [of sources ?raw] show ?thesis unfolding Let_def a_def [symmetric] by (auto simp: list_all_iff)
  qed
qed

theorem answer_safe_and_sourced_witness:
  "let spec = exampleSpec\<lparr>RequireCitations := True\<rparr>; a = Clean ''Sure <b>thing</b>'' [] spec
   in an_Citations a = [] \<and> an_Text a = refusal spec"
proof -
  let ?spec = "exampleSpec\<lparr>RequireCitations := True\<rparr>"
  have "an_Citations (Clean ''Sure <b>thing</b>'' [] ?spec) = []" by code_simp
  then show ?thesis using answer_safe_and_sourced [of "''Sure <b>thing</b>''" "[]" ?spec] by (simp add: Let_def)
qed

text \<open>Emphasis marks go after the addresses, so an address with marks inside survives as one.\<close>

lemma url_survives: "stripMarkup ''ht**tps://x.y'' = ''https://x.y''"
  by code_simp

end
