(* ===== verification/Apps_Retrieve.thy ===== *)
theory Apps_Retrieve
  imports Apps_Answer
begin

text \<open>
  Choosing the sources for a question, \<open>src/internal/apps/retrieve.go\<close>: a BM25 index over the app's
  knowledge file. Scores (Go floats) are rationals; the logarithm and the letter test for runes outside
  ASCII are arguments.
\<close>

section \<open>The index\<close>

definition SourceBudget :: nat where "SourceBudget = 6000"
definition MaxSources :: nat where "MaxSources = 8"
definition maxDocChars :: nat where "maxDocChars = 2000"
definition historyWeight :: rat where "historyWeight = 1 / 2"

record IDoc = Doc +
  d_always :: bool
  d_terms :: "string \<Rightarrow> nat"
  d_len :: nat

record Index =
  ix_docs :: "IDoc list"
  ix_df :: "string \<Rightarrow> nat"
  ix_avgLen :: rat

text \<open>The position of the last byte among \<open>cs\<close>.\<close>

fun lastIndexAny :: "string \<Rightarrow> char list \<Rightarrow> nat option" where
  "lastIndexAny [] cs = None"
| "lastIndexAny (x # xs) cs = (case lastIndexAny xs cs of Some i \<Rightarrow> Some (Suc i) | None \<Rightarrow> if x \<in> set cs then Some 0 else None)"

definition trimText :: "string \<Rightarrow> string" where
  "trimText s0 =
     (let s = trim_space s0 in
      if length s \<le> maxDocChars then s
      else let t = take maxDocChars s in
           case lastIndexAny t [CHR ''.'', CHR 0x0A] of
             None \<Rightarrow> t
           | Some cutoff \<Rightarrow> if cutoff > maxDocChars div 2 then take (cutoff + 1) t else t)"

definition stopwords :: "string list" where
  "stopwords = [''a'', ''about'', ''an'', ''and'', ''any'', ''are'', ''as'', ''at'', ''be'', ''been'', ''but'', ''by'', ''can'', ''could'',
     ''did'', ''do'', ''does'', ''for'', ''from'', ''had'', ''has'', ''have'', ''he'', ''her'', ''him'', ''his'', ''how'', ''i'', ''if'',
     ''in'', ''into'', ''is'', ''it'', ''its'', ''me'', ''my'', ''of'', ''on'', ''or'', ''our'', ''she'', ''so'', ''tell'', ''than'',
     ''that'', ''the'', ''their'', ''them'', ''then'', ''there'', ''these'', ''they'', ''this'', ''to'', ''was'', ''we'', ''were'',
     ''what'', ''when'', ''where'', ''which'', ''who'', ''why'', ''will'', ''with'', ''would'', ''you'', ''your'']"

definition termRune :: "(string \<Rightarrow> bool) \<Rightarrow> string \<Rightarrow> bool" where
  "termRune isLetter r = (case r of
       [c] \<Rightarrow> (let n = of_char c :: nat in (97 \<le> n \<and> n \<le> 122) \<or> (65 \<le> n \<and> n \<le> 90) \<or> (48 \<le> n \<and> n \<le> 57)) \<or> c = CHR ''+'' \<or> c = CHR ''#''
     | _ \<Rightarrow> isLetter r)"

fun fieldsFunc :: "(string \<Rightarrow> bool) \<Rightarrow> string list \<Rightarrow> string \<Rightarrow> string list" where
  "fieldsFunc keep [] acc = (if acc = [] then [] else [acc])"
| "fieldsFunc keep (r # rs) acc =
     (if keep r then fieldsFunc keep rs (acc @ r)
      else (if acc = [] then [] else [acc]) @ fieldsFunc keep rs [])"

definition has_suffix :: "string \<Rightarrow> string \<Rightarrow> bool" where
  "has_suffix s t = has_prefix (rev s) (rev t)"

definition foldPlural :: "string \<Rightarrow> string" where
  "foldPlural f = (if length f > 4 \<and> has_suffix f ''s'' \<and> \<not> has_suffix f ''ss'' then butlast f else f)"

definition tokenizeText :: "(string \<Rightarrow> bool) \<Rightarrow> string list \<Rightarrow> string \<Rightarrow> string list" where
  "tokenizeText isLetter ignore s =
     map foldPlural (filter (\<lambda>f. \<not> (f \<in> set stopwords \<or> f \<in> set ignore)) (fieldsFunc (termRune isLetter) (runes (to_lower s)) []))"

definition indexDoc :: "(string \<Rightarrow> bool) \<Rightarrow> Document \<Rightarrow> IDoc" where
  "indexDoc isLetter d =
     (let body = trimText (doc_Text d); ts = tokenizeText isLetter [] (doc_Title d @ '' '' @ doc_Title d @ '' '' @ body)
      in \<lparr>d_Title = doc_Title d, d_Link = doc_Link d, d_Text = body, d_always = doc_Always d, d_terms = count_list ts, d_len = length ts\<rparr>)"

definition NewIndex :: "(string \<Rightarrow> bool) \<Rightarrow> Document list \<Rightarrow> Index" where
  "NewIndex isLetter ks =
     (let ds = map (indexDoc isLetter) ks
      in \<lparr>ix_docs = ds, ix_df = (\<lambda>t. length (filter (\<lambda>d. d_terms d t > 0) ds)),
          ix_avgLen = of_nat (sum_list (map d_len ds)) / of_nat (length ds)\<rparr>)"

section \<open>Scoring and choosing\<close>

definition bm25K1 :: rat where "bm25K1 = 6 / 5"
definition bm25B :: rat where "bm25B = 3 / 4"

type_synonym query = "(string \<times> rat) list"

fun addWeight :: "string \<Rightarrow> rat \<Rightarrow> query \<Rightarrow> query" where
  "addWeight t w [] = [(t, w)]"
| "addWeight t w ((u, v) # q) = (if u = t then (u, v + w) # q else (u, v) # addWeight t w q)"

definition score :: "(rat \<Rightarrow> rat) \<Rightarrow> Index \<Rightarrow> IDoc \<Rightarrow> query \<Rightarrow> rat" where
  "score logf idx d query =
     (let n = of_nat (length (ix_docs idx)) in
      sum_list (map (\<lambda>(t, w).
        if d_terms d t = 0 then 0
        else let tf = of_nat (d_terms d t); df = of_nat (ix_df idx t); idf = logf (1 + (n - df + 1 / 2) / (df + 1 / 2))
             in w * idf * tf * (bm25K1 + 1) / (tf + bm25K1 * (1 - bm25B + bm25B * of_nat (d_len d) / ix_avgLen idx))) query))"

definition queryTerms :: "(string \<Rightarrow> bool) \<Rightarrow> string \<Rightarrow> string list \<Rightarrow> string list \<Rightarrow> query" where
  "queryTerms isLetter question hist ignoreTerms =
     (let ignore = map to_lower ignoreTerms;
          q = fold (\<lambda>t. addWeight t 1) (tokenizeText isLetter ignore question) []
      in fold (\<lambda>t. addWeight t historyWeight) (concat (map (tokenizeText isLetter ignore) hist)) q)"

definition textSize :: "IDoc list \<Rightarrow> nat" where "textSize ds = sum_list (map (\<lambda>d. length (d_Text d)) ds)"

fun pickRanked :: "(IDoc \<times> rat) list \<Rightarrow> IDoc list \<Rightarrow> nat \<Rightarrow> IDoc list" where
  "pickRanked [] out used = out"
| "pickRanked ((d, s) # rs) out used =
     (if length out \<ge> MaxSources then out
      else if used + length (d_Text d) > SourceBudget then pickRanked rs out used
      else pickRanked rs (out @ [d]) (used + length (d_Text d)))"

definition ranking :: "(rat \<Rightarrow> rat) \<Rightarrow> Index \<Rightarrow> query \<Rightarrow> (IDoc \<times> rat) list" where
  "ranking logf idx query =
     sort_key (\<lambda>(d, s). - s) (filter (\<lambda>(d, s). s > 0) (map (\<lambda>d. (d, score logf idx d query)) (filter (\<lambda>d. \<not> d_always d) (ix_docs idx))))"

definition Retrieve :: "(rat \<Rightarrow> rat) \<Rightarrow> (string \<Rightarrow> bool) \<Rightarrow> Index \<Rightarrow> string \<Rightarrow> string list \<Rightarrow> string list \<Rightarrow> IDoc list" where
  "Retrieve logf isLetter idx question hist ignoreTerms =
     (let always = filter d_always (ix_docs idx)
      in pickRanked (ranking logf idx (queryTerms isLetter question hist ignoreTerms)) always (textSize always))"

section \<open>Properties\<close>

lemma textSize_simps [simp]: "textSize [] = 0" "textSize (d # ds) = length (d_Text d) + textSize ds" "textSize (ds @ es) = textSize ds + textSize es"
  by (simp_all add: textSize_def)

lemma pickRanked_spec:
  "\<exists>chosen. pickRanked rs out (textSize out) = out @ chosen \<and> subseq chosen (map fst rs)
    \<and> length (out @ chosen) \<le> max MaxSources (length out) \<and> textSize (out @ chosen) \<le> max SourceBudget (textSize out)"
proof (induction rs arbitrary: out)
  case (Cons r rs)
  obtain d s where r: "r = (d, s)" by fastforce
  show ?case
  proof (cases "length out \<ge> MaxSources")
    case True
    then show ?thesis by (simp add: r)
  next
    case room: False
    show ?thesis
    proof (cases "textSize out + length (d_Text d) > SourceBudget")
      case True
      with Cons.IH [of out] obtain chosen where "pickRanked (r # rs) out (textSize out) = out @ chosen" "subseq chosen (map fst rs)"
        "length (out @ chosen) \<le> max MaxSources (length out)" "textSize (out @ chosen) \<le> max SourceBudget (textSize out)"
        using room by (auto simp: r)
      then show ?thesis by (intro exI [of _ chosen]) (auto simp del: pickRanked.simps)
    next
      case False
      with Cons.IH [of "out @ [d]"] room obtain chosen where "pickRanked (r # rs) out (textSize out) = (out @ [d]) @ chosen"
        "subseq chosen (map fst rs)" "length ((out @ [d]) @ chosen) \<le> max MaxSources (length (out @ [d]))"
        "textSize ((out @ [d]) @ chosen) \<le> max SourceBudget (textSize (out @ [d]))"
        by (auto simp: r)
      with False room show ?thesis by (intro exI [of _ "d # chosen"]) (auto simp: r simp del: pickRanked.simps)
    qed
  qed
qed simp

lemma subseq_map_sorted:
  assumes "subseq xs (map fst rs)" "sorted (map g rs)" "\<And>r. r \<in> set rs \<Longrightarrow> g r = h (fst r)"
  shows "sorted (map h xs)"
proof -
  have "sorted (map h (map fst rs))" using assms(2,3) by (metis (no_types, lifting) comp_apply map_cong map_map)
  moreover have "subseq (map h xs) (map h (map fst rs))" using assms(1) by (rule subseq_map)
  ultimately show ?thesis by (metis sorted_nths subseq_conv_nths)
qed

lemma trimText_length: "length (trimText s) \<le> maxDocChars"
  by (simp add: trimText_def Let_def split: option.split)

text \<open>
  The sources of a question. Every document the site marks as always sent comes first, in the site's
  order; after them come only documents with a positive score, best first and none repeated beyond the
  index. With \<open>k\<close> always-documents there are never more than eight sources, or \<open>k\<close> if that is more, and the
  text is never larger than the budget, or than the always-documents themselves if they exceed it.
\<close>

lemma sources_bounded:
  "\<exists>chosen. Retrieve logf isLetter idx question hist ignored = filter d_always (ix_docs idx) @ chosen
    \<and> length (filter d_always (ix_docs idx) @ chosen) \<le> max 8 (length (filter d_always (ix_docs idx)))
    \<and> textSize (filter d_always (ix_docs idx) @ chosen) \<le> max 6000 (textSize (filter d_always (ix_docs idx)))
    \<and> list_all (\<lambda>d. d \<in> set (ix_docs idx) \<and> \<not> d_always d \<and> 0 < score logf idx d (queryTerms isLetter question hist ignored)) chosen
    \<and> sorted (map (\<lambda>d. - score logf idx d (queryTerms isLetter question hist ignored)) chosen)"
proof -
  let ?q = "queryTerms isLetter question hist ignored" and ?always = "filter d_always (ix_docs idx)"
  let ?rs = "ranking logf idx ?q"
  obtain chosen where c: "pickRanked ?rs ?always (textSize ?always) = ?always @ chosen" "subseq chosen (map fst ?rs)"
    "length (?always @ chosen) \<le> max MaxSources (length ?always)" "textSize (?always @ chosen) \<le> max SourceBudget (textSize ?always)"
    using pickRanked_spec [of ?rs ?always] by blast
  have rs: "snd r = score logf idx (fst r) ?q \<and> fst r \<in> set (ix_docs idx) \<and> \<not> d_always (fst r) \<and> 0 < snd r" if "r \<in> set ?rs" for r
    using that by (auto simp: ranking_def)
  have "set chosen \<subseteq> fst ` set ?rs" using c(2) by (metis list.set_map notin_set_nthsI subseq_conv_nths subsetI)
  then have "list_all (\<lambda>d. d \<in> set (ix_docs idx) \<and> \<not> d_always d \<and> 0 < score logf idx d ?q) chosen"
    using rs by (fastforce simp: list_all_iff)
  moreover have "sorted (map (\<lambda>(d, s). - s) ?rs)" by (simp add: ranking_def)
  then have "sorted (map (\<lambda>d. - score logf idx d ?q) chosen)"
    by (rule subseq_map_sorted [OF c(2)]) (use rs in \<open>auto simp: case_prod_beta\<close>)
  ultimately show ?thesis using c by (auto simp: Retrieve_def Let_def MaxSources_def SourceBudget_def)
qed

lemma index_texts: "d \<in> set (ix_docs (NewIndex isLetter ks)) \<Longrightarrow> length (d_Text d) \<le> maxDocChars"
  by (auto simp: NewIndex_def indexDoc_def Let_def trimText_length)

end
