(* ===== verification/Relay_Ask.thy ===== *)
theory Relay_Ask
  imports Relay_Http Apps_Retrieve
begin

text \<open>
  The public question endpoint, \<open>src/internal/railwayq/ask.go\<close>: the per-visitor allowance, the per-app
  in-flight count, the checks in their order, and the wait for the PC's answer with the clean-up when it
  does not come. While a question waits, other requests go on: each tick of the poll carries what they did
  to the relay. The hosted model, the knowledge registry, JSON and SHA-256 are arguments.
\<close>

section \<open>Visitors\<close>

record 'l askVisitor =
  av_lim :: 'l
  av_day :: int
  av_pc :: int
  av_hosted :: int

record 'l askState =
  as_srv :: "'l relaySrv"
  as_seen :: "string \<rightharpoonup> 'l askVisitor"
  as_lastSweep :: time
  as_running :: "string \<Rightarrow> int"

definition sweepVisitors :: "time \<Rightarrow> int \<Rightarrow> 'l askState \<Rightarrow> 'l askState" where
  "sweepVisitors now day st =
     (if now - as_lastSweep st > 600000
      then st\<lparr>as_seen := (\<lambda>k. case as_seen st k of None \<Rightarrow> None | Some e \<Rightarrow> if av_day e \<noteq> day then None else Some e), as_lastSweep := now\<rparr>
      else st)"

definition visitorEntry :: "'l rateOps \<Rightarrow> int \<Rightarrow> Limits \<Rightarrow> 'l askVisitor option \<Rightarrow> 'l askVisitor" where
  "visitorEntry ro day l found =
     (let fresh = \<lparr>av_lim = roNew ro (VisitorPerMin l / 60) (VisitorBurst l), av_day = day, av_pc = 0, av_hosted = 0\<rparr>
      in case found of None \<Rightarrow> fresh | Some e \<Rightarrow> if av_day e \<noteq> day then fresh else e)"

definition answersOn :: "bool \<Rightarrow> 'l askVisitor \<Rightarrow> int" where
  "answersOn hosted e = (if hosted then av_hosted e else av_pc e)"

definition dayLimit :: "bool \<Rightarrow> Limits \<Rightarrow> int" where
  "dayLimit hosted l = (if hosted then HostedVisitorPerDay l else VisitorPerDay l)"

definition countAnswer :: "bool \<Rightarrow> 'l askVisitor \<Rightarrow> 'l askVisitor" where
  "countAnswer hosted e = (if hosted then e\<lparr>av_hosted := av_hosted e + 1\<rparr> else e\<lparr>av_pc := av_pc e + 1\<rparr>)"

definition allow :: "'l rateOps \<Rightarrow> string \<Rightarrow> Limits \<Rightarrow> bool \<Rightarrow> time \<Rightarrow> int \<Rightarrow> 'l askState \<Rightarrow> 'l askState \<times> string \<times> int" where
  "allow ro key l hosted now day st0 =
     (let st = sweepVisitors now day st0;
          e = visitorEntry ro day l (as_seen st key);
          count = answersOn hosted e; limit = dayLimit hosted l;
          put = (\<lambda>e. st\<lparr>as_seen := (as_seen st)(key \<mapsto> e)\<rparr>)
      in if count \<ge> limit then (put e, ''quota_exceeded'', 0)
         else case roAllow ro now (av_lim e) of
                (b, False) \<Rightarrow> (put (e\<lparr>av_lim := b\<rparr>), ''rate_limited'', limit - count)
              | (b, True) \<Rightarrow> (put (countAnswer hosted (e\<lparr>av_lim := b\<rparr>)), '''', limit - (count + 1)))"

section \<open>Questions in flight\<close>

definition acquire :: "string \<Rightarrow> int \<Rightarrow> 'l askState \<Rightarrow> 'l askState \<times> bool" where
  "acquire appID mx st =
     (if as_running st appID \<ge> mx then (st, False)
      else (st\<lparr>as_running := (as_running st)(appID := as_running st appID + 1)\<rparr>, True))"

definition release :: "string \<Rightarrow> 'l askState \<Rightarrow> 'l askState" where
  "release appID st = st\<lparr>as_running := (as_running st)(appID := as_running st appID - 1)\<rparr>"

section \<open>The request and its checks\<close>

datatype askBody = AskBad | AskTooLarge | AskBody string string "string list"

text \<open>\<open>ar_remote\<close> is the host part of the connection's address, empty when it does not split.\<close>

record askReq =
  ar_method :: string
  ar_origin :: string
  ar_realIP :: string
  ar_remote :: string
  ar_body :: askBody

datatype askOut = AskErr nat string | AskAnswer Answer | AskPreflight | AskGone

text \<open>One round of the poll: what others did since the last one, then the query for the result, which may
  fail, with whether the visitor has left by then. \<open>ae_end\<close> is the end of the wait: the deadline, or the
  visitor leaving.\<close>

datatype 'l tick = Poll "'l askState \<Rightarrow> 'l askState" | PollFailed "'l askState \<Rightarrow> 'l askState" bool

record 'l askEnv =
  ae_relay :: "'l relayEnv"
  ae_hosted :: "(InferRequest \<Rightarrow> bool + string) option"
  ae_knowledge :: "string \<Rightarrow> Index option"
  ae_log :: "rat \<Rightarrow> rat"
  ae_isLetter :: "string \<Rightarrow> bool"
  ae_encode :: "InferRequest \<Rightarrow> string option"
  ae_decode :: "string \<Rightarrow> string option"
  ae_ticks :: "'l tick list"
  ae_end :: "('l askState \<Rightarrow> 'l askState) \<times> bool"

definition visitorKey :: "'l relayEnv \<Rightarrow> askReq \<Rightarrow> string \<Rightarrow> string" where
  "visitorKey env r appID =
     (let ip0 = trim_space (ar_realIP r); ip = (if ip0 = '''' then ar_remote r else ip0)
      in appID @ '':'' @ take 24 (re_hash env (AppIPSalt (re_cfg env) @ ip)))"

text \<open>\<open>Inl\<close> the message, \<open>Inr\<close> the trimmed question.\<close>

definition validateAsk :: "string \<Rightarrow> string list \<Rightarrow> Limits \<Rightarrow> string + string" where
  "validateAsk input0 hist l =
     (let input = trim_space input0 in
      if input = '''' then Inl ''input is required''
      else if int (length (runes input)) > MaxInputChars l then Inl ''input is too long''
      else if int (length hist) > MaxHistory l then Inl ''too many earlier questions''
      else if list_ex (\<lambda>h. int (length (runes h)) > MaxHistoryChars l) hist then Inl ''an earlier question is too long''
      else Inr input)"

section \<open>Answering\<close>

text \<open>\<open>Inr\<close> a finished job, \<open>Inl\<close> an error with whether the visitor has left.\<close>

fun waitForResult :: "string \<Rightarrow> string \<Rightarrow> 'l tick list \<Rightarrow> ('l askState \<Rightarrow> 'l askState) \<times> bool \<Rightarrow> 'l askState \<Rightarrow>
    'l askState \<times> (bool + ResultResponse)" where
  "waitForResult i identity [] (others, left) st = (others st, Inl left)"
| "waitForResult i identity (PollFailed others left # ts) fin st = (others st, Inl left)"
| "waitForResult i identity (Poll others # ts) fin st =
     (let st1 = others st in
      case GetResult (rs_db (as_srv st1)) i identity of
        None \<Rightarrow> (st1, Inl False)
      | Some res \<Rightarrow>
          if rr_Status res = QueueJobDone \<or> rr_Status res = QueueJobFailed then (st1, Inr res)
          else waitForResult i identity ts fin st1)"

definition setDB :: "relay \<Rightarrow> 'l askState \<Rightarrow> 'l askState" where
  "setDB db st = st\<lparr>as_srv := (as_srv st)\<lparr>rs_db := db\<rparr>\<rparr>"

definition served :: "string \<Rightarrow> int \<Rightarrow> Answer \<Rightarrow> Answer" where
  "served by' remaining a = a\<lparr>an_ServedBy := by', an_Remaining := remaining\<rparr>"

definition answerHosted :: "'l askEnv \<Rightarrow> (InferRequest \<Rightarrow> bool + string) \<Rightarrow> 'l askState \<Rightarrow> InferRequest \<Rightarrow> Doc list \<Rightarrow> Spec \<Rightarrow>
    string \<Rightarrow> int \<Rightarrow> 'l askState \<times> askOut" where
  "answerHosted env model st infer sources spec identity remaining =
     (if \<not> re_ok (ae_relay env) ''increment'' then (st, AskErr 500 ''internal_error'')
      else let st1 = setDB (IncrementUsage (re_day (ae_relay env)) identity (rs_db (as_srv st))) st
           in case model infer of
                Inl True \<Rightarrow> (st1, AskGone)
              | Inl False \<Rightarrow> (st1, AskErr 503 ''unavailable'')
              | Inr output \<Rightarrow> (st1, AskAnswer (served ''hosted'' remaining (Clean output sources spec))))"

text \<open>\<open>dbAskStore.Enqueue\<close>: the job is stored first and counted after; the second step may fail alone.\<close>

definition askEnqueue :: "'l relayEnv \<Rightarrow> 'l askState \<Rightarrow> QueueJob \<Rightarrow> 'l askState \<times> bool" where
  "askEnqueue re st job =
     (if \<not> re_ok re ''enqueue'' then (st, False)
      else case Enqueue_job (re_now re) (re_valid re) (rs_db (as_srv st)) job of
             (_, Some _) \<Rightarrow> (st, False)
           | (db, None) \<Rightarrow>
               if \<not> re_ok re ''increment'' then (setDB db st, False)
               else (setDB (IncrementUsage (re_day re) (q_Identity job) db) st, True))"

definition askJob :: "'l relayEnv \<Rightarrow> Spec \<Rightarrow> string \<Rightarrow> string \<Rightarrow> QueueJob" where
  "askJob re spec identity payload =
     \<lparr>q_ID = re_newID re, q_CorrelationID = sp_ID spec @ ''-'' @ re_newID re, q_Status = QueueJobPending, q_Payload = payload,
      q_ResultPayload = None, q_ErrorCode = None, q_CreatedAt = re_now re, q_ClaimedAt = None, q_FinishedAt = None,
      q_AttemptCount = 0, q_MaxAttempts = 1, q_Identity = identity\<rparr>"

definition askOutcome :: "'l askEnv \<Rightarrow> 'l askState \<Rightarrow> bool + ResultResponse \<Rightarrow> Doc list \<Rightarrow> Spec \<Rightarrow> string \<Rightarrow> int \<Rightarrow> 'l askState \<times> askOut" where
  "askOutcome env st res sources spec identity remaining =
     (case res of
        Inl left \<Rightarrow>
          let (st1, cancelled) =
                (if \<not> re_ok (ae_relay env) ''cancel'' then (st, False)
                 else case CancelPending (rs_db (as_srv st)) (re_newID (ae_relay env)) identity of
                        (db, c) \<Rightarrow> (setDB db st, c = cancelResult.Cancelled))
          in (st1, if left then AskGone else if cancelled then AskErr 503 ''overloaded'' else AskErr 504 ''timeout'')
      | Inr r \<Rightarrow>
          if rr_Status r = QueueJobFailed then (st, AskErr 503 ''overloaded'')
          else case Option.bind (rr_ResultPayload r) (ae_decode env) of
                 None \<Rightarrow> (st, AskErr 500 ''internal_error'')
               | Some output \<Rightarrow> (st, AskAnswer (served ''pc'' remaining (Clean output sources spec))))"

definition answerPC :: "'l askEnv \<Rightarrow> 'l askState \<Rightarrow> InferRequest \<Rightarrow> Doc list \<Rightarrow> Spec \<Rightarrow> string \<Rightarrow> int \<Rightarrow> 'l askState \<times> askOut" where
  "answerPC env st infer sources spec identity remaining =
     (case ae_encode env infer of
        None \<Rightarrow> (st, AskErr 500 ''internal_error'')
      | Some payload \<Rightarrow>
          (case askEnqueue (ae_relay env) st (askJob (ae_relay env) spec identity payload) of
             (st1, False) \<Rightarrow> (st1, AskErr 500 ''internal_error'')
           | (st1, True) \<Rightarrow>
               (case waitForResult (re_newID (ae_relay env)) identity (ae_ticks env) (ae_end env) st1 of
                  (st2, res) \<Rightarrow> askOutcome env st2 res sources spec identity remaining)))"

text \<open>From the acquired slot to the reply.\<close>

definition sourcesFor :: "'l askEnv \<Rightarrow> Index option \<Rightarrow> Spec \<Rightarrow> string \<Rightarrow> string list \<Rightarrow> Doc list" where
  "sourcesFor env idx spec input hist =
     (case idx of None \<Rightarrow> []
      | Some ix \<Rightarrow> map Doc.truncate (Retrieve (ae_log env) (ae_isLetter env) ix input hist (IgnoreTerms spec)))"

definition inferFor :: "Spec \<Rightarrow> Doc list \<Rightarrow> string \<Rightarrow> string list \<Rightarrow> InferRequest" where
  "inferFor spec sources input hist = BuildRequest spec (map (\<lambda>d. (d_Title d, d_Text d)) sources) input hist"

definition askServe :: "'l askEnv \<Rightarrow> 'l askState \<Rightarrow> (InferRequest \<Rightarrow> bool + string) option \<Rightarrow> Spec \<Rightarrow> string \<Rightarrow> int \<Rightarrow> Index option \<Rightarrow>
    string \<Rightarrow> string list \<Rightarrow> 'l askState \<times> askOut" where
  "askServe env st offline spec identity remaining idx input hist =
     (if \<not> re_ok (ae_relay env) ''usage'' then (st, AskErr 500 ''internal_error'')
      else if UsageToday (re_day (ae_relay env)) identity (rs_db (as_srv st)) \<ge> PerDay (Limits_of spec) then (st, AskErr 429 ''quota_exceeded'')
      else let sources = sourcesFor env idx spec input hist; infer = inferFor spec sources input hist
           in case offline of
                Some model \<Rightarrow> answerHosted env model st infer sources spec identity remaining
              | None \<Rightarrow> answerPC env st infer sources spec identity remaining)"

text \<open>From the visitor's allowance to the reply; the slot is given back on every way out.\<close>

definition askLimited :: "'l askEnv \<Rightarrow> 'l askState \<Rightarrow> askReq \<Rightarrow> (InferRequest \<Rightarrow> bool + string) option \<Rightarrow> App \<Rightarrow> string \<Rightarrow> string list \<Rightarrow>
    'l askState \<times> askOut" where
  "askLimited env st r offline app input hist =
     (let re = ae_relay env; spec = app_Spec app; identity = Identity app; l = Limits_of spec;
          (st1, code, remaining) = allow (re_rate re) (visitorKey re r (sp_ID spec)) l (offline \<noteq> None) (re_now re) (re_day re) st;
          idx = (if KnowledgeURL spec \<noteq> '''' then ae_knowledge env (KnowledgeURL spec) else None)
      in if code \<noteq> '''' then (st1, AskErr 429 code)
         else if KnowledgeURL spec \<noteq> '''' \<and> idx = None then (st1, AskErr 503 ''unavailable'')
         else let (budget, allowed) = AllowAt (re_rate re) (re_now re) identity (PerMin l) (rs_lim (as_srv st1));
                  st2 = st1\<lparr>as_srv := (as_srv st1)\<lparr>rs_lim := budget\<rparr>\<rparr>
              in if \<not> allowed then (st2, AskErr 429 ''rate_limited'')
                 else case acquire (sp_ID spec) (MaxConcurrent l) st2 of
                        (st3, False) \<Rightarrow> (st3, AskErr 503 ''overloaded'')
                      | (st3, True) \<Rightarrow>
                          (case askServe env st3 offline spec identity remaining idx input hist of
                             (st4, out) \<Rightarrow> (release (sp_ID spec) st4, out)))"

text \<open>The reply with the origin it allows.\<close>

definition handleAsk :: "'l askEnv \<Rightarrow> 'l askState \<Rightarrow> askReq \<Rightarrow> 'l askState \<times> askOut \<times> string option" where
  "handleAsk env st r =
     (if ar_method r = ''OPTIONS'' then (st, AskPreflight, if ar_origin r \<noteq> '''' then Some (ar_origin r) else None)
      else if ar_method r \<noteq> ''POST'' then (st, AskErr 405 ''invalid_request'', None)
      else case ar_body r of
             AskTooLarge \<Rightarrow> (st, AskErr 413 ''invalid_request'', None)
           | AskBad \<Rightarrow> (st, AskErr 400 ''invalid_request'', None)
           | AskBody key input0 hist \<Rightarrow>
               let re = ae_relay env; pcOnline = pc_online (re_now re) (rs_db (as_srv st)) in
               if \<not> IsAppKey key then (st, AskErr 401 ''unauthorized'', None)
               else if \<not> pcOnline \<and> ae_hosted env = None then (st, AskErr 503 ''unavailable'', None)
               else case LookupKey (re_ok re ''key'') (re_hash re) (re_parse re) (rs_apps (as_srv st)) key of
                      NotFound \<Rightarrow> (st, AskErr 401 ''unauthorized'', None)
                    | LookupFailed \<Rightarrow> (st, AskErr 500 ''internal_error'', None)
                    | Found app \<Rightarrow>
                        let spec = app_Spec app; cors = (if ar_origin r \<noteq> '''' then Some (ar_origin r) else None) in
                        if ar_origin r \<noteq> '''' \<and> ar_origin r \<notin> set (Origins spec) then (st, AskErr 403 ''unauthorized'', None)
                        else case validateAsk input0 hist (Limits_of spec) of
                               Inl msg \<Rightarrow> (st, AskErr 400 ''invalid_request'', cors)
                             | Inr input \<Rightarrow>
                                 (case askLimited env st r (if pcOnline then None else ae_hosted env) app input hist of
                                    (st1, out) \<Rightarrow> (st1, out, cors)))"

section \<open>A visitor's day\<close>

definition usedOn :: "'l askState \<Rightarrow> string \<Rightarrow> bool \<Rightarrow> int \<Rightarrow> int" where
  "usedOn st key hosted day =
     (case as_seen st key of None \<Rightarrow> 0 | Some e \<Rightarrow> if av_day e = day then answersOn hosted e else 0)"

definition seenUpTo :: "'l askState \<Rightarrow> int \<Rightarrow> bool" where
  "seenUpTo st day = (\<forall>key e. as_seen st key = Some e \<longrightarrow> av_day e \<le> day)"

lemma sweepVisitors_used:
  "usedOn (sweepVisitors now day st) key hosted day = usedOn st key hosted day"
  "seenUpTo st day \<Longrightarrow> seenUpTo (sweepVisitors now day st) day"
  by (auto simp: sweepVisitors_def usedOn_def seenUpTo_def split: option.splits if_splits)

lemma sweepVisitors_frame [simp]:
  "as_srv (sweepVisitors now day st) = as_srv st" "as_running (sweepVisitors now day st) = as_running st"
  by (simp_all add: sweepVisitors_def)

lemma visitorEntry_used:
  "av_day (visitorEntry ro day l (as_seen st key)) = day"
  "answersOn hosted (visitorEntry ro day l (as_seen st key)) = usedOn st key hosted day"
  by (auto simp: visitorEntry_def Let_def usedOn_def answersOn_def split: option.splits)

lemma usedOn_put:
  assumes "av_day e = day"
  shows "usedOn (st\<lparr>as_seen := (as_seen st)(key \<mapsto> e)\<rparr>) key' h day = (if key' = key then answersOn h e else usedOn st key' h day)"
  using assms by (simp add: usedOn_def)

lemma answersOn_simps [simp]:
  "answersOn h (e\<lparr>av_lim := b\<rparr>) = answersOn h e" "answersOn h (countAnswer h' e) = answersOn h e + of_bool (h = h')"
  "av_day (countAnswer h' e) = av_day e"
  by (auto simp: answersOn_def countAnswer_def)

lemma allow_effect:
  assumes "allow ro key l hosted now day st = (st', code, remaining)"
  shows "usedOn st' k h day = usedOn st k h day + of_bool (k = key \<and> h = hosted \<and> code = '''')"
    and "code = '''' \<Longrightarrow> usedOn st key hosted day < dayLimit hosted l \<and> remaining = dayLimit hosted l - usedOn st' key hosted day"
    and "seenUpTo st day \<Longrightarrow> seenUpTo st' day"
    and "as_srv st' = as_srv st" "as_running st' = as_running st"
proof -
  let ?st = "sweepVisitors now day st"
  let ?e = "visitorEntry ro day l (as_seen ?st key)"
  obtain b ok where B: "roAllow ro now (av_lim ?e) = (b, ok)" by fastforce
  note e = visitorEntry_used [where st = ?st] sweepVisitors_used
  have form: "\<exists>e'. st' = ?st\<lparr>as_seen := (as_seen ?st)(key \<mapsto> e')\<rparr> \<and> av_day e' = day
      \<and> (\<forall>h. answersOn h e' = usedOn st key h day + of_bool (h = hosted \<and> code = ''''))
      \<and> (code = '''' \<longrightarrow> usedOn st key hosted day < dayLimit hosted l \<and> remaining = dayLimit hosted l - (usedOn st key hosted day + 1))"
  proof (cases "answersOn hosted ?e \<ge> dayLimit hosted l")
    case True
    with assms show ?thesis by (intro exI [of _ ?e]) (auto simp: allow_def Let_def e)
  next
    case False
    with assms B show ?thesis
      by (intro exI [of _ "if ok then countAnswer hosted (?e\<lparr>av_lim := b\<rparr>) else ?e\<lparr>av_lim := b\<rparr>"])
         (cases ok; auto simp: allow_def Let_def e)
  qed
  then obtain e' where st': "st' = ?st\<lparr>as_seen := (as_seen ?st)(key \<mapsto> e')\<rparr>" and e': "av_day e' = day"
      "\<And>h. answersOn h e' = usedOn st key h day + of_bool (h = hosted \<and> code = '''')" and
    granted: "code = '''' \<Longrightarrow> usedOn st key hosted day < dayLimit hosted l \<and> remaining = dayLimit hosted l - (usedOn st key hosted day + 1)"
    by blast
  show used: "usedOn st' k h day = usedOn st k h day + of_bool (k = key \<and> h = hosted \<and> code = '''')" for k h
    using usedOn_put [OF e'(1), of ?st key] by (simp add: st' e'(2) e)
  show "code = '''' \<Longrightarrow> usedOn st key hosted day < dayLimit hosted l \<and> remaining = dayLimit hosted l - usedOn st' key hosted day"
    using granted used by simp
  show "seenUpTo st day \<Longrightarrow> seenUpTo st' day"
    using sweepVisitors_used(2) [of st day now] e'(1) by (auto simp: st' seenUpTo_def)
  show "as_srv st' = as_srv st" "as_running st' = as_running st" by (simp_all add: st')
qed

text \<open>Any number of questions by any visitors, each with its visitor key, path, time and day.\<close>

type_synonym askCall = "string \<times> bool \<times> time \<times> int"

fun askCodes :: "'l rateOps \<Rightarrow> (string \<Rightarrow> Limits) \<Rightarrow> askCall list \<Rightarrow> 'l askState \<Rightarrow> string list" where
  "askCodes ro L [] st = []"
| "askCodes ro L ((key, hosted, now, day) # cs) st =
     (case allow ro key (L key) hosted now day st of (st', code, _) \<Rightarrow> code # askCodes ro L cs st')"

definition grants :: "'l rateOps \<Rightarrow> (string \<Rightarrow> Limits) \<Rightarrow> askCall list \<Rightarrow> 'l askState \<Rightarrow> string \<Rightarrow> bool \<Rightarrow> int \<Rightarrow> nat" where
  "grants ro L calls st key hosted day =
     length (filter (\<lambda>((k, h, _, d), code). k = key \<and> h = hosted \<and> d = day \<and> code = '''') (zip calls (askCodes ro L calls st)))"

lemma grants_Cons:
  assumes "allow ro k (L k) h now d st = (st', code, rem)"
  shows "grants ro L ((k, h, now, d) # cs) st key hosted day
    = of_bool (k = key \<and> h = hosted \<and> d = day \<and> code = '''') + grants ro L cs st' key hosted day"
  by (simp add: grants_def assms)

lemma grants_past:
  assumes "\<forall>c\<in>set cs. day < snd (snd (snd c))"
  shows "grants ro L cs st key hosted day = 0"
proof -
  have "filter (\<lambda>((k, h, _, d), code). k = key \<and> h = hosted \<and> d = day \<and> code = '''') (zip cs (askCodes ro L cs st)) = []"
    using assms by (auto simp: filter_empty_conv dest!: set_zip_leftD)
  then show ?thesis by (simp add: grants_def)
qed

lemma grants_bounded:
  assumes "sorted (map (\<lambda>c. snd (snd (snd c))) cs)" "\<forall>c\<in>set cs. seenUpTo st (snd (snd (snd c)))"
  shows "int (grants ro L cs st key hosted day) + usedOn st key hosted day \<le> max (dayLimit hosted (L key)) (usedOn st key hosted day)"
  using assms
proof (induction cs arbitrary: st)
  case (Cons c cs)
  obtain k h now d where c: "c = (k, h, now, d)" by (cases c) auto
  obtain st' code rem where A: "allow ro k (L k) h now d st = (st', code, rem)" by (metis prod_cases3)
  note E = allow_effect [OF A]
  note G = grants_Cons [where L = L, OF A, of cs key hosted day, folded c]
  have up: "seenUpTo st d" using Cons.prems(2) by (simp add: c)
  have sorted: "sorted (map (\<lambda>c. snd (snd (snd c))) cs)" "\<forall>c\<in>set cs. d \<le> snd (snd (snd c))"
    using Cons.prems(1) by (auto simp: c)
  then have "\<forall>c\<in>set cs. seenUpTo st' (snd (snd (snd c)))"
    using E(3) [OF up] unfolding seenUpTo_def by (meson order_trans)
  note IH = Cons.IH [OF sorted(1) this]
  consider "d = day" | "d < day" | "day < d" by linarith
  then show ?case
  proof cases
    case 1
    with IH G E(1) [of key hosted] E(2) show ?thesis
      by (cases "k = key \<and> h = hosted \<and> code = ''''") auto
  next
    case 2
    then have "usedOn st key hosted day = 0" "usedOn st' key hosted day = 0"
      using up E(3) [OF up] by (fastforce simp: usedOn_def seenUpTo_def split: option.splits)+
    with IH 2 show ?thesis by (simp add: G)
  next
    case 3
    with sorted(2) have "grants ro L (c # cs) st key hosted day = 0" by (intro grants_past) (auto simp: c)
    then show ?thesis by simp
  qed
qed (simp add: grants_def)

text \<open>
  C23. A visitor's daily allowance holds. However the questions of all visitors interleave, and however
  often old entries are swept, as long as the clock's day does not go back a visitor is granted at most
  the app's daily number of questions on each path, PC and hosted counted apart.
\<close>

theorem visitor_daily_cap:
  assumes "sorted (map (\<lambda>c. snd (snd (snd c))) calls)" and "as_seen st = Map.empty" and "0 \<le> dayLimit hosted (L visitor)"
  shows "int (grants ro L calls st visitor hosted day) \<le> dayLimit hosted (L visitor)"
proof -
  have "\<forall>c\<in>set calls. seenUpTo st (snd (snd (snd c)))" using assms(2) by (simp add: seenUpTo_def)
  from grants_bounded [OF assms(1) this, of ro L visitor hosted day] assms(2,3) show ?thesis by (simp add: usedOn_def)
qed

section \<open>Who gets an answer\<close>

text \<open>The conditions under which a question may cost anything, without the order of the checks.\<close>

definition appLimitsOk :: "'l askEnv \<Rightarrow> 'l askState \<Rightarrow> askReq \<Rightarrow> bool \<Rightarrow> App \<Rightarrow> bool" where
  "appLimitsOk env st r hosted app =
     (let re = ae_relay env; spec = app_Spec app; l = Limits_of spec in
      usedOn st (visitorKey re r (sp_ID spec)) hosted (re_day re) < dayLimit hosted l
      \<and> (KnowledgeURL spec = '''' \<or> ae_knowledge env (KnowledgeURL spec) \<noteq> None)
      \<and> snd (AllowAt (re_rate re) (re_now re) (Identity app) (PerMin l) (rs_lim (as_srv st)))
      \<and> as_running st (sp_ID spec) < MaxConcurrent l
      \<and> re_ok re ''usage'' \<and> UsageToday (re_day re) (Identity app) (rs_db (as_srv st)) < PerDay l)"

definition admitted :: "'l askEnv \<Rightarrow> 'l askState \<Rightarrow> askReq \<Rightarrow> App \<Rightarrow> string \<Rightarrow> string list \<Rightarrow> bool" where
  "admitted env st r app input hist =
     (let re = ae_relay env; online = pc_online (re_now re) (rs_db (as_srv st)) in
      ar_method r = ''POST''
      \<and> (case ar_body r of
           AskBody key input0 h \<Rightarrow> h = hist \<and> IsAppKey key \<and> validateAsk input0 hist (Limits_of (app_Spec app)) = Inr input
             \<and> LookupKey (re_ok re ''key'') (re_hash re) (re_parse re) (rs_apps (as_srv st)) key = Found app
         | _ \<Rightarrow> False)
      \<and> (online \<or> ae_hosted env \<noteq> None) \<and> (ar_origin r = '''' \<or> ar_origin r \<in> set (Origins (app_Spec app)))
      \<and> appLimitsOk env st r (\<not> online) app)"

definition knowledgeOf :: "'l askEnv \<Rightarrow> Spec \<Rightarrow> Index option" where
  "knowledgeOf env spec = (if KnowledgeURL spec \<noteq> '''' then ae_knowledge env (KnowledgeURL spec) else None)"

text \<open>An answer is a model's output cleaned, with who served it and what is left of the visitor's day.\<close>

definition cleanAnswer :: "'l askEnv \<Rightarrow> 'l askState \<Rightarrow> askReq \<Rightarrow> App \<Rightarrow> string \<Rightarrow> string list \<Rightarrow> bool \<Rightarrow> askOut \<Rightarrow> bool" where
  "cleanAnswer env st r app input hist hosted out =
     (let spec = app_Spec app; re = ae_relay env in
      \<forall>a. out = AskAnswer a \<longrightarrow> (\<exists>output. a = served (if hosted then ''hosted'' else ''pc'')
        (dayLimit hosted (Limits_of spec) - (usedOn st (visitorKey re r (sp_ID spec)) hosted (re_day re) + 1))
        (Clean output (sourcesFor env (knowledgeOf env spec) spec input hist) spec)))"

definition costless :: "'l askState \<Rightarrow> 'l askState \<Rightarrow> askOut \<Rightarrow> bool" where
  "costless st st' out = (rs_db (as_srv st') = rs_db (as_srv st) \<and> rs_apps (as_srv st') = rs_apps (as_srv st)
     \<and> as_running st' = as_running st \<and> (out = AskPreflight \<or> (\<exists>status code. out = AskErr status code)))"

lemma costless_refl: "costless st st (AskErr status code)" "costless st st AskPreflight"
  by (simp_all add: costless_def)

lemma askServe_answer:
  assumes "askServe env st offline spec identity remaining idx input hist = (st', AskAnswer a)"
  shows "\<exists>output. a = served (if offline = None then ''pc'' else ''hosted'') remaining (Clean output (sourcesFor env idx spec input hist) spec)"
  using assms
  by (cases offline)
     (auto simp: askServe_def Let_def answerHosted_def answerPC_def askOutcome_def
       split: if_splits option.splits sum.splits prod.splits bool.splits)

lemma acquire_release: "acquire i mx st = (st1, ok) \<Longrightarrow> as_srv st1 = as_srv st \<and> ok = (as_running st i < mx)
    \<and> as_running st1 = (if ok then (as_running st)(i := as_running st i + 1) else as_running st)"
  by (auto simp: acquire_def split: if_splits)

lemma askServe_refused:
  assumes "\<not> (re_ok (ae_relay env) ''usage'' \<and> UsageToday (re_day (ae_relay env)) identity (rs_db (as_srv st)) < PerDay (Limits_of spec))"
    and "askServe env st offline spec identity remaining idx input hist = (st', out)"
  shows "st' = st \<and> (\<exists>status code. out = AskErr status code)"
  using assms by (auto simp: askServe_def split: if_splits)

text \<open>A question past the limits runs inside its slot, with the tables as they were.\<close>

definition throughSlot :: "'l askEnv \<Rightarrow> 'l askState \<Rightarrow> askReq \<Rightarrow> (InferRequest \<Rightarrow> bool + string) option \<Rightarrow> App \<Rightarrow> string \<Rightarrow> string list \<Rightarrow>
    'l askState \<Rightarrow> askOut \<Rightarrow> 'l askState \<Rightarrow> 'l askState \<Rightarrow> int \<Rightarrow> bool" where
  "throughSlot env st r offline app input hist st' out st3 st4 rem =
     (let re = ae_relay env; spec = app_Spec app; l = Limits_of spec; hosted = (offline \<noteq> None);
          used = usedOn st (visitorKey re r (sp_ID spec)) hosted (re_day re)
      in rs_db (as_srv st3) = rs_db (as_srv st) \<and> rs_apps (as_srv st3) = rs_apps (as_srv st)
         \<and> as_running st3 = (as_running st)(sp_ID spec := as_running st (sp_ID spec) + 1)
         \<and> askServe env st3 offline spec (Identity app) rem (knowledgeOf env spec) input hist = (st4, out)
         \<and> st' = release (sp_ID spec) st4 \<and> rem = dayLimit hosted l - (used + 1) \<and> used < dayLimit hosted l
         \<and> (KnowledgeURL spec = '''' \<or> ae_knowledge env (KnowledgeURL spec) \<noteq> None)
         \<and> snd (AllowAt (re_rate re) (re_now re) (Identity app) (PerMin l) (rs_lim (as_srv st)))
         \<and> as_running st (sp_ID spec) < MaxConcurrent l)"

lemma askLimited_path:
  assumes A: "askLimited env st r offline app input hist = (st', out)"
  shows "costless st st' out \<or> (\<exists>st3 st4 rem. throughSlot env st r offline app input hist st' out st3 st4 rem)"
proof -
  let ?re = "ae_relay env" and ?spec = "app_Spec app" and ?hosted = "offline \<noteq> None"
  let ?l = "Limits_of ?spec" and ?key = "visitorKey ?re r (sp_ID ?spec)"
  obtain st1 code rem where V: "allow (re_rate ?re) ?key ?l ?hosted (re_now ?re) (re_day ?re) st = (st1, code, rem)"
    by (metis prod_cases3)
  note E = allow_effect [OF V]
  obtain b ok where L: "AllowAt (re_rate ?re) (re_now ?re) (Identity app) (PerMin ?l) (rs_lim (as_srv st1)) = (b, ok)" by fastforce
  let ?st2 = "st1\<lparr>as_srv := (as_srv st1)\<lparr>rs_lim := b\<rparr>\<rparr>"
  obtain st3 free where Q: "acquire (sp_ID ?spec) (MaxConcurrent ?l) ?st2 = (st3, free)" by fastforce
  note R = acquire_release [OF Q]
  obtain st4 out4 where S: "askServe env st3 offline ?spec (Identity app) rem (knowledgeOf env ?spec) input hist = (st4, out4)" by fastforce
  note A' = A [unfolded askLimited_def Let_def V prod.case L Q S [unfolded knowledgeOf_def]]
  let ?know = "KnowledgeURL ?spec = '''' \<or> ae_knowledge env (KnowledgeURL ?spec) \<noteq> None"
  consider "code \<noteq> ''''" | "code = ''''" "\<not> ?know" | "code = ''''" ?know "\<not> ok" | "code = ''''" ?know ok "\<not> free" | "code = ''''" ?know ok free
    by blast
  then show ?thesis
  proof cases
    case 1
    with A' E(4,5) have "costless st st' out" by (auto simp: costless_def)
    then show ?thesis ..
  next
    case 2
    with A' E(4,5) have "costless st st' out" by (auto simp: costless_def)
    then show ?thesis ..
  next
    case 3
    with A' E(4,5) have "costless st st' out" by (auto simp: costless_def split: if_splits)
    then show ?thesis ..
  next
    case 4
    with A' R E(4,5) have "costless st st' out" by (auto simp: costless_def split: if_splits)
    then show ?thesis ..
  next
    case 5
    with A' have end': "st' = release (sp_ID ?spec) st4" "out = out4" by (auto split: if_splits)
    have "rem = dayLimit ?hosted ?l - (usedOn st ?key ?hosted (re_day ?re) + 1)" "usedOn st ?key ?hosted (re_day ?re) < dayLimit ?hosted ?l"
      using 5 E(1) [of ?key ?hosted] E(2) by simp_all
    with 5 S R E(4,5) L have "throughSlot env st r offline app input hist st' out st3 st4 rem"
      by (simp add: throughSlot_def Let_def end')
    then show ?thesis by blast
  qed
qed

lemma askLimited_gate:
  assumes "askLimited env st r offline app input hist = (st', out)"
  shows "costless st st' out \<or> appLimitsOk env st r (offline \<noteq> None) app \<and> cleanAnswer env st r app input hist (offline \<noteq> None) out"
proof (cases "costless st st' out")
  case False
  with askLimited_path [OF assms] obtain st3 st4 rem where "throughSlot env st r offline app input hist st' out st3 st4 rem" by blast
  note T = this [unfolded throughSlot_def Let_def]
  then have S: "askServe env st3 offline (app_Spec app) (Identity app) rem (knowledgeOf env (app_Spec app)) input hist = (st4, out)" by blast
  have "re_ok (ae_relay env) ''usage'' \<and> UsageToday (re_day (ae_relay env)) (Identity app) (rs_db (as_srv st3)) < PerDay (Limits_of (app_Spec app))"
  proof (rule ccontr)
    assume "\<not> ?thesis"
    from askServe_refused [OF this S] T have "costless st st' out" by (auto simp: costless_def release_def)
    with False show False ..
  qed
  with T have "appLimitsOk env st r (offline \<noteq> None) app" by (simp add: appLimitsOk_def Let_def)
  moreover have "cleanAnswer env st r app input hist (offline \<noteq> None) out"
    using askServe_answer [of env st3 offline] T by (auto simp: cleanAnswer_def Let_def)
  ultimately show ?thesis by blast
qed blast


section \<open>How a question ends\<close>

lemma waitForResult_end:
  "waitForResult i identity ts fin st = (st', Inr res) \<Longrightarrow>
     GetResult (rs_db (as_srv st')) i identity = Some res \<and> (rr_Status res = QueueJobDone \<or> rr_Status res = QueueJobFailed)"
  by (induction i identity ts fin st rule: waitForResult.induct) (auto simp: Let_def split: option.splits if_splits)

fun othersOf :: "'l tick \<Rightarrow> 'l askState \<Rightarrow> 'l askState" where
  "othersOf (Poll f) = f"
| "othersOf (PollFailed f left) = f"

definition slotsKept :: "'l askEnv \<Rightarrow> bool" where
  "slotsKept env = (list_all (\<lambda>t. \<forall>s. as_running (othersOf t s) = as_running s) (ae_ticks env)
     \<and> (\<forall>s. as_running (fst (ae_end env) s) = as_running s))"

lemma waitForResult_slots:
  assumes "list_all (\<lambda>t. \<forall>s. as_running (othersOf t s) = as_running s) ts" "\<forall>s. as_running (fst fin s) = as_running s"
    and "waitForResult i identity ts fin st = (st', res)"
  shows "as_running st' = as_running st"
  using assms
proof (induction ts arbitrary: st)
  case Nil
  then show ?case by (cases fin) auto
next
  case (Cons t ts)
  have t: "as_running (othersOf t st) = as_running st" using Cons.prems(1) by simp
  show ?case
  proof (cases t)
    case (Poll f)
    let ?r = "GetResult (rs_db (as_srv (f st))) i identity"
    from Cons.prems(3) have "st' = f st \<or> waitForResult i identity ts fin (f st) = (st', res)"
      by (auto simp: Poll Let_def split: option.splits if_splits)
    with Cons.IH [of "f st"] Cons.prems(1,2) t show ?thesis by (auto simp: Poll)
  next
    case (PollFailed f left)
    with Cons.prems(3) t show ?thesis by auto
  qed
qed

definition jobSettled :: "'l askState \<Rightarrow> string \<Rightarrow> string \<Rightarrow> bool" where
  "jobSettled st i identity = (case GetResult (rs_db (as_srv st)) i identity of None \<Rightarrow> True | Some res \<Rightarrow> rr_Status res \<noteq> QueueJobPending)"

lemma GetResult_row: "GetResult db i identity = Some res \<Longrightarrow> \<exists>j\<in>set (jobs db). owned i identity j \<and> q_Status j = rr_Status res"
  by (auto simp: GetResult_def find_Some_iff)

lemma CancelPending_settles:
  "CancelPending db i identity = (db', c) \<Longrightarrow> GetResult db' i identity = Some res \<Longrightarrow> rr_Status res \<noteq> QueueJobPending"
  by (drule GetResult_row) (auto simp: CancelPending_def Let_def split: if_splits)

lemma setDB_simps [simp]: "rs_db (as_srv (setDB db st)) = db" "as_running (setDB db st) = as_running st"
  by (simp_all add: setDB_def)

lemma askOutcome_settled:
  assumes "askOutcome env st res sources spec identity remaining = (st', out)" "re_ok (ae_relay env) ''cancel''"
    and "\<And>r. res = Inr r \<Longrightarrow> jobSettled st (re_newID (ae_relay env)) identity"
  shows "jobSettled st' (re_newID (ae_relay env)) identity \<and> as_running st' = as_running st"
proof (cases res)
  case (Inl left)
  obtain db c where C: "CancelPending (rs_db (as_srv st)) (re_newID (ae_relay env)) identity = (db, c)" by fastforce
  with Inl assms(1,2) have "st' = setDB db st" by (auto simp: askOutcome_def split: if_splits)
  then show ?thesis using CancelPending_settles [OF C] by (auto simp: jobSettled_def split: option.splits)
next
  case (Inr r)
  with assms(1) have "st' = st" by (auto simp: askOutcome_def split: if_splits option.splits)
  with assms(3) [OF Inr] show ?thesis by simp
qed

lemma fresh_settled: "list_all (\<lambda>j. q_ID j \<noteq> i) (jobs (rs_db (as_srv st))) \<Longrightarrow> jobSettled st i identity"
  by (auto simp: jobSettled_def list_all_iff owned_def split: option.splits dest!: GetResult_row)

lemma askServe_settled:
  assumes "askServe env st offline spec identity remaining idx input hist = (st', out)"
    and "list_all (\<lambda>j. q_ID j \<noteq> re_newID (ae_relay env)) (jobs (rs_db (as_srv st)))"
    and "re_ok (ae_relay env) ''increment''" "re_ok (ae_relay env) ''cancel''" "slotsKept env"
  shows "jobSettled st' (re_newID (ae_relay env)) identity \<and> as_running st' = as_running st"
proof -
  let ?sources = "sourcesFor env idx spec input hist" and ?i = "re_newID (ae_relay env)"
  note F = fresh_settled [OF assms(2)]
  consider "st' = st"
    | model where "answerHosted env model st (inferFor spec ?sources input hist) ?sources spec identity remaining = (st', out)"
    | "answerPC env st (inferFor spec ?sources input hist) ?sources spec identity remaining = (st', out)"
    using assms(1) by (auto simp: askServe_def Let_def split: if_splits option.splits)
  then show ?thesis
  proof cases
    case 2
    then have "jobs (rs_db (as_srv st')) = jobs (rs_db (as_srv st)) \<and> as_running st' = as_running st"
      by (auto simp: answerHosted_def Let_def IncrementUsage_def split: if_splits sum.splits bool.splits)
    then show ?thesis using fresh_settled [of ?i st'] assms(2) by simp
  next
    case 3
    show ?thesis
    proof (cases "st' = st")
      case False
      with 3 obtain payload where P: "ae_encode env (inferFor spec ?sources input hist) = Some payload"
        by (auto simp: answerPC_def split: option.splits)
      obtain st1 ok where Q: "askEnqueue (ae_relay env) st (askJob (ae_relay env) spec identity payload) = (st1, ok)" by fastforce
      have q: "as_running st1 = as_running st" "\<not> ok \<Longrightarrow> st1 = st"
        using Q assms(3) by (auto simp: askEnqueue_def split: if_splits prod.splits option.splits)
      obtain st2 res where W: "waitForResult ?i identity (ae_ticks env) (ae_end env) st1 = (st2, res)" by fastforce
      have ok using 3 P Q False q by (cases ok) (auto simp: answerPC_def)
      with 3 P Q W have O: "askOutcome env st2 res ?sources spec identity remaining = (st', out)" by (simp add: answerPC_def)
      have "jobSettled st2 ?i identity" if "res = Inr r" for r
        using waitForResult_end [of ?i identity "ae_ticks env" "ae_end env" st1 st2 r] W that by (auto simp: jobSettled_def)
      with askOutcome_settled [OF O assms(4)] q waitForResult_slots [OF _ _ W] assms(5) show ?thesis by (simp add: slotsKept_def)
    qed (use F in simp)
  qed (use F in simp)
qed


section \<open>An app and its visitor\<close>

definition exampleAskEnv :: "nat askEnv" where
  "exampleAskEnv = \<lparr>ae_relay = exampleRelayEnv\<lparr>re_parse := (\<lambda>_. Some (ApplyDefaults exampleSpec)), re_newID := ''q''\<rparr>,
     ae_hosted = Some (\<lambda>_. Inr ''Hello.''), ae_knowledge = (\<lambda>_. None), ae_log = (\<lambda>x. x), ae_isLetter = (\<lambda>_. False),
     ae_encode = (\<lambda>_. Some ''{}''), ae_decode = (\<lambda>s. Some s), ae_ticks = [Poll (\<lambda>s. s)], ae_end = (\<lambda>s. s, False)\<rparr>"

definition exampleAskState :: "time option \<Rightarrow> nat askState" where
  "exampleAskState lastSeen = \<lparr>as_srv = exampleRelaySrv\<lparr>rs_db := exampleTable\<lparr>pcLast := lastSeen\<rparr>,
       rs_apps := \<lparr>apps_of = [\<lparr>ar_ID = ''site'', ar_Spec = ''{}'', ar_Enabled = True\<rparr>],
         keys_of = [\<lparr>kr_Hash = ''pk_a'', kr_App = ''site'', kr_Kind = ''pk'', kr_Prefix = ''pk_a'', kr_Revoked = False\<rparr>]\<rparr>\<rparr>,
     as_seen = Map.empty, as_lastSweep = 0, as_running = (\<lambda>_. 0)\<rparr>"

definition exampleAskReq :: askReq where
  "exampleAskReq = \<lparr>ar_method = ''POST'', ar_origin = ''https://a.io'', ar_realIP = '''', ar_remote = ''10.0.0.1'',
     ar_body = AskBody ''pk_a'' ''hi'' []\<rparr>"

lemma exampleAsk_found:
  "LookupKey (re_ok (ae_relay exampleAskEnv) ''key'') (re_hash (ae_relay exampleAskEnv)) (re_parse (ae_relay exampleAskEnv))
     (rs_apps (as_srv (exampleAskState t))) ''pk_a'' = Found \<lparr>app_Spec = ApplyDefaults exampleSpec, app_Kind = ''pk''\<rparr>"
  by (simp add: LookupKey_def liveKey_def exampleAskEnv_def exampleRelayEnv_def exampleAskState_def)

theorem visitor_daily_cap_witness:
  "int (grants exampleBucket (\<lambda>_. (Limits_of exampleSpec)\<lparr>VisitorPerDay := 1\<rparr>) [(''v'', False, 10, 3), (''w'', False, 20, 3), (''v'', False, 700000, 3)]
     (exampleAskState None) ''v'' False 3) \<le> 1"
  using visitor_daily_cap [of "[(''v'', False, 10, 3), (''w'', False, 20, 3), (''v'', False, 700000, 3)]" "exampleAskState None" False
      "\<lambda>_. (Limits_of exampleSpec)\<lparr>VisitorPerDay := 1\<rparr>" "''v''" exampleBucket 3]
  by (simp add: exampleAskState_def dayLimit_def)



end
