(* ===== verification/Llama_Client.thy ===== *)
theory Llama_Client
  imports Model_Types
begin

text \<open>
  The HTTP client of a \<open>llama-server\<close> subprocess, \<open>src/internal/backend/llamacpp/client.go\<close>: the wire
  requests it builds, how it reads blocking answers and event streams, and the errors it reports. The
  exchange with the subprocess is an argument: it could not be sent, it failed (with the context over or
  not), or it was answered with a status, the beginning of its body and the decoded body. A stream is
  the list of its lines and how reading ended. JSON decoding of a line is an argument. Rates and
  milliseconds (Go floats) are rationals.
\<close>

section \<open>Exchanges\<close>

datatype 'b exchange = Unsendable | DoFailed bool | Answer nat string "'b option"

record streamBody =
  st_lines :: "string list"
  st_scanErr :: bool
  st_ctxErr :: bool

fun contains :: "string \<Rightarrow> string \<Rightarrow> bool" where
  "contains [] sub = (sub = [])"
| "contains (c # cs) sub = (has_prefix (c # cs) sub \<or> contains cs sub)"

definition grammarErrorSignatures :: "string list" where
  "grammarErrorSignatures = [''json schema conversion failed'', ''unable to generate parser'', ''grammar'', ''json_schema'', ''response_format'']"

definition chatErrorFromStatus :: "nat \<Rightarrow> string \<Rightarrow> go_error" where
  "chatErrorFromStatus status raw =
     (let body = take 4096 raw in
      if status = 400 \<and> list_ex (contains (to_lower body)) grammarErrorSignatures then berr ''invalid_grammar''
      else berr ''model_load_failed'')"

text \<open>The common reading of an exchange: the body of an answer 200, or the coded error.\<close>

definition readReply :: "(nat \<Rightarrow> string \<Rightarrow> go_error) \<Rightarrow> 'b exchange \<Rightarrow> 'b res" where
  "readReply onStatus x =
     (case x of
        Unsendable \<Rightarrow> Inl (berr ''internal_error'')
      | DoFailed ctxDone \<Rightarrow> Inl (BackendError (if ctxDone then ''timeout'' else ''unavailable'') (Some (PlainError ''transport'')))
      | Answer status raw body \<Rightarrow>
          if status \<noteq> 200 then Inl (onStatus status raw)
          else (case body of None \<Rightarrow> Inl (BackendError ''internal_error'' (Some (PlainError ''decode''))) | Some b \<Rightarrow> Inr b))"

definition loadFailed :: "nat \<Rightarrow> string \<Rightarrow> go_error" where
  "loadFailed status raw = berr ''model_load_failed''"

definition tokRate :: "int \<Rightarrow> rat \<Rightarrow> rat" where
  "tokRate tokens predictedMS = (if predictedMS > 0 \<and> tokens > 0 then of_int tokens / (predictedMS / 1000) else 0)"

section \<open>The completion endpoint\<close>

definition defaultCompletionMaxTokens :: int where "defaultCompletionMaxTokens = 512"
definition defaultChatMaxTokens :: int where "defaultChatMaxTokens = 2048"

record completionReq =
  cr_Prompt :: string
  NPredict :: int
  cr_Temperature :: rat
  cr_Stream :: bool

record completionResp =
  cp_Content :: string
  TokensPredicted :: int
  PredictedMS :: rat

definition toCompletionReq :: "bool \<Rightarrow> Request \<Rightarrow> completionReq" where
  "toCompletionReq stream req = \<lparr>cr_Prompt = Prompt req,
     NPredict = (if MaxTokens req = 0 then defaultCompletionMaxTokens else MaxTokens req),
     cr_Temperature = Temperature req, cr_Stream = stream\<rparr>"

definition complete :: "completionResp exchange \<Rightarrow> Response res" where
  "complete x =
     (case readReply loadFailed x of
        Inl e \<Rightarrow> Inl e
      | Inr c \<Rightarrow> Inr (zeroResponse\<lparr>Output := cp_Content c, TokensGenerated := TokensPredicted c,
                   TokPerSecSample := tokRate (TokensPredicted c) (PredictedMS c)\<rparr>))"

record streamChunk =
  sc_Content :: string
  sc_Stop :: bool
  sc_TokensPredicted :: int
  sc_PredictedMS :: rat

definition zeroStreamChunk :: streamChunk where
  "zeroStreamChunk = \<lparr>sc_Content = '''', sc_Stop = False, sc_TokensPredicted = 0, sc_PredictedMS = 0\<rparr>"

text \<open>The payloads of an event stream, up to the end marker; other lines are skipped, and so is a payload
  that does not parse.\<close>

fun events :: "(string \<Rightarrow> 'c option) \<Rightarrow> string list \<Rightarrow> 'c list" where
  "events decode [] = []"
| "events decode (line # ls) =
     (if \<not> has_prefix line ''data: '' then events decode ls
      else let payload = trim_prefix line ''data: '' in
           if payload = ''[DONE]'' then []
           else (case decode payload of None \<Rightarrow> events decode ls | Some c \<Rightarrow> c # events decode ls))"

definition sawDone :: "string list \<Rightarrow> bool" where
  "sawDone ls = list_ex (\<lambda>l. has_prefix l ''data: '' \<and> trim_prefix l ''data: '' = ''[DONE]'') ls"

text \<open>An error of the scanner counts unless the loop was left at the end marker before it.\<close>

definition scanError :: "streamBody \<Rightarrow> go_error option" where
  "scanError b =
     (if st_scanErr b \<and> \<not> sawDone (st_lines b)
      then Some (BackendError (if st_ctxErr b then ''timeout'' else ''internal_error'') (Some (PlainError ''read'')))
      else None)"

type_synonym streamed = "chunk list \<times> Response \<times> go_error option"

definition completeStream :: "(string \<Rightarrow> streamChunk option) \<Rightarrow> streamBody exchange \<Rightarrow> streamed" where
  "completeStream decode x =
     (case readReply loadFailed x of
        Inl e \<Rightarrow> ([], zeroResponse, Some e)
      | Inr b \<Rightarrow>
          let cs = events decode (st_lines b);
              chunks = map (\<lambda>c. (ChunkContent, sc_Content c)) (filter (\<lambda>c. sc_Content c \<noteq> '''') cs);
              final = fold (\<lambda>c acc. if sc_Stop c then c else acc) cs zeroStreamChunk
          in case scanError b of
               Some e \<Rightarrow> (chunks, zeroResponse, Some e)
             | None \<Rightarrow> (chunks, zeroResponse\<lparr>TokensGenerated := sc_TokensPredicted final,
                         TokPerSecSample := tokRate (sc_TokensPredicted final) (sc_PredictedMS final)\<rparr>, None))"

section \<open>Chat requests\<close>

record wireToolCall =
  wt_ID :: string
  wt_Type :: string
  wt_Name :: string
  wt_Arguments :: string

datatype contentPart = TextPart string | ImagePart string

datatype msgContent = PlainContent string | PartsContent "contentPart list"

record chatMessage =
  ch_Role :: string
  ch_Content :: msgContent
  ch_ToolCalls :: "wireToolCall list"
  ch_ToolCallID :: string
  ch_Name :: string

definition bytes_of :: "string \<Rightarrow> nat list" where "bytes_of s = map of_char s"

definition sniffMIME :: "nat list \<Rightarrow> string" where
  "sniffMIME b =
     (if 3 \<le> length b \<and> take 3 b = [0xFF, 0xD8, 0xFF] then ''image/jpeg''
      else if 8 \<le> length b \<and> take 8 b = [0x89, 0x50, 0x4E, 0x47, 0x0D, 0x0A, 0x1A, 0x0A] then ''image/png''
      else if 12 \<le> length b \<and> take 4 b = bytes_of ''RIFF'' \<and> take 4 (drop 8 b) = bytes_of ''WEBP'' then ''image/webp''
      else if 6 \<le> length b \<and> (take 6 b = bytes_of ''GIF87a'' \<or> take 6 b = bytes_of ''GIF89a'') then ''image/gif''
      else ''image/jpeg'')"

text \<open>The standard base64 alphabet, with padding.\<close>

definition b64char :: "nat \<Rightarrow> char" where
  "b64char n = ''ABCDEFGHIJKLMNOPQRSTUVWXYZabcdefghijklmnopqrstuvwxyz0123456789+/'' ! (n mod 64)"

fun EncodeToString :: "nat list \<Rightarrow> string" where
  "EncodeToString (a # b # c # r) =
     b64char (a div 4) # b64char (a mod 4 * 16 + b div 16) # b64char (b mod 16 * 4 + c div 64) # b64char (c mod 64) # EncodeToString r"
| "EncodeToString [a, b] = [b64char (a div 4), b64char (a mod 4 * 16 + b div 16), b64char (b mod 16 * 4), CHR ''='']"
| "EncodeToString [a] = [b64char (a div 4), b64char (a mod 4 * 16), CHR ''='', CHR ''='']"
| "EncodeToString [] = []"

record wireTool =
  wo_Type :: string
  wo_Name :: string
  wo_Description :: string
  wo_Parameters :: string

record chatReq =
  cq_Model :: string
  cq_Messages :: "chatMessage list"
  cq_MaxTokens :: int
  cq_Temperature :: rat
  cq_Stream :: bool
  cq_ResponseFormat :: string
  cq_Tools :: "wireTool list"
  cq_EnableThinking :: "bool option"
  cq_IncludeUsage :: bool

definition templateKwargs :: "string \<Rightarrow> bool option" where
  "templateKwargs reasoning = (if reasoning = ''off'' then Some False else if reasoning = ''on'' then Some True else None)"

definition toWireTools :: "Tool list \<Rightarrow> wireTool list" where
  "toWireTools tools = map (\<lambda>t. \<lparr>wo_Type = tool_Type t, wo_Name = tool_Name t, wo_Description = tool_Description t,
     wo_Parameters = tool_Parameters t\<rparr>) tools"

definition fromWireToolCalls :: "wireToolCall list \<Rightarrow> ToolCall list" where
  "fromWireToolCalls calls = map (\<lambda>c. \<lparr>tc_ID = wt_ID c, tc_Name = wt_Name c, tc_Arguments = wt_Arguments c\<rparr>) calls"

definition wireMessage :: "Message \<Rightarrow> chatMessage" where
  "wireMessage m = \<lparr>ch_Role = Role m, ch_Content = PlainContent (Content m),
     ch_ToolCalls = map (\<lambda>c. \<lparr>wt_ID = tc_ID c, wt_Type = ''function'', wt_Name = tc_Name c, wt_Arguments = tc_Arguments c\<rparr>) (ToolCalls m),
     ch_ToolCallID = ToolCallID m, ch_Name = MsgName m\<rparr>"

text \<open>The position of the last user turn, from the end.\<close>

fun lastUser :: "chatMessage list \<Rightarrow> nat option" where
  "lastUser [] = None"
| "lastUser (m # ms) = (case lastUser ms of Some i \<Rightarrow> Some (Suc i) | None \<Rightarrow> if ch_Role m = ''user'' then Some 0 else None)"

fun textOf :: "msgContent \<Rightarrow> string" where
  "textOf (PlainContent s) = s"
| "textOf (PartsContent ps) = ''''"

definition dataURI :: "nat list \<Rightarrow> string" where
  "dataURI img = ''data:'' @ sniffMIME img @ '';base64,'' @ EncodeToString img"

definition toChatMessages :: "Request \<Rightarrow> chatMessage list" where
  "toChatMessages req =
     (let out = map wireMessage (Messages req) in
      if ImageData req = [] then out
      else case lastUser out of
             None \<Rightarrow> out
           | Some i \<Rightarrow> out[i := (out ! i)\<lparr>ch_Content := PartsContent [TextPart (textOf (ch_Content (out ! i))),
                                                                  ImagePart (dataURI (ImageData req))]\<rparr>])"

definition toChatReq :: "bool \<Rightarrow> Request \<Rightarrow> chatReq" where
  "toChatReq stream req = \<lparr>cq_Model = ''local'', cq_Messages = toChatMessages req,
     cq_MaxTokens = (if MaxTokens req = 0 then defaultChatMaxTokens else MaxTokens req),
     cq_Temperature = Temperature req, cq_Stream = stream, cq_ResponseFormat = ResponseFormat req,
     cq_Tools = toWireTools (Tools req), cq_EnableThinking = templateKwargs (Reasoning req), cq_IncludeUsage = stream\<rparr>"

section \<open>Chat answers\<close>

record chatChoice =
  cc_Content :: string
  cc_Reasoning :: string
  cc_ToolCalls :: "wireToolCall list"
  cc_FinishReason :: string

record chatResp =
  Choices :: "chatChoice list"
  CompletionTokens :: int
  cs_PredictedMS :: rat

definition chatComplete :: "chatResp exchange \<Rightarrow> Response res" where
  "chatComplete x =
     (case readReply chatErrorFromStatus x of
        Inl e \<Rightarrow> Inl e
      | Inr cr \<Rightarrow>
          (case Choices cr of
             [] \<Rightarrow> Inl (berr ''internal_error'')
           | c # _ \<Rightarrow> Inr (zeroResponse\<lparr>Output := cc_Content c, RespReasoning := cc_Reasoning c,
                         TokensGenerated := CompletionTokens cr,
                         TokPerSecSample := tokRate (CompletionTokens cr) (cs_PredictedMS cr),
                         RespToolCalls := fromWireToolCalls (cc_ToolCalls c), LengthLimited := (cc_FinishReason c = ''length'')\<rparr>)))"

record streamToolCallDelta =
  sd_Index :: int
  sd_ID :: string
  sd_Name :: string
  sd_Arguments :: string

record chatDelta =
  cd_Content :: string
  cd_Reasoning :: string
  cd_ToolCalls :: "streamToolCallDelta list"
  cd_FinishReason :: "string option"

record chatStreamChunk =
  ck_Choices :: "chatDelta list"
  ck_Tokens :: int
  ck_PredictedMS :: rat

section \<open>Collecting streamed tool calls\<close>

record accumulator =
  acc_order :: "int list"
  acc_byIdx :: "int \<rightharpoonup> ToolCall"

definition emptyCall :: ToolCall where "emptyCall = \<lparr>tc_ID = '''', tc_Name = '''', tc_Arguments = ''''\<rparr>"

definition emptyAcc :: accumulator where "emptyAcc = \<lparr>acc_order = [], acc_byIdx = Map.empty\<rparr>"

definition extendCall :: "streamToolCallDelta \<Rightarrow> ToolCall \<Rightarrow> ToolCall" where
  "extendCall d call = call\<lparr>tc_ID := (if sd_ID d \<noteq> '''' then sd_ID d else tc_ID call),
     tc_Name := (if sd_Name d \<noteq> '''' then sd_Name d else tc_Name call), tc_Arguments := tc_Arguments call @ sd_Arguments d\<rparr>"

definition acc_add :: "streamToolCallDelta \<Rightarrow> accumulator \<Rightarrow> accumulator" where
  "acc_add d a =
     (let (call, order) = (case acc_byIdx a (sd_Index d) of
                             Some c \<Rightarrow> (c, acc_order a)
                           | None \<Rightarrow> (emptyCall, acc_order a @ [sd_Index d]))
      in \<lparr>acc_order = order, acc_byIdx = (acc_byIdx a)(sd_Index d \<mapsto> extendCall d call)\<rparr>)"

definition acc_result :: "accumulator \<Rightarrow> ToolCall list" where
  "acc_result a = map (\<lambda>i. the (acc_byIdx a i)) (acc_order a)"

text \<open>One round of the scanning loop, and the answer once the stream has ended.\<close>

record chatStreamState =
  cs_chunks :: "chunk list"
  cs_tokens :: int
  cs_ms :: rat
  cs_reasoning :: string
  cs_tools :: accumulator
  cs_limited :: bool

definition chatStreamStep :: "chatStreamChunk \<Rightarrow> chatStreamState \<Rightarrow> chatStreamState" where
  "chatStreamStep k s =
     (let s1 = (case ck_Choices k of
                  [] \<Rightarrow> s
                | c # _ \<Rightarrow> s\<lparr>cs_chunks := cs_chunks s @ (if cd_Content c \<noteq> '''' then [(ChunkContent, cd_Content c)] else [])
                                       @ (if cd_Reasoning c \<noteq> '''' then [(ChunkReasoning, cd_Reasoning c)] else []),
                            cs_reasoning := cs_reasoning s @ cd_Reasoning c,
                            cs_tools := fold acc_add (cd_ToolCalls c) (cs_tools s),
                            cs_limited := (cs_limited s \<or> cd_FinishReason c = Some ''length'')\<rparr>)
      in s1\<lparr>cs_tokens := (if ck_Tokens k > 0 then ck_Tokens k else cs_tokens s1),
            cs_ms := (if ck_PredictedMS k > 0 then ck_PredictedMS k else cs_ms s1)\<rparr>)"

definition chatStreamStart :: chatStreamState where
  "chatStreamStart = \<lparr>cs_chunks = [], cs_tokens = 0, cs_ms = 0, cs_reasoning = '''', cs_tools = emptyAcc, cs_limited = False\<rparr>"

definition chatCompleteStream :: "(string \<Rightarrow> chatStreamChunk option) \<Rightarrow> streamBody exchange \<Rightarrow> streamed" where
  "chatCompleteStream decode x =
     (case readReply chatErrorFromStatus x of
        Inl e \<Rightarrow> ([], zeroResponse, Some e)
      | Inr b \<Rightarrow>
          let s = fold chatStreamStep (events decode (st_lines b)) chatStreamStart
          in case scanError b of
               Some e \<Rightarrow> (cs_chunks s, zeroResponse, Some e)
             | None \<Rightarrow> (cs_chunks s, zeroResponse\<lparr>RespReasoning := cs_reasoning s, TokensGenerated := cs_tokens s,
                         TokPerSecSample := tokRate (cs_tokens s) (cs_ms s), RespToolCalls := acc_result (cs_tools s),
                         LengthLimited := cs_limited s\<rparr>, None))"

section \<open>Introspection\<close>

definition tokenize :: "int list exchange \<Rightarrow> int res" where
  "tokenize x = (case x of
       DoFailed _ \<Rightarrow> Inl (BackendError ''unavailable'' (Some (PlainError ''transport'')))
     | _ \<Rightarrow> map_sum id (\<lambda>ts. int (length ts)) (readReply loadFailed x))"

record propsResp =
  pr_NCtx :: int
  pr_SlotNCtx :: int

definition props :: "propsResp exchange \<Rightarrow> int res" where
  "props x = (case x of
       DoFailed _ \<Rightarrow> Inl (BackendError ''unavailable'' (Some (PlainError ''transport'')))
     | _ \<Rightarrow> map_sum id (\<lambda>p. if pr_SlotNCtx p > 0 then pr_SlotNCtx p else pr_NCtx p) (readReply loadFailed x))"

section \<open>Tool calls\<close>

definition firstSeen :: "'a list \<Rightarrow> 'a list" where "firstSeen xs = rev (remdups (rev xs))"

definition lastNonempty :: "string list \<Rightarrow> string" where
  "lastNonempty xs = (case rev (filter (\<lambda>x. x \<noteq> '''') xs) of [] \<Rightarrow> '''' | x # _ \<Rightarrow> x)"

definition assembleOne :: "streamToolCallDelta list \<Rightarrow> ToolCall" where
  "assembleOne ds = \<lparr>tc_ID = lastNonempty (map sd_ID ds), tc_Name = lastNonempty (map sd_Name ds), tc_Arguments = concat (map sd_Arguments ds)\<rparr>"

definition fragmentsOf :: "int \<Rightarrow> streamToolCallDelta list \<Rightarrow> streamToolCallDelta list" where
  "fragmentsOf i ds = filter (\<lambda>d. sd_Index d = i) ds"

text \<open>What the fragments of a stream stand for: one call per index, in the order the indices first appear.\<close>

definition assemble :: "streamToolCallDelta list \<Rightarrow> ToolCall list" where
  "assemble ds = map (\<lambda>i. assembleOne (fragmentsOf i ds)) (firstSeen (map sd_Index ds))"

lemma firstSeen_snoc: "firstSeen (xs @ [x]) = (if x \<in> set xs then firstSeen xs else firstSeen xs @ [x])"
  by (simp add: firstSeen_def)

lemma set_firstSeen [simp]: "set (firstSeen xs) = set xs"
  by (simp add: firstSeen_def)

lemma lastNonempty_snoc: "lastNonempty (xs @ [x]) = (if x \<noteq> '''' then x else lastNonempty xs)"
  by (simp add: lastNonempty_def)

lemma assembleOne_snoc: "assembleOne (ds @ [d]) = extendCall d (assembleOne ds)"
  by (simp add: assembleOne_def extendCall_def lastNonempty_snoc)

lemma assembleOne_Nil: "assembleOne [] = emptyCall"
  by (simp add: assembleOne_def emptyCall_def lastNonempty_def)

lemma accumulated:
  "acc_order (fold acc_add ds emptyAcc) = firstSeen (map sd_Index ds)
   \<and> acc_byIdx (fold acc_add ds emptyAcc)
       = (\<lambda>i. if i \<in> set (map sd_Index ds) then Some (assembleOne (fragmentsOf i ds)) else None)"
proof (induction ds rule: rev_induct)
  case Nil
  then show ?case by (simp add: emptyAcc_def firstSeen_def)
next
  case (snoc d ds)
  let ?a = "fold acc_add ds emptyAcc" and ?seen = "sd_Index d \<in> set (map sd_Index ds)"
  have none: "fragmentsOf (sd_Index d) ds = []" if "\<not> ?seen"
    using that unfolding fragmentsOf_def filter_empty_conv set_map by (metis image_eqI)
  have "acc_add d ?a = \<lparr>acc_order = firstSeen (map sd_Index (ds @ [d])),
      acc_byIdx = (acc_byIdx ?a)(sd_Index d \<mapsto> extendCall d (assembleOne (fragmentsOf (sd_Index d) ds)))\<rparr>"
    using snoc.IH none by (cases ?seen) (simp_all add: acc_add_def [of d ?a] firstSeen_snoc assembleOne_Nil)
  moreover have "(acc_byIdx ?a)(sd_Index d \<mapsto> extendCall d (assembleOne (fragmentsOf (sd_Index d) ds)))
      = (\<lambda>i. if i \<in> set (map sd_Index (ds @ [d])) then Some (assembleOne (fragmentsOf i (ds @ [d]))) else None)"
    using snoc.IH by (auto simp: fun_eq_iff fragmentsOf_def assembleOne_snoc)
  ultimately show ?case by simp
qed

lemma acc_assembled: "acc_result (fold acc_add ds emptyAcc) = assemble ds"
  using accumulated [of ds] by (auto simp: acc_result_def assemble_def intro!: map_cong)

text \<open>
  Streamed tool calls are put back together. However the model interleaves the fragments of its
  calls, the collected calls are, in the order their indices first appear, one per index, each with the
  last identifier and name sent for it and with all its argument fragments in order.
\<close>

lemma tool_calls_assembled: "acc_result (fold acc_add ds emptyAcc) = assemble ds"
  by (rule acc_assembled)

section \<open>Streaming and blocking agree\<close>

definition deltasOf :: "chatStreamChunk list \<Rightarrow> chatDelta list" where
  "deltasOf ks = concat (map (\<lambda>k. take 1 (ck_Choices k)) ks)"

definition textWith :: "ChunkKind \<Rightarrow> chunk list \<Rightarrow> string" where
  "textWith kind chunks = concat (map snd (filter (\<lambda>c. fst c = kind) chunks))"

definition lastPositive :: "'a::linordered_idom list \<Rightarrow> 'a" where
  "lastPositive xs = fold (\<lambda>x acc. if x > 0 then x else acc) xs 0"

lemma lastPositive_snoc: "lastPositive (xs @ [x]) = (if x > 0 then x else lastPositive xs)"
  by (simp add: lastPositive_def)

lemma textWith_append [simp]: "textWith k (xs @ ys) = textWith k xs @ textWith k ys"
  by (simp add: textWith_def)

lemma chatStream_fold:
  fixes ks :: "chatStreamChunk list"
  defines "s \<equiv> fold chatStreamStep ks chatStreamStart"
  shows "textWith ChunkContent (cs_chunks s) = concat (map cd_Content (deltasOf ks))
   \<and> textWith ChunkReasoning (cs_chunks s) = concat (map cd_Reasoning (deltasOf ks))
   \<and> cs_reasoning s = concat (map cd_Reasoning (deltasOf ks))
   \<and> cs_tools s = fold acc_add (concat (map cd_ToolCalls (deltasOf ks))) emptyAcc
   \<and> cs_limited s = list_ex (\<lambda>d. cd_FinishReason d = Some ''length'') (deltasOf ks)
   \<and> cs_tokens s = lastPositive (map ck_Tokens ks) \<and> cs_ms s = lastPositive (map ck_PredictedMS ks)"
  unfolding s_def
proof (induction ks rule: rev_induct)
  case Nil
  then show ?case by (simp add: chatStreamStart_def deltasOf_def textWith_def lastPositive_def)
next
  case (snoc k ks)
  have d: "deltasOf (ks @ [k]) = deltasOf ks @ take 1 (ck_Choices k)" by (simp add: deltasOf_def)
  show ?case
  proof (cases "ck_Choices k")
    case Nil
    with snoc show ?thesis by (simp add: chatStreamStep_def d lastPositive_snoc)
  next
    case (Cons c cs)
    with snoc show ?thesis
      by (simp add: chatStreamStep_def d lastPositive_snoc textWith_def)
  qed
qed

text \<open>A stream that is a blocking answer cut into pieces.\<close>

definition fragmentation :: "chatStreamChunk list \<Rightarrow> chatResp \<Rightarrow> bool" where
  "fragmentation ks cr =
     (case Choices cr of
        [] \<Rightarrow> False
      | c # _ \<Rightarrow> concat (map cd_Content (deltasOf ks)) = cc_Content c
          \<and> concat (map cd_Reasoning (deltasOf ks)) = cc_Reasoning c
          \<and> assemble (concat (map cd_ToolCalls (deltasOf ks))) = fromWireToolCalls (cc_ToolCalls c)
          \<and> list_ex (\<lambda>d. cd_FinishReason d = Some ''length'') (deltasOf ks) = (cc_FinishReason c = ''length'')
          \<and> lastPositive (map ck_Tokens ks) = CompletionTokens cr \<and> lastPositive (map ck_PredictedMS ks) = cs_PredictedMS cr)"

text \<open>
  C32. Streaming changes how an answer arrives, not what it is. When the events of a stream are the
  pieces of an answer the model could have given at once, in any cutting, the two calls end alike: the
  content pieces shown to the user join up to the blocking call's output, the reasoning pieces to its
  reasoning, and the responses agree in reasoning, tool calls, token count, rate and truncation mark.
\<close>

theorem stream_matches_blocking:
  assumes "fragmentation (events decode (st_lines b)) cr" and "scanError b = None"
    and "chatCompleteStream decode (Answer 200 raw (Some b)) = (chunks, resp, err)"
  shows "err = None \<and> chatComplete (Answer 200 raw' (Some cr)) = Inr (resp\<lparr>Output := textWith ChunkContent chunks\<rparr>)
    \<and> textWith ChunkReasoning chunks = RespReasoning resp"
proof -
  let ?ks = "events decode (st_lines b)"
  obtain c cs where C: "Choices cr = c # cs" using assms(1) by (auto simp: fragmentation_def split: list.splits)
  note F = chatStream_fold [of ?ks]
  have tools: "acc_result (cs_tools (fold chatStreamStep ?ks chatStreamStart)) = fromWireToolCalls (cc_ToolCalls c)"
    using F assms(1) by (simp add: C fragmentation_def acc_assembled)
  show ?thesis using assms F tools
    by (auto simp: chatCompleteStream_def readReply_def Let_def chatComplete_def C fragmentation_def)
qed

section \<open>Errors\<close>

definition clientCodes :: "string set" where
  "clientCodes = {''internal_error'', ''timeout'', ''unavailable'', ''model_load_failed'', ''invalid_grammar''}"

lemma readReply_coded:
  assumes "readReply f x = Inl e" "\<And>s r. isBackendErr (f s r) \<in> Some ` clientCodes"
  shows "isBackendErr e \<in> Some ` clientCodes"
  using assms by (auto simp: readReply_def clientCodes_def split: exchange.splits if_splits option.splits)

lemma statusErrors_coded: "isBackendErr (chatErrorFromStatus s r) \<in> Some ` clientCodes" "isBackendErr (loadFailed s r) \<in> Some ` clientCodes"
  by (auto simp: chatErrorFromStatus_def loadFailed_def clientCodes_def Let_def)

lemma replies_coded:
  "readReply chatErrorFromStatus x = Inl e \<Longrightarrow> isBackendErr e \<in> Some ` clientCodes"
  "readReply loadFailed y = Inl e \<Longrightarrow> isBackendErr e \<in> Some ` clientCodes"
  by (erule readReply_coded, rule statusErrors_coded)+

lemma scanError_coded: "scanError b = Some e \<Longrightarrow> isBackendErr e \<in> Some ` clientCodes"
  by (auto simp: scanError_def clientCodes_def split: if_splits)

lemma unavailable_iff:
  "readReply chatErrorFromStatus x = Inl e \<Longrightarrow> isBackendErr e = Some ''unavailable'' \<longleftrightarrow> x = DoFailed False"
  "readReply loadFailed x = Inl e \<Longrightarrow> isBackendErr e = Some ''unavailable'' \<longleftrightarrow> x = DoFailed False"
  by (auto simp: readReply_def chatErrorFromStatus_def loadFailed_def Let_def split: exchange.splits if_splits option.splits)

lemma scanError_not_unavailable: "scanError b = Some e \<Longrightarrow> isBackendErr e \<noteq> Some ''unavailable''"
  by (auto simp: scanError_def split: if_splits)

text \<open>A call that could not reach the subprocess has shown the user nothing.\<close>

lemma stream_unavailable:
  "chatCompleteStream decode x = (chunks, resp, Some e) \<Longrightarrow> isBackendErr e = Some ''unavailable'' \<Longrightarrow> chunks = []"
  "completeStream decode' x = (chunks, resp, Some e) \<Longrightarrow> isBackendErr e = Some ''unavailable'' \<Longrightarrow> chunks = []"
  using scanError_not_unavailable
  by (auto simp: chatCompleteStream_def completeStream_def Let_def split: sum.splits option.splits)

lemma stream_coded:
  "chatCompleteStream decode x = (chunks, resp, Some e) \<Longrightarrow> isBackendErr e \<in> Some ` clientCodes"
  "completeStream decode' x = (chunks, resp, Some e) \<Longrightarrow> isBackendErr e \<in> Some ` clientCodes"
  using replies_coded scanError_coded
  by (auto simp: chatCompleteStream_def completeStream_def Let_def split: sum.splits option.splits)

lemma blocking_coded:
  "chatComplete x = Inl e \<Longrightarrow> isBackendErr e \<in> Some ` clientCodes"
  "complete y = Inl e \<Longrightarrow> isBackendErr e \<in> Some ` clientCodes"
  by (auto simp: chatComplete_def complete_def split: sum.splits list.splits intro: replies_coded) (simp add: clientCodes_def)

lemma tokenize_coded: "tokenize x = Inl e \<Longrightarrow> isBackendErr e \<in> Some ` clientCodes"
  by (auto simp: tokenize_def readReply_def loadFailed_def clientCodes_def split: exchange.splits if_splits option.splits)


section \<open>Images\<close>

lemma lastUser_Some:
  "lastUser ms = Some i \<Longrightarrow> i < length ms \<and> ch_Role (ms ! i) = ''user'' \<and> (\<forall>j. i < j \<and> j < length ms \<longrightarrow> ch_Role (ms ! j) \<noteq> ''user'')"
proof (induction ms arbitrary: i)
  case (Cons m ms)
  show ?case
  proof (cases "lastUser ms")
    case None
    then have n: "\<forall>x\<in>set ms. ch_Role x \<noteq> ''user''" by (induction ms) (auto split: option.splits if_splits)
    have "ch_Role ((m # ms) ! j) \<noteq> ''user''" if "0 < j" "j < length (m # ms)" for j
      using n that by (cases j) auto
    with None Cons.prems show ?thesis by (auto split: if_splits)
  next
    case (Some k)
    have "ch_Role ((m # ms) ! j) \<noteq> ''user''" if "Suc k < j" "j < length (m # ms)" for j
      using Cons.IH [OF Some] that by (cases j) auto
    with Some Cons.IH [OF Some] Cons.prems show ?thesis by auto
  qed
qed simp

lemma lastUser_None: "lastUser ms = None \<longleftrightarrow> (\<forall>m\<in>set ms. ch_Role m \<noteq> ''user'')"
  by (induction ms) (auto split: option.splits)

text \<open>
  An image is sent once, where it belongs. The wire messages are the request's messages one for
  one, with roles, texts and tool references kept; if there is an image and a user turn, exactly the
  last user turn carries it, after its own text; no other message changes.
\<close>

lemma image_on_last_user_turn:
  assumes "i < length (Messages req)"
  shows "length (toChatMessages req) = length (Messages req)
    \<and> (if ImageData req \<noteq> [] \<and> Role (Messages req ! i) = ''user'' \<and> (\<forall>j<length (Messages req). i < j \<longrightarrow> Role (Messages req ! j) \<noteq> ''user'')
       then toChatMessages req ! i = (wireMessage (Messages req ! i))
              \<lparr>ch_Content := PartsContent [TextPart (Content (Messages req ! i)), ImagePart (dataURI (ImageData req))]\<rparr>
       else toChatMessages req ! i = wireMessage (Messages req ! i))"
proof -
  let ?out = "map wireMessage (Messages req)"
  have role: "ch_Role (?out ! j) = Role (Messages req ! j)" if "j < length (Messages req)" for j
    using that by (simp add: wireMessage_def)
  show ?thesis
  proof (cases "lastUser ?out")
    case None
    then have "Role (Messages req ! i) \<noteq> ''user''" using assms by (auto simp: lastUser_None wireMessage_def)
    with None assms show ?thesis by (simp add: toChatMessages_def Let_def)
  next
    case (Some k)
    note K = lastUser_Some [OF Some]
    have "i = k \<longleftrightarrow> Role (Messages req ! i) = ''user'' \<and> (\<forall>j<length (Messages req). i < j \<longrightarrow> Role (Messages req ! j) \<noteq> ''user'')"
      using K role assms by (metis length_map linorder_neqE_nat)
    with Some K assms show ?thesis by (auto simp: toChatMessages_def Let_def nth_list_update wireMessage_def)
  qed
qed

section \<open>A concrete stream\<close>

definition exampleChunk :: "string \<Rightarrow> string \<Rightarrow> int \<Rightarrow> chatStreamChunk" where
  "exampleChunk c r n = \<lparr>ck_Choices = [\<lparr>cd_Content = c, cd_Reasoning = r, cd_ToolCalls = [], cd_FinishReason = None\<rparr>], ck_Tokens = n, ck_PredictedMS = 0\<rparr>"

definition exampleDecode :: "string \<Rightarrow> chatStreamChunk option" where
  "exampleDecode p = (if p = ''a'' then Some (exampleChunk '''' ''hm'' 0) else if p = ''b'' then Some (exampleChunk ''Hel'' '''' 0)
     else if p = ''c'' then Some (exampleChunk ''lo'' '''' 3) else None)"

definition exampleBody :: streamBody where
  "exampleBody = \<lparr>st_lines = [''data: a'', '''', ''data: b'', ''data: ?'', ''data: c'', ''data: [DONE]''], st_scanErr = False, st_ctxErr = False\<rparr>"

definition exampleAnswer :: chatResp where
  "exampleAnswer = \<lparr>Choices = [\<lparr>cc_Content = ''Hello'', cc_Reasoning = ''hm'', cc_ToolCalls = [], cc_FinishReason = ''stop''\<rparr>],
     CompletionTokens = 3, cs_PredictedMS = 0\<rparr>"

lemma exampleBody_events:
  "events exampleDecode (st_lines exampleBody) = [exampleChunk '''' ''hm'' 0, exampleChunk ''Hel'' '''' 0, exampleChunk ''lo'' '''' 3]"
  by (simp add: exampleBody_def exampleDecode_def has_prefix_def trim_prefix_def)

theorem stream_matches_blocking_witness:
  "fst (chatCompleteStream exampleDecode (Answer 200 '''' (Some exampleBody))) = [(ChunkReasoning, ''hm''), (ChunkContent, ''Hel''), (ChunkContent, ''lo'')]
   \<and> (\<exists>r. chatComplete (Answer 200 '''' (Some exampleAnswer)) = Inr r \<and> Output r = ''Hello'')"
proof -
  obtain chunks resp err where S: "chatCompleteStream exampleDecode (Answer 200 '''' (Some exampleBody)) = (chunks, resp, err)"
    by (metis prod_cases3)
  have f: "fragmentation (events exampleDecode (st_lines exampleBody)) exampleAnswer"
    unfolding exampleBody_events
    by (simp add: fragmentation_def exampleAnswer_def deltasOf_def exampleChunk_def lastPositive_def assemble_def firstSeen_def fromWireToolCalls_def)
  have e: "scanError exampleBody = None" by (simp add: scanError_def exampleBody_def)
  have c: "chunks = [(ChunkReasoning, ''hm''), (ChunkContent, ''Hel''), (ChunkContent, ''lo'')]"
    using S exampleBody_events e
    by (auto simp: chatCompleteStream_def readReply_def Let_def chatStreamStep_def chatStreamStart_def exampleChunk_def)
  from stream_matches_blocking [OF f e S, of "''''"] S c show ?thesis by (simp add: textWith_def)
qed


end
