(* ===== verification/Llama_Process.thy ===== *)
theory Llama_Process
  imports Model_Types
begin

text \<open>
  The \<open>llama-server\<close> subprocess, \<open>src/internal/backend/llamacpp/process.go\<close>: its command line, the start
  with its health poll, the stop that verifies the process is gone, and liveness. The operating system
  and the subprocess's HTTP endpoints are calls on the world. Output forwarding is not modelled.
\<close>

section \<open>The process\<close>

text \<open>\<open>p_pid\<close> is the spawned process, \<open>p_jobOpen\<close> a job object still to be closed, \<open>p_waited\<close> that the
  exit status has been collected.\<close>

record process =
  p_exe :: string
  p_modelPath :: string
  p_mmprojPath :: string
  p_tier :: string
  p_gpuLayers :: int
  p_port :: int
  p_parallel :: int
  p_noJobObject :: bool
  p_pid :: "nat option"
  p_jobOpen :: bool
  p_stopped :: bool
  p_waited :: bool

record 'w osEnv =
  getenv :: "string \<Rightarrow> string"
  Atoi :: "string \<Rightarrow> int option"
  os_spawn :: "string \<Rightarrow> string list \<Rightarrow> ('w, nat option) call"
  os_assignJob :: "nat \<Rightarrow> ('w, bool) call"
  os_closeJob :: "nat \<Rightarrow> ('w, unit) call"
  os_graceful :: "nat \<Rightarrow> ('w, unit) call"
  os_kill :: "nat \<Rightarrow> ('w, unit) call"
  os_cancelRun :: "('w, unit) call"
  os_wait :: "nat \<Rightarrow> ('w, bool) call"
  os_pidAlive :: "nat \<Rightarrow> ('w, bool) call"
  os_get :: "string \<Rightarrow> ('w, nat option) call"
  os_ctxErr :: "'w \<Rightarrow> bool"

definition ctxSize :: int where "ctxSize = 4096"

definition ctxSizeValue :: "'w osEnv \<Rightarrow> int" where
  "ctxSizeValue env =
     (let v = getenv env ''HIS_CTX_SIZE'' in
      if v \<noteq> '''' then (case Atoi env v of Some n \<Rightarrow> if n > 0 then n else ctxSize | None \<Rightarrow> ctxSize) else ctxSize)"

definition newProcess :: "string \<Rightarrow> string \<Rightarrow> string \<Rightarrow> string \<Rightarrow> int \<Rightarrow> int \<Rightarrow> int \<Rightarrow> process" where
  "newProcess exe modelPath mmprojPath tier gpuLayers port parallel =
     \<lparr>p_exe = exe, p_modelPath = modelPath, p_mmprojPath = mmprojPath, p_tier = tier, p_gpuLayers = gpuLayers, p_port = port,
      p_parallel = (if parallel < 1 then 1 else parallel), p_noJobObject = False, p_pid = None, p_jobOpen = False,
      p_stopped = False, p_waited = False\<rparr>"

definition spawnArgs :: "'w osEnv \<Rightarrow> process \<Rightarrow> string list" where
  "spawnArgs env p =
     [''--model'', p_modelPath p, ''--n-gpu-layers'', Itoa (p_gpuLayers p), ''--port'', Itoa (p_port p),
      ''--ctx-size'', Itoa (ctxSizeValue env), ''--parallel'', Itoa (p_parallel p), ''--cont-batching'', ''--no-mmap'',
      ''--flash-attn'', ''off'']
     @ (if p_mmprojPath p \<noteq> '''' then [''--mmproj'', p_mmprojPath p] else [])"

definition baseURLOf :: "int \<Rightarrow> string" where "baseURLOf port = ''http://127.0.0.1:'' @ Itoa port"

text \<open>A call without a result that matters.\<close>

definition run_call :: "('w, unit) call \<Rightarrow> 'w sys \<Rightarrow> 'w sys" where "run_call f s = fst (do_call f s)"

definition closeJob :: "'w osEnv \<Rightarrow> process \<Rightarrow> 'w sys \<Rightarrow> process \<times> 'w sys" where
  "closeJob env p s = (case p_pid p of
       Some pid \<Rightarrow> if p_jobOpen p then (p\<lparr>p_jobOpen := False\<rparr>, run_call (os_closeJob env pid) s) else (p, s)
     | None \<Rightarrow> (p, s))"

definition kill :: "'w osEnv \<Rightarrow> process \<Rightarrow> 'w sys \<Rightarrow> process \<times> 'w sys" where
  "kill env p s =
     (let p1 = p\<lparr>p_stopped := True\<rparr>;
          s1 = (case p_pid p of Some pid \<Rightarrow> run_call (os_kill env pid) s | None \<Rightarrow> s);
          (p2, s2) = closeJob env p1 s1
      in (p2, run_call (os_cancelRun env) s2))"

section \<open>Starting\<close>

definition propsReady :: "'w osEnv \<Rightarrow> string \<Rightarrow> 'w sys \<Rightarrow> 'w sys \<times> bool" where
  "propsReady env url s = (case do_call (os_get env url) s of (s1, r) \<Rightarrow> (s1, r = Some 200))"

definition healthPoll :: int where "healthPoll = 500"
definition startDeadline :: int where "startDeadline = 120000"

datatype startEnd = Healthy | StartCancelled | StartTimedOut

text \<open>The health poll: \<open>streak\<close> counts the healthy answers in a row. It ends because every round sleeps.\<close>

function healthLoop :: "'w osEnv \<Rightarrow> string \<Rightarrow> time \<Rightarrow> nat \<Rightarrow> 'w sys \<Rightarrow> 'w sys \<times> startEnd" where
  "healthLoop env base deadline streak s =
     (if \<not> clock s < deadline then (s, StartTimedOut)
      else if os_ctxErr env (ext s) then (s, StartCancelled)
      else case do_call (os_get env (base @ ''/health'')) s of
             (s1, r) \<Rightarrow>
               if r = Some 200 then
                 (if streak + 1 \<ge> 2 then
                    (case propsReady env (base @ ''/props'') s1 of
                       (s2, True) \<Rightarrow> (s2, Healthy)
                     | (s2, False) \<Rightarrow> healthLoop env base deadline (streak + 1) (s2\<lparr>clock := clock s2 + healthPoll\<rparr>))
                  else healthLoop env base deadline (streak + 1) (s1\<lparr>clock := clock s1 + healthPoll\<rparr>))
               else healthLoop env base deadline 0 (s1\<lparr>clock := clock s1 + healthPoll\<rparr>))"
  by pat_completeness auto

lemma propsReady_clock: "propsReady env url s = (s1, b) \<Longrightarrow> clock s \<le> clock s1"
  by (auto simp: propsReady_def split: prod.splits dest: do_call_clock)

termination healthLoop
  by (relation "measure (\<lambda>(env, base, deadline, streak, s). nat (deadline - clock s))")
     (auto simp: healthPoll_def dest!: do_call_clock [OF sym] propsReady_clock [OF sym])

declare healthLoop.simps [simp del]

definition Start :: "'w osEnv \<Rightarrow> process \<Rightarrow> 'w sys \<Rightarrow> process \<times> 'w sys \<times> go_error option" where
  "Start env p s =
     (case do_call (os_spawn env (p_exe p) (spawnArgs env p)) s of
        (s1, None) \<Rightarrow> (p, run_call (os_cancelRun env) s1, Some (PlainError ''spawn failed''))
      | (s1, Some pid) \<Rightarrow>
          let (s2, assigned) = do_call (os_assignJob env pid) s1;
              p1 = p\<lparr>p_pid := Some pid, p_noJobObject := \<not> assigned, p_jobOpen := assigned\<rparr>
          in case healthLoop env (baseURLOf (p_port p)) (clock s2 + startDeadline) 0 s2 of
               (s3, Healthy) \<Rightarrow> (p1, s3, None)
             | (s3, StartCancelled) \<Rightarrow> (case kill env p1 s3 of (p2, s4) \<Rightarrow> (p2, s4, Some (PlainError ''context'')))
             | (s3, StartTimedOut) \<Rightarrow> (case kill env p1 s3 of (p2, s4) \<Rightarrow> (p2, s4, Some (PlainError ''not healthy''))))"

section \<open>Stopping\<close>

definition gonePoll :: int where "gonePoll = 100"

function waitGoneLoop :: "'w osEnv \<Rightarrow> nat \<Rightarrow> time \<Rightarrow> 'w sys \<Rightarrow> 'w sys \<times> bool" where
  "waitGoneLoop env pid deadline s =
     (case do_call (os_pidAlive env pid) s of
        (s1, alive) \<Rightarrow>
          if \<not> alive then (s1, True)
          else if clock s1 > deadline then (s1, False)
          else waitGoneLoop env pid deadline (s1\<lparr>clock := clock s1 + gonePoll\<rparr>))"
  by pat_completeness auto
termination
  by (relation "measure (\<lambda>(env, pid, deadline, s). nat (deadline + 1 - clock s))")
     (auto simp: gonePoll_def dest!: do_call_clock [OF sym])

declare waitGoneLoop.simps [simp del]

definition waitGone :: "'w osEnv \<Rightarrow> nat \<Rightarrow> int \<Rightarrow> 'w sys \<Rightarrow> 'w sys \<times> bool" where
  "waitGone env pid d s = waitGoneLoop env pid (clock s + d) s"

text \<open>Without a process there is no run left to cancel. \<open>os_wait\<close> answers whether the exit came before the end of the stop's context.\<close>

definition Stop :: "'w osEnv \<Rightarrow> process \<Rightarrow> 'w sys \<Rightarrow> process \<times> 'w sys \<times> go_error option" where
  "Stop env p0 s =
     (let p = p0\<lparr>p_stopped := True\<rparr> in
      case p_pid p of
        None \<Rightarrow> (p, s, None)
      | Some pid \<Rightarrow>
          let s1 = run_call (os_graceful env pid) s;
              (s2, exited) = do_call (os_wait env pid) s1;
              (p3, s3) = (if exited then closeJob env (p\<lparr>p_waited := True\<rparr>) s2 else kill env p s2);
              (s4, gone) = waitGone env pid 2000 s3
          in if gone then (p3, run_call (os_cancelRun env) s4, None)
             else let s5 = run_call (os_kill env pid) s4;
                      (p6, s6) = closeJob env p3 s5;
                      (s7, gone2) = waitGone env pid 500 s6
                  in (p6, run_call (os_cancelRun env) s7, if gone2 then None else Some (PlainError ''survived stop+kill'')))"

definition PID :: "process \<Rightarrow> nat" where "PID p = (case p_pid p of None \<Rightarrow> 0 | Some pid \<Rightarrow> pid)"

definition Alive :: "'w osEnv \<Rightarrow> process \<Rightarrow> 'w sys \<Rightarrow> 'w sys \<times> bool" where
  "Alive env p s =
     (case p_pid p of
        None \<Rightarrow> (s, False)
      | Some pid \<Rightarrow> if p_stopped p \<or> p_waited p then (s, False) else do_call (os_pidAlive env pid) s)"

section \<open>A start that reports success\<close>

text \<open>After \<open>s\<close>, with \<open>streak\<close> healthy answers behind it, the poll went well and ended in \<open>s'\<close>.\<close>

definition servedAt :: "'w osEnv \<Rightarrow> string \<Rightarrow> nat \<Rightarrow> 'w sys \<Rightarrow> 'w sys \<Rightarrow> bool" where
  "servedAt env base streak s s' = (\<exists>b b1. clock s \<le> clock b
    \<and> do_call (os_get env (base @ ''/health'')) b = (b1, Some 200)
    \<and> do_call (os_get env (base @ ''/props'')) b1 = (s', Some 200)
    \<and> (streak = 0 \<longrightarrow> (\<exists>a a1. clock s \<le> clock a \<and> do_call (os_get env (base @ ''/health'')) a = (a1, Some 200) \<and> clock a1 + healthPoll \<le> clock b)))"

lemma servedAt_earlier:
  assumes "servedAt env base k' s1 s'" "clock s \<le> clock s1"
    and "k = 0 \<Longrightarrow> k' = 0 \<or> (\<exists>a a1. clock s \<le> clock a \<and> do_call (os_get env (base @ ''/health'')) a = (a1, Some 200) \<and> clock a1 + healthPoll \<le> clock s1)"
  shows "servedAt env base k s s'"
proof -
  from assms(1) obtain b b1 where B: "clock s1 \<le> clock b" "do_call (os_get env (base @ ''/health'')) b = (b1, Some 200)"
    "do_call (os_get env (base @ ''/props'')) b1 = (s', Some 200)"
    and z: "k' = 0 \<Longrightarrow> \<exists>a a1. clock s1 \<le> clock a \<and> do_call (os_get env (base @ ''/health'')) a = (a1, Some 200) \<and> clock a1 + healthPoll \<le> clock b"
    unfolding servedAt_def by blast
  have "\<exists>a a1. clock s \<le> clock a \<and> do_call (os_get env (base @ ''/health'')) a = (a1, Some 200) \<and> clock a1 + healthPoll \<le> clock b" if "k = 0"
    using assms(3) [OF that] z B(1) assms(2) by (meson order_trans)
  with B assms(2) show ?thesis unfolding servedAt_def by (intro exI [of _ b] exI [of _ b1]) auto
qed

lemma healthLoop_healthy:
  assumes "healthLoop env base deadline streak s = (s', Healthy)"
  shows "servedAt env base streak s s'"
  using assms
proof (induction env base deadline streak s rule: healthLoop.induct)
  case (1 env base deadline streak s)
  from 1(4) have run: "clock s < deadline" "\<not> os_ctxErr env (ext s)"
    by (subst (asm) healthLoop.simps, auto split: if_splits)+
  obtain s1 r where d: "do_call (os_get env (base @ ''/health'')) s = (s1, r)" by fastforce
  note c1 = do_call_clock [OF d]
  note step = 1(4) [unfolded healthLoop.simps [of env base deadline streak s] d prod.case]
  show ?case
  proof (cases "r = Some 200")
    case False
    with step run have rec: "healthLoop env base deadline 0 (s1\<lparr>clock := clock s1 + healthPoll\<rparr>) = (s', Healthy)" by simp
    show ?thesis by (rule servedAt_earlier [OF 1(3) [OF _ run(2) d [symmetric] False rec]]) (use run(1) c1 in \<open>auto simp: healthPoll_def\<close>)
  next
    case ok: True
    show ?thesis
    proof (cases "streak = 0")
      case True
      with step run ok have rec: "healthLoop env base deadline (streak + 1) (s1\<lparr>clock := clock s1 + healthPoll\<rparr>) = (s', Healthy)" by simp
      show ?thesis
      proof (rule servedAt_earlier [OF 1(2) [OF _ run(2) d [symmetric] ok _ rec]])
        show "streak + 1 = 0 \<or> (\<exists>a a1. clock s \<le> clock a \<and> do_call (os_get env (base @ ''/health'')) a = (a1, Some 200)
            \<and> clock a1 + healthPoll \<le> clock (s1\<lparr>clock := clock s1 + healthPoll\<rparr>))"
          using d ok by (intro disjI2 exI [of _ s] exI [of _ s1]) simp
      qed (use True run(1) c1 in \<open>auto simp: healthPoll_def\<close>)
    next
      case False
      obtain s2 g where P: "propsReady env (base @ ''/props'') s1 = (s2, g)" by fastforce
      show ?thesis
      proof (cases g)
        case True
        with step run ok False P have "s2 = s'" by simp
        with P True have "do_call (os_get env (base @ ''/props'')) s1 = (s', Some 200)"
          by (auto simp: propsReady_def split: prod.splits)
        with d ok False show ?thesis unfolding servedAt_def by (intro exI [of _ s] exI [of _ s1]) simp
      next
        case g: False
        with step run ok False P have rec: "healthLoop env base deadline (streak + 1) (s2\<lparr>clock := clock s2 + healthPoll\<rparr>) = (s', Healthy)" by simp
        show ?thesis
          by (rule servedAt_earlier [OF 1(1) [OF _ run(2) d [symmetric] ok _ P [symmetric] _ rec]])
             (use g False run(1) c1 propsReady_clock [OF P] in \<open>auto simp: healthPoll_def\<close>)
      qed
    qed
  qed
qed

lemma closeJob_frame: "closeJob env p s = (p', s') \<Longrightarrow> p_pid p' = p_pid p \<and> p_stopped p' = p_stopped p \<and> (p_pid p \<noteq> None \<longrightarrow> \<not> p_jobOpen p')"
  by (auto simp: closeJob_def split: option.splits if_splits)

lemma kill_frame: "kill env p s = (p', s') \<Longrightarrow> p_pid p' = p_pid p \<and> p_stopped p' \<and> (p_pid p \<noteq> None \<longrightarrow> \<not> p_jobOpen p')"
  by (auto simp: kill_def Let_def split: prod.splits dest: closeJob_frame)

text \<open>
  A start that succeeds leaves a server that serves. \<open>Start\<close> returns without an error only after two
  healthy answers at least a poll interval apart, followed by an answer 200 from
  \<open>/props\<close>, which is the last thing that happened; a start that fails leaves no process running
  unattended: what it spawned has been killed and its job object closed.
\<close>

lemma start_means_serving:
  assumes "Start env p s = (p', s', err)"
  shows "(err = None \<longrightarrow> (\<exists>pid a a1 b b1. p_pid p' = Some pid
       \<and> do_call (os_get env (baseURLOf (p_port p) @ ''/health'')) a = (a1, Some 200)
       \<and> clock a1 + healthPoll \<le> clock b
       \<and> do_call (os_get env (baseURLOf (p_port p) @ ''/health'')) b = (b1, Some 200)
       \<and> do_call (os_get env (baseURLOf (p_port p) @ ''/props'')) b1 = (s', Some 200)))
    \<and> (err \<noteq> None \<and> p_pid p = None \<and> p_pid p' \<noteq> None \<longrightarrow> p_stopped p' \<and> \<not> p_jobOpen p')"
proof -
  obtain s1 po where sp: "do_call (os_spawn env (p_exe p) (spawnArgs env p)) s = (s1, po)" by fastforce
  show ?thesis
  proof (cases po)
    case None
    with sp assms show ?thesis by (auto simp: Start_def)
  next
    case (Some pid)
    obtain s2 asg where j: "do_call (os_assignJob env pid) s1 = (s2, asg)" by fastforce
    define p1 where "p1 = p\<lparr>p_pid := Some pid, p_noJobObject := \<not> asg, p_jobOpen := asg\<rparr>"
    obtain s3 e where h: "healthLoop env (baseURLOf (p_port p)) (clock s2 + startDeadline) 0 s2 = (s3, e)" by fastforce
    note S = assms [unfolded Start_def sp Some prod.case option.case j Let_def p1_def [symmetric] h]
    obtain p4 s4 where k: "kill env p1 s3 = (p4, s4)" by fastforce
    show ?thesis
    proof (cases e)
      case Healthy
      from healthLoop_healthy [OF h [unfolded Healthy]] S Healthy show ?thesis by (auto simp: p1_def servedAt_def)
    qed (use S k kill_frame [OF k] in \<open>auto simp: p1_def\<close>)
  qed
qed

section \<open>A stop that reports success\<close>

text \<open>What is relied on of the operating system: the liveness probe tells the truth about the world it
  leaves, and cancelling the run context does not bring a process back.\<close>

definition truthfulProbe :: "'w osEnv \<Rightarrow> (nat \<Rightarrow> 'w \<Rightarrow> bool) \<Rightarrow> bool" where
  "truthfulProbe env dead = ((\<forall>pid w. case os_pidAlive env pid w of (w', _, alive) \<Rightarrow> alive \<longleftrightarrow> \<not> dead pid w')
     \<and> (\<forall>pid w. dead pid w \<longleftrightarrow> dead pid (fst (os_cancelRun env w))))"

lemma run_call_ext: "ext (run_call f s) = fst (f (ext s))"
  by (simp add: run_call_def do_call_def split: prod.split)

lemma waitGoneLoop_truth:
  "truthfulProbe env dead \<Longrightarrow> waitGoneLoop env pid deadline s = (s', gone) \<Longrightarrow> gone \<longleftrightarrow> dead pid (ext s')"
proof (induction env pid deadline s rule: waitGoneLoop.induct)
  case (1 env pid deadline s)
  obtain s1 alive where d: "do_call (os_pidAlive env pid) s = (s1, alive)" by fastforce
  have "case os_pidAlive env pid (ext s) of (w', _, alive) \<Rightarrow> alive \<longleftrightarrow> \<not> dead pid w'"
    by (rule 1(2) [unfolded truthfulProbe_def, THEN conjunct1, THEN spec, THEN spec])
  then have t: "alive \<longleftrightarrow> \<not> dead pid (ext s1)" using d by (auto simp: do_call_def split: prod.splits)
  from 1(3) d t 1(1) [OF d [symmetric] _ _ 1(2)] show ?case
    by (subst (asm) waitGoneLoop.simps) (auto split: if_splits)
qed

text \<open>
  A stop that succeeds is a death. \<open>Stop\<close> returns without an error exactly when the process is really
  gone at its end, whether it left by itself, was killed when the grace period ran out, or only after
  the second, direct kill; in either case the handle no longer counts as alive and, with a job object,
  that object is closed.
\<close>

lemma stop_means_dead:
  assumes "truthfulProbe env dead" and "p_pid p = Some pid" and "Stop env p s = (p', s', err)"
  shows "(err = None \<longleftrightarrow> dead pid (ext s')) \<and> p_stopped p' \<and> \<not> p_jobOpen p' \<and> p_pid p' = Some pid"
proof -
  define s1 where "s1 = run_call (os_graceful env pid) s"
  obtain s2 ex where w: "do_call (os_wait env pid) s1 = (s2, ex)" by fastforce
  obtain p3 s3 where k: "(if ex then closeJob env (p\<lparr>p_stopped := True, p_waited := True\<rparr>) s2 else kill env (p\<lparr>p_stopped := True\<rparr>) s2) = (p3, s3)" by fastforce
  have f3: "p_pid p3 = Some pid" "p_stopped p3" "\<not> p_jobOpen p3"
    using k assms(2) by (auto split: if_splits dest!: closeJob_frame kill_frame)
  obtain s4 g where g: "waitGone env pid 2000 s3 = (s4, g)" by fastforce
  have t4: "g \<longleftrightarrow> dead pid (ext s4)" using waitGoneLoop_truth [OF assms(1)] g by (simp add: waitGone_def)
  define s5 where "s5 = run_call (os_kill env pid) s4"
  obtain p6 s6 where c: "closeJob env p3 s5 = (p6, s6)" by fastforce
  note f6 = closeJob_frame [OF c]
  obtain s7 g2 where g2: "waitGone env pid 500 s6 = (s7, g2)" by fastforce
  have t7: "g2 \<longleftrightarrow> dead pid (ext s7)" using waitGoneLoop_truth [OF assms(1)] g2 by (simp add: waitGone_def)
  have keep: "dead pid (ext (run_call (os_cancelRun env) x)) \<longleftrightarrow> dead pid (ext x)" for x
    using assms(1) by (simp add: truthfulProbe_def run_call_ext)
  have "Stop env p s = (if g then (p3, run_call (os_cancelRun env) s4, None)
      else (p6, run_call (os_cancelRun env) s7, if g2 then None else Some (PlainError ''survived stop+kill'')))"
    using assms(2) s1_def w k g s5_def c g2 by (simp add: Stop_def Let_def)
  with assms(3) f3 f6 t4 t7 keep show ?thesis by (auto split: if_splits)
qed

section \<open>A concrete subprocess\<close>

text \<open>The world is whether the process runs; a polite request is enough to end it.\<close>

definition exampleOs :: "bool osEnv" where
  "exampleOs = \<lparr>getenv = (\<lambda>_. ''''), Atoi = (\<lambda>_. None), os_spawn = (\<lambda>_ _ _. (True, 5, Some 7)), os_assignJob = (\<lambda>_ w. (w, 0, True)),
     os_closeJob = (\<lambda>_ w. (w, 0, ())), os_graceful = (\<lambda>_ _. (False, 1, ())), os_kill = (\<lambda>_ _. (False, 0, ())),
     os_cancelRun = (\<lambda>w. (w, 0, ())), os_wait = (\<lambda>_ w. (w, 10, True)), os_pidAlive = (\<lambda>_ w. (w, 0, w)),
     os_get = (\<lambda>_ w. (w, 2, if w then Some 200 else None)), os_ctxErr = (\<lambda>_. False)\<rparr>"

definition exampleProc :: process where
  "exampleProc = newProcess ''llama-server'' ''m.gguf'' '''' ''mid'' (-1) 8090 2"

lemma exampleOs_start: "\<exists>p' s'. Start exampleOs exampleProc \<lparr>clock = 0, ext = False\<rparr> = (p', s', None)"
  by (simp add: Start_def do_call_def exampleOs_def exampleProc_def newProcess_def Let_def startDeadline_def)
     (simp add: healthLoop.simps do_call_def propsReady_def healthPoll_def)

lemma start_means_serving_witness:
  "\<exists>p' s' pid. Start exampleOs exampleProc \<lparr>clock = 0, ext = False\<rparr> = (p', s', None) \<and> p_pid p' = Some pid"
proof -
  obtain p' s' where S: "Start exampleOs exampleProc \<lparr>clock = 0, ext = False\<rparr> = (p', s', None)" using exampleOs_start by blast
  from start_means_serving [OF S] S show ?thesis by auto
qed

lemma stop_means_dead_witness:
  "\<exists>p' s' err. Stop exampleOs (exampleProc\<lparr>p_pid := Some 7\<rparr>) \<lparr>clock = 0, ext = True\<rparr> = (p', s', err) \<and> (err = None \<longleftrightarrow> \<not> ext s')"
proof -
  obtain p' s' err where S: "Stop exampleOs (exampleProc\<lparr>p_pid := Some 7\<rparr>) \<lparr>clock = 0, ext = True\<rparr> = (p', s', err)" by (metis prod_cases3)
  have "truthfulProbe exampleOs (\<lambda>_ w. \<not> w)" by (simp add: truthfulProbe_def exampleOs_def)
  from stop_means_dead [OF this _ S, of 7] S show ?thesis by auto
qed

end
