(* ===== verification/Sample_Ring.thy ===== *)
theory Sample_Ring
  imports Model_Types
begin

text \<open>
  A ring buffer of samples and its average, as the speed meter of a tier and the CPU monitor both keep
  it: an array, the index of the next write and the number of samples seen, capped at the size. The
  locale is what the two implementations share; its lemma says that the average the ring reports is
  the average of the last samples recorded.
\<close>

definition lastn :: "nat \<Rightarrow> 'a list \<Rightarrow> 'a list" where "lastn n xs = drop (length xs - n) xs"

definition average :: "rat list \<Rightarrow> rat" where
  "average xs = (if xs = [] then 0 else sum_list xs / of_nat (length xs))"

lemma rotate_write:
  assumes "h < length r"
  shows "rotate (Suc h mod length r) (r[h := y]) = tl (rotate h r) @ [y]"
proof -
  have "rotate h r = (r ! h # drop (Suc h) r) @ take h r"
    unfolding Cons_nth_drop_Suc [OF assms] using assms by (simp add: rotate_drop_take)
  then have l: "tl (rotate h r) @ [y] = drop (Suc h) r @ take h r @ [y]" by simp
  show ?thesis
  proof (cases "Suc h = length r")
    case True
    then have "r[h := y] = take h r @ [y]" using upd_conv_take_nth_drop [OF assms, of y] by simp
    with True l show ?thesis by simp
  next
    case False
    with assms have "Suc h < length r" by simp
    then have "rotate (Suc h mod length r) (r[h := y]) = drop (Suc h) (r[h := y]) @ take (Suc h) (r[h := y])"
      by (simp add: rotate_drop_take)
    also have "\<dots> = drop (Suc h) r @ take h r @ [y]"
      using assms by (simp add: take_Suc_conv_app_nth)
    finally show ?thesis using l by simp
  qed
qed

lemma lastn_snoc: "length xs \<ge> n \<Longrightarrow> 0 < n \<Longrightarrow> lastn n (xs @ [y]) = tl (lastn n xs) @ [y]"
  by (simp add: lastn_def Suc_diff_le drop_Suc tl_drop)

lemma sum_list_rotate: "sum_list (rotate k xs) = sum_list (xs :: rat list)"
  by (metis add.commute append_take_drop_id rotate_drop_take sum_list.append)

locale sample_ring =
  fixes slots :: nat
    and ring :: "'s \<Rightarrow> rat list"
    and head :: "'s \<Rightarrow> nat"
    and seen :: "'s \<Rightarrow> nat"
    and push :: "rat \<Rightarrow> 's \<Rightarrow> 's"
    and rate :: "'s \<Rightarrow> rat"
  assumes slots: "0 < slots"
    and push_ring: "ring (push x s) = (ring s)[head s := x]"
    and push_head: "head (push x s) = (head s + 1) mod slots"
    and push_seen: "seen (push x s) = (if seen s < slots then seen s + 1 else seen s)"
    and rate: "rate s = (if seen s = 0 then 0 else sum_list (take (seen s) (ring s)) / of_nat (seen s))"
begin

text \<open>The ring holds the samples \<open>ys\<close>: all of them from the front while there is room, the last ones in
  a circle that begins at the head afterwards.\<close>

definition holds :: "'s \<Rightarrow> rat list \<Rightarrow> bool" where
  "holds s ys = (length (ring s) = slots \<and> head s < slots \<and>
     (if length ys < slots then seen s = length ys \<and> head s = length ys \<and> take (length ys) (ring s) = ys
      else seen s = slots \<and> rotate (head s) (ring s) = lastn slots ys))"

lemma holds_empty: "length (ring s) = slots \<Longrightarrow> head s = 0 \<Longrightarrow> seen s = 0 \<Longrightarrow> holds s []"
  using slots by (simp add: holds_def)

lemma holds_push:
  assumes "holds s ys"
  shows "holds (push y s) (ys @ [y])"
proof -
  from assms have len: "length (ring s) = slots" and h: "head s < slots" by (simp_all add: holds_def)
  have full: "rotate ((head s + 1) mod slots) ((ring s)[head s := y]) = tl (rotate (head s) (ring s)) @ [y]"
    using rotate_write [of "head s" "ring s" y] len h by simp
  show ?thesis
  proof (cases "length ys < slots")
    case True
    with assms have H: "seen s = length ys" "take (length ys) (ring s) = ys" "head s = length ys"
      by (auto simp: holds_def)
    have t: "take (Suc (length ys)) ((ring s)[length ys := y]) = ys @ [y]"
      using H(2) len True by (simp add: take_Suc_conv_app_nth)
    show ?thesis
    proof (cases "Suc (length ys) = slots")
      case edge: True
      then have "(ring s)[length ys := y] = ys @ [y]" using t len by simp
      with edge H len show ?thesis by (simp add: holds_def push_ring push_head push_seen lastn_def)
    next
      case False
      with True H len t show ?thesis by (simp add: holds_def push_ring push_head push_seen)
    qed
  next
    case False
    with assms have H: "seen s = slots" "rotate (head s) (ring s) = lastn slots ys"
      by (auto simp: holds_def)
    have "tl (lastn slots ys) @ [y] = lastn slots (ys @ [y])"
      using False slots by (simp add: lastn_snoc)
    with False H len full slots show ?thesis by (simp add: holds_def push_ring push_head push_seen)
  qed
qed

lemma rate_average:
  assumes "holds s ys"
  shows "rate s = average (lastn slots ys)"
proof (cases "length ys < slots")
  case True
  with assms show ?thesis by (auto simp: holds_def rate average_def lastn_def)
next
  case False
  with assms have H: "seen s = slots" "rotate (head s) (ring s) = lastn slots ys" "length (ring s) = slots"
    by (auto simp: holds_def)
  with sum_list_rotate have "sum_list (lastn slots ys) = sum_list (ring s)" by metis
  moreover have "length (lastn slots ys) = slots" using H by (metis length_rotate)
  moreover have "lastn slots ys \<noteq> []" using calculation(2) slots by auto
  ultimately show ?thesis using H slots by (simp add: rate average_def)
qed

end

end
