(* ===== verification/Llama_Backend.thy ===== *)
theory Llama_Backend
  imports Llama_Client Llama_Process Layers Sample_Ring
begin

text \<open>
  The backend of one model tier, \<open>src/internal/backend/llamacpp/backend.go\<close>: it spawns its
  \<open>llama-server\<close> on demand, restarts it when it died or runs in the wrong mode, translates requests to
  its endpoints and keeps the rolling speed average. Each operation is modelled as one caller executes
  it; the lock that makes a second caller wait for a spawn is not.
\<close>

section \<open>State\<close>

definition tokRingSize :: nat where "tokRingSize = 10"

record llama =
  lb_desc :: ModelDescriptor
  lb_exe :: string
  lb_maxParallel :: int
  lb_active :: int
  lb_proc :: "process option"
  lb_baseURL :: string
  lb_ready :: bool
  lb_starting :: bool
  lb_restarting :: bool
  lb_residentMB :: int
  lb_nCtx :: int
  lb_nextGPULayers :: int
  lb_nextGPULayersSet :: bool
  lb_nextNeedsVision :: bool
  lb_runningWithVision :: bool
  lb_tokRing :: "rat list"
  lb_tokN :: nat
  lb_tokHead :: nat

text \<open>\<open>le_avail\<close> is the VRAM provider, absent when the tier always runs fully on the GPU.\<close>

record 'w llamaEnv =
  le_os :: "'w osEnv"
  le_avail :: "('w, int res) call option"
  le_completion :: "string \<Rightarrow> completionReq \<Rightarrow> ('w, completionResp exchange) call"
  le_completionStream :: "string \<Rightarrow> completionReq \<Rightarrow> ('w, streamBody exchange) call"
  le_chat :: "string \<Rightarrow> chatReq \<Rightarrow> ('w, chatResp exchange) call"
  le_chatStream :: "string \<Rightarrow> chatReq \<Rightarrow> ('w, streamBody exchange) call"
  le_tokenize :: "string \<Rightarrow> string \<Rightarrow> ('w, int list exchange) call"
  le_props :: "string \<Rightarrow> ('w, propsResp exchange) call"
  le_decode :: "string \<Rightarrow> streamChunk option"
  le_decodeChat :: "string \<Rightarrow> chatStreamChunk option"

definition New_llama :: "ModelDescriptor \<Rightarrow> string \<Rightarrow> int \<Rightarrow> llama" where
  "New_llama desc exe maxParallel =
     \<lparr>lb_desc = desc, lb_exe = exe, lb_maxParallel = (if maxParallel < 1 then 1 else maxParallel), lb_active = 0, lb_proc = None,
      lb_baseURL = '''', lb_ready = False, lb_starting = False, lb_restarting = False, lb_residentMB = 0, lb_nCtx = 0,
      lb_nextGPULayers = 0, lb_nextGPULayersSet = False, lb_nextNeedsVision = False, lb_runningWithVision = False,
      lb_tokRing = replicate tokRingSize 0, lb_tokN = 0, lb_tokHead = 0\<rparr>"

definition SetNextGPULayers_llama :: "int \<Rightarrow> llama \<Rightarrow> llama" where
  "SetNextGPULayers_llama n b = b\<lparr>lb_nextGPULayers := n, lb_nextGPULayersSet := True\<rparr>"

definition SetNextNeedsVision_llama :: "bool \<Rightarrow> llama \<Rightarrow> llama" where
  "SetNextNeedsVision_llama v b = b\<lparr>lb_nextNeedsVision := v\<rparr>"

section \<open>Keeping the subprocess\<close>

definition probeHealthy :: "'w llamaEnv \<Rightarrow> string \<Rightarrow> 'w sys \<Rightarrow> 'w sys \<times> bool" where
  "probeHealthy env url s = (case do_call (os_get (le_os env) (url @ ''/health'')) s of (s1, r) \<Rightarrow> (s1, r = Some 200))"

definition portOf :: "llama \<Rightarrow> int" where
  "portOf b = (if Port (lb_desc b) = 0 then 8090 else Port (lb_desc b))"

definition spawnLayers :: "'w llamaEnv \<Rightarrow> llama \<Rightarrow> bool \<Rightarrow> 'w sys \<Rightarrow> 'w sys \<times> int" where
  "spawnLayers env b needsVision s =
     (if lb_nextGPULayersSet b then (s, lb_nextGPULayers b)
      else case le_avail env of
             None \<Rightarrow> (s, -1)
           | Some v \<Rightarrow>
               (case do_call v s of
                  (s1, Inl _) \<Rightarrow> (s1, -1)
                | (s1, Inr availMB) \<Rightarrow> (s1, ComputeGPULayers (WeightMB (lb_desc b) needsVision) availMB)))"

text \<open>The part of \<open>ensureRunning\<close> under the start lock.\<close>

definition spawn :: "'w llamaEnv \<Rightarrow> llama \<Rightarrow> 'w sys \<Rightarrow> llama \<times> 'w sys \<times> string res" where
  "spawn env b s =
     (if lb_ready b \<and> lb_runningWithVision b = lb_nextNeedsVision b then (b, s, Inr (lb_baseURL b))
      else
        let needsVision = lb_nextNeedsVision b; desc = lb_desc b;
            (s1, gpuLayers) = spawnLayers env b needsVision s;
            resident = GPUResidentMB (WeightMB desc needsVision) (ScaledKVOverheadMB desc (lb_maxParallel b) needsVision) gpuLayers (TotalLayers desc);
            proc0 = newProcess (lb_exe b) (FilePath desc) (if needsVision then MMProjPath desc else '''') (TierLabel desc) gpuLayers
                      (portOf b) (lb_maxParallel b)
        in case Start (le_os env) proc0 s1 of
             (_, s2, Some e) \<Rightarrow> (b\<lparr>lb_starting := False\<rparr>, s2, Inl (BackendError ''model_load_failed'' (Some e)))
           | (proc, s2, None) \<Rightarrow>
               (b\<lparr>lb_proc := Some proc, lb_baseURL := baseURLOf (portOf b), lb_ready := True, lb_runningWithVision := needsVision,
                  lb_residentMB := resident, lb_starting := False\<rparr>, s2, Inr (baseURLOf (portOf b))))"

definition ensureRunning :: "'w llamaEnv \<Rightarrow> llama \<Rightarrow> 'w sys \<Rightarrow> llama \<times> 'w sys \<times> string res" where
  "ensureRunning env b s =
     (if \<not> lb_ready b then spawn env b s
      else if lb_runningWithVision b \<noteq> lb_nextNeedsVision b then
        let s1 = (case lb_proc b of
                    None \<Rightarrow> s
                  | Some proc \<Rightarrow> (case Stop (le_os env) proc s of (_, s', _) \<Rightarrow> s'\<lparr>clock := clock s' + 300\<rparr>))
        in spawn env (b\<lparr>lb_ready := False, lb_proc := None, lb_residentMB := 0\<rparr>) s1
      else case lb_proc b of
             None \<Rightarrow> (b, s, Inr (lb_baseURL b))
           | Some _ \<Rightarrow>
               (case probeHealthy env (lb_baseURL b) s of
                  (s1, True) \<Rightarrow> (b, s1, Inr (lb_baseURL b))
                | (s1, False) \<Rightarrow> spawn env (b\<lparr>lb_ready := False, lb_proc := None\<rparr>) s1))"

definition restartSubprocess :: "'w llamaEnv \<Rightarrow> llama \<Rightarrow> 'w sys \<Rightarrow> llama \<times> 'w sys \<times> string res" where
  "restartSubprocess env b s =
     (let b1 = b\<lparr>lb_ready := False, lb_proc := None, lb_restarting := True\<rparr>;
          s1 = (case lb_proc b of None \<Rightarrow> s | Some old \<Rightarrow> (case Stop (le_os env) old s of (_, s', _) \<Rightarrow> s'));
          (b2, s2, r) = ensureRunning env b1 s1
      in (b2\<lparr>lb_restarting := False\<rparr>, s2, r))"

definition Shutdown_llama :: "'w llamaEnv \<Rightarrow> llama \<Rightarrow> 'w sys \<Rightarrow> llama \<times> 'w sys \<times> go_error option" where
  "Shutdown_llama env b s =
     (let b1 = b\<lparr>lb_proc := None, lb_ready := False, lb_residentMB := 0, lb_nCtx := 0\<rparr>
      in case lb_proc b of
           None \<Rightarrow> (b1, s, None)
         | Some proc \<Rightarrow> (case Stop (le_os env) proc s of (_, s1, err) \<Rightarrow> (b1, s1, err)))"

definition ResidentMB_llama :: "'w llamaEnv \<Rightarrow> llama \<Rightarrow> 'w sys \<Rightarrow> llama \<times> 'w sys \<times> int" where
  "ResidentMB_llama env b s =
     (case lb_proc b of
        None \<Rightarrow> (b, s, 0)
      | Some proc \<Rightarrow>
          if \<not> lb_ready b then (b, s, 0)
          else (case Alive (le_os env) proc s of
                  (s1, True) \<Rightarrow> (b, s1, lb_residentMB b)
                | (s1, False) \<Rightarrow> (b\<lparr>lb_ready := False, lb_residentMB := 0\<rparr>, s1, 0)))"

definition RunningPID :: "llama \<Rightarrow> nat" where
  "RunningPID b = (case lb_proc b of None \<Rightarrow> 0 | Some p \<Rightarrow> PID p)"

section \<open>Speed samples\<close>

definition recordTokSample :: "rat \<Rightarrow> int \<Rightarrow> llama \<Rightarrow> llama" where
  "recordTokSample sample concurrency b =
     (if sample \<le> 0 then b
      else b\<lparr>lb_tokRing := (lb_tokRing b)[lb_tokHead b := sample * of_int (if concurrency < 1 then 1 else concurrency)],
             lb_tokHead := (lb_tokHead b + 1) mod tokRingSize,
             lb_tokN := (if lb_tokN b < tokRingSize then lb_tokN b + 1 else lb_tokN b)\<rparr>)"

definition TokPerSec_llama :: "llama \<Rightarrow> rat" where
  "TokPerSec_llama b = (if lb_tokN b = 0 then 0 else sum_list (take (lb_tokN b) (lb_tokRing b)) / of_nat (lb_tokN b))"

section \<open>Requests\<close>

definition NCtx_llama :: "'w llamaEnv \<Rightarrow> llama \<Rightarrow> 'w sys \<Rightarrow> llama \<times> 'w sys \<times> int res" where
  "NCtx_llama env b s =
     (if lb_nCtx b > 0 then (b, s, Inr (lb_nCtx b))
      else case ensureRunning env b s of
             (b1, s1, Inl e) \<Rightarrow> (b1, s1, Inl e)
           | (b1, s1, Inr url) \<Rightarrow>
               (case do_call (le_props env url) s1 of
                  (s2, x) \<Rightarrow> (case props x of Inl e \<Rightarrow> (b1, s2, Inl e) | Inr n \<Rightarrow> (b1\<lparr>lb_nCtx := n\<rparr>, s2, Inr n))))"

definition Tokenize_llama :: "'w llamaEnv \<Rightarrow> llama \<Rightarrow> 'w sys \<Rightarrow> string \<Rightarrow> llama \<times> 'w sys \<times> int res" where
  "Tokenize_llama env b s txt =
     (case ensureRunning env b s of
        (b1, s1, Inl e) \<Rightarrow> (b1, s1, Inl e)
      | (b1, s1, Inr url) \<Rightarrow>
          (case do_call (le_tokenize env url txt) s1 of
             (s2, x) \<Rightarrow>
               (case tokenize x of
                  Inr n \<Rightarrow> (b1, s2, Inr n)
                | Inl e \<Rightarrow>
                    if isBackendErr e = Some ''unavailable'' then
                      (case ensureRunning env (b1\<lparr>lb_ready := False, lb_proc := None\<rparr>) s2 of
                         (b3, s3, Inl e3) \<Rightarrow> (b3, s3, Inl e3)
                       | (b3, s3, Inr url3) \<Rightarrow> (case do_call (le_tokenize env url3 txt) s3 of (s4, x4) \<Rightarrow> (b3, s4, tokenize x4)))
                    else (b1, s2, Inl e))))"

definition userTurn :: "string \<Rightarrow> string \<Rightarrow> Message" where
  "userTurn role txt = \<lparr>Role = role, Content = txt, ToolCalls = [], ToolCallID = '''', MsgName = ''''\<rparr>"

definition chatShape :: "Request \<Rightarrow> bool \<Rightarrow> Request" where
  "chatShape req forceTemplate =
     (if Messages req \<noteq> [] then req
      else if ImageData req = [] \<and> \<not> forceTemplate then req
      else if SystemPrompt req \<noteq> '''' then req\<lparr>Messages := [userTurn ''system'' (SystemPrompt req), userTurn ''user'' (Prompt req)]\<rparr>
      else req\<lparr>Messages := [userTurn ''user'' (Prompt req)]\<rparr>)"

definition chatMaxTokensSafetyMarginPct :: int where "chatMaxTokensSafetyMarginPct = 10"

fun joinLines :: "string list \<Rightarrow> string" where
  "joinLines [] = ''''"
| "joinLines [x] = x"
| "joinLines (x # xs) = x @ [CHR 0x0A] @ joinLines xs"

definition resolveChatMaxTokens :: "'w llamaEnv \<Rightarrow> llama \<Rightarrow> 'w sys \<Rightarrow> string \<Rightarrow> Request \<Rightarrow> llama \<times> 'w sys \<times> int" where
  "resolveChatMaxTokens env b s url req =
     (if MaxTokens req > 0 then (b, s, MaxTokens req)
      else case NCtx_llama env b s of
             (b1, s1, Inl _) \<Rightarrow> (b1, s1, defaultChatMaxTokens)
           | (b1, s1, Inr nCtx) \<Rightarrow>
               if nCtx \<le> 0 then (b1, s1, defaultChatMaxTokens)
               else (case do_call (le_tokenize env url (joinLines (map Content (Messages req)))) s1 of
                       (s2, x) \<Rightarrow>
                         (case tokenize x of
                            Inl _ \<Rightarrow> (b1, s2, defaultChatMaxTokens)
                          | Inr n \<Rightarrow>
                              let promptTokens = n + 8 * int (length (Messages req));
                                  margin = nCtx * chatMaxTokensSafetyMarginPct sdiv 100;
                                  remaining = nCtx - promptTokens - margin
                              in (b1, s2, if remaining < 1 then 1 else remaining))))"

definition runComplete :: "'w llamaEnv \<Rightarrow> llama \<Rightarrow> 'w sys \<Rightarrow> string \<Rightarrow> Request \<Rightarrow> llama \<times> 'w sys \<times> Response res" where
  "runComplete env b s url req0 =
     (let req = chatShape req0 (RequireChatTemplate (lb_desc b)) in
      if Messages req \<noteq> [] then
        (case resolveChatMaxTokens env b s url req of
           (b1, s1, n) \<Rightarrow> (case do_call (le_chat env url (toChatReq False (req\<lparr>MaxTokens := n\<rparr>))) s1 of (s2, x) \<Rightarrow> (b1, s2, chatComplete x)))
      else (case do_call (le_completion env url (toCompletionReq False req0)) s of (s1, x) \<Rightarrow> (b, s1, complete x)))"

definition runCompleteStream :: "'w llamaEnv \<Rightarrow> llama \<Rightarrow> 'w sys \<Rightarrow> string \<Rightarrow> Request \<Rightarrow> llama \<times> 'w sys \<times> streamed" where
  "runCompleteStream env b s url req0 =
     (let req = chatShape req0 (RequireChatTemplate (lb_desc b)) in
      if Messages req \<noteq> [] then
        (case resolveChatMaxTokens env b s url req of
           (b1, s1, n) \<Rightarrow> (case do_call (le_chatStream env url (toChatReq True (req\<lparr>MaxTokens := n\<rparr>))) s1 of
                             (s2, x) \<Rightarrow> (b1, s2, chatCompleteStream (le_decodeChat env) x)))
      else (case do_call (le_completionStream env url (toCompletionReq True req0)) s of
              (s1, x) \<Rightarrow> (b, s1, completeStream (le_decode env) x)))"

text \<open>The deferred decrement of \<open>active\<close> runs on every way out.\<close>

definition leave :: "llama \<Rightarrow> llama" where "leave b = b\<lparr>lb_active := lb_active b - 1\<rparr>"

definition Infer_llama :: "'w llamaEnv \<Rightarrow> llama \<Rightarrow> 'w sys \<Rightarrow> Request \<Rightarrow> llama \<times> 'w sys \<times> Response res" where
  "Infer_llama env b s req =
     (case ensureRunning env b s of
        (b1, s1, Inl e) \<Rightarrow> (b1, s1, Inl e)
      | (b1, s1, Inr url) \<Rightarrow>
          let b2 = b1\<lparr>lb_active := lb_active b1 + 1\<rparr>; concurrency = lb_active b2;
              finish = (\<lambda>b' s' resp. (leave (recordTokSample (TokPerSecSample resp) concurrency b'), s',
                          Inr (resp\<lparr>ModelTier := TierLabel (lb_desc b')\<rparr>)))
          in case runComplete env b2 s1 url req of
               (b3, s3, Inr resp) \<Rightarrow> finish b3 s3 resp
             | (b3, s3, Inl e) \<Rightarrow>
                 if isBackendErr e = Some ''unavailable'' then
                   (case restartSubprocess env b3 s3 of
                      (b4, s4, Inl e4) \<Rightarrow> (leave b4, s4, Inl e4)
                    | (b4, s4, Inr url4) \<Rightarrow>
                        (case runComplete env b4 s4 url4 req of
                           (b5, s5, Inl e5) \<Rightarrow> (leave b5, s5, Inl e5)
                         | (b5, s5, Inr resp) \<Rightarrow> finish b5 s5 resp))
                 else (leave b3, s3, Inl e))"

definition InferStream_llama :: "'w llamaEnv \<Rightarrow> llama \<Rightarrow> 'w sys \<Rightarrow> Request \<Rightarrow> llama \<times> 'w sys \<times> streamed" where
  "InferStream_llama env b s req =
     (case ensureRunning env b s of
        (b1, s1, Inl e) \<Rightarrow> (b1, s1, [], zeroResponse, Some e)
      | (b1, s1, Inr url) \<Rightarrow>
          let b2 = b1\<lparr>lb_active := lb_active b1 + 1\<rparr>; concurrency = lb_active b2;
              finish = (\<lambda>b' s' chunks resp err.
                 case err of
                   Some e \<Rightarrow> (leave b', s', chunks, resp\<lparr>ModelTier := TierLabel (lb_desc b')\<rparr>, Some e)
                 | None \<Rightarrow> (leave (recordTokSample (TokPerSecSample resp) concurrency b'), s', chunks,
                             resp\<lparr>ModelTier := TierLabel (lb_desc b')\<rparr>, None))
          in case runCompleteStream env b2 s1 url req of
               (b3, s3, chunks, resp, Some e) \<Rightarrow>
                 if isBackendErr e = Some ''unavailable'' \<and> chunks = [] then
                   (case restartSubprocess env b3 s3 of
                      (b4, s4, Inl e4) \<Rightarrow> (leave b4, s4, [], zeroResponse, Some e4)
                    | (b4, s4, Inr url4) \<Rightarrow>
                        (case runCompleteStream env b4 s4 url4 req of
                           (b5, s5, chunks5, resp5, err5) \<Rightarrow> finish b5 s5 (chunks @ chunks5) resp5 err5))
                 else finish b3 s3 chunks resp (Some e)
             | (b3, s3, chunks, resp, None) \<Rightarrow> finish b3 s3 chunks resp None)"

section \<open>What the helpers leave alone\<close>

text \<open>\<open>keeps b b'\<close>: only what concerns the running subprocess differs.\<close>

text \<open>\<open>tuned b\<close>: a ready subprocess runs with the split and in the mode that was asked for last.\<close>

definition tuned :: "llama \<Rightarrow> bool" where
  "tuned b = (lb_nextGPULayersSet b \<and> (lb_ready b \<longrightarrow> lb_runningWithVision b = lb_nextNeedsVision b
     \<and> (\<exists>p. lb_proc b = Some p \<and> p_gpuLayers p = lb_nextGPULayers b)))"

lemma tuned_simps [simp]:
  "tuned (b\<lparr>lb_starting := x\<rparr>) = tuned b" "tuned (b\<lparr>lb_nCtx := n\<rparr>) = tuned b" "tuned (b\<lparr>lb_restarting := x\<rparr>) = tuned b"
  "tuned (b\<lparr>lb_active := m\<rparr>) = tuned b" "tuned (leave b) = tuned b" "tuned (recordTokSample r c b) = tuned b"
  "tuned (b\<lparr>lb_active := m, lb_restarting := x\<rparr>) = tuned b"
  by (simp_all add: tuned_def leave_def recordTokSample_def)

definition keeps :: "llama \<Rightarrow> llama \<Rightarrow> bool" where
  "keeps b b' = (lb_desc b' = lb_desc b \<and> lb_exe b' = lb_exe b \<and> lb_maxParallel b' = lb_maxParallel b \<and> lb_active b' = lb_active b
     \<and> lb_nextNeedsVision b' = lb_nextNeedsVision b \<and> lb_nextGPULayers b' = lb_nextGPULayers b \<and> lb_nextGPULayersSet b' = lb_nextGPULayersSet b
     \<and> lb_restarting b' = lb_restarting b \<and> lb_tokRing b' = lb_tokRing b \<and> lb_tokN b' = lb_tokN b \<and> lb_tokHead b' = lb_tokHead b
     \<and> (tuned b \<longrightarrow> tuned b'))"

lemma keeps_refl [simp]: "keeps b b" by (simp add: keeps_def)
lemma keeps_trans: "keeps a b \<Longrightarrow> keeps b c \<Longrightarrow> keeps a c" by (simp add: keeps_def)

lemma closeJob_args:
  "closeJob env p s = (p', s') \<Longrightarrow> p_modelPath p' = p_modelPath p \<and> p_mmprojPath p' = p_mmprojPath p \<and> p_gpuLayers p' = p_gpuLayers p \<and> p_parallel p' = p_parallel p"
  by (auto simp: closeJob_def split: option.splits if_splits)

lemma Start_args:
  assumes "Start env p s = (p', s', None)"
  shows "p_modelPath p' = p_modelPath p \<and> p_mmprojPath p' = p_mmprojPath p \<and> p_gpuLayers p' = p_gpuLayers p \<and> p_parallel p' = p_parallel p"
  using assms by (auto simp: Start_def Let_def split: prod.splits option.splits startEnd.splits)

section \<open>The invariant\<close>

text \<open>The running subprocess is the one the bookkeeping describes.\<close>

definition describes :: "llama \<Rightarrow> process \<Rightarrow> bool" where
  "describes b p = (p_modelPath p = FilePath (lb_desc b)
     \<and> p_mmprojPath p = (if lb_runningWithVision b then MMProjPath (lb_desc b) else '''')
     \<and> p_parallel p = lb_maxParallel b
     \<and> lb_residentMB b = residentOf (lb_desc b) (p_gpuLayers p) (lb_runningWithVision b) (lb_maxParallel b))"

definition ring_ok :: "llama \<Rightarrow> bool" where
  "ring_ok b = (length (lb_tokRing b) = tokRingSize \<and> lb_tokN b \<le> tokRingSize \<and> lb_tokHead b < tokRingSize
     \<and> (lb_tokN b < tokRingSize \<longrightarrow> lb_tokHead b = lb_tokN b))"

definition llama_inv :: "llama \<Rightarrow> bool" where
  "llama_inv b = (1 \<le> lb_maxParallel b \<and> \<not> lb_starting b \<and> ring_ok b
     \<and> (lb_ready b \<longrightarrow> lb_baseURL b = baseURLOf (portOf b) \<and> (\<forall>p. lb_proc b = Some p \<longrightarrow> describes b p)))"

lemma keeps_ring: "keeps b b' \<Longrightarrow> ring_ok b' = ring_ok b"
  by (simp add: keeps_def ring_ok_def)

lemma spawn_spec:
  assumes "spawn env b s = (b', s', r)" "llama_inv b"
  shows "llama_inv b' \<and> keeps b b' \<and>
    (case r of Inr url \<Rightarrow> lb_ready b' \<and> lb_runningWithVision b' = lb_nextNeedsVision b' \<and> url = lb_baseURL b'
     | Inl e \<Rightarrow> isBackendErr e = Some ''model_load_failed'' \<and> lb_ready b' = lb_ready b)"
proof (cases "lb_ready b \<and> lb_runningWithVision b = lb_nextNeedsVision b")
  case True
  with assms show ?thesis by (auto simp: spawn_def)
next
  case False
  obtain s1 g where L: "spawnLayers env b (lb_nextNeedsVision b) s = (s1, g)" by fastforce
  let ?proc = "newProcess (lb_exe b) (FilePath (lb_desc b)) (if lb_nextNeedsVision b then MMProjPath (lb_desc b) else '''') (TierLabel (lb_desc b)) g
     (portOf b) (lb_maxParallel b)"
  obtain p' s2 err where St: "Start (le_os env) ?proc s1 = (p', s2, err)" by (metis prod_cases3)
  show ?thesis
  proof (cases err)
    case (Some e)
    with assms False L St have "b' = b\<lparr>lb_starting := False\<rparr>" "r = Inl (BackendError ''model_load_failed'' (Some e))"
      by (auto simp: spawn_def Let_def)
    with assms(2) show ?thesis by (simp add: llama_inv_def keeps_def ring_ok_def portOf_def describes_def)
  next
    case None
    note args = Start_args [OF St [unfolded None]]
    from assms False L St None have "b' = b\<lparr>lb_proc := Some p', lb_baseURL := baseURLOf (portOf b), lb_ready := True,
        lb_runningWithVision := lb_nextNeedsVision b, lb_residentMB := residentOf (lb_desc b) g (lb_nextNeedsVision b) (lb_maxParallel b),
        lb_starting := False\<rparr>" "r = Inr (baseURLOf (portOf b))"
      by (auto simp: spawn_def Let_def residentOf_def)
    moreover have "lb_nextGPULayersSet b \<Longrightarrow> g = lb_nextGPULayers b" using L by (simp add: spawnLayers_def)
    ultimately show ?thesis using assms(2) args
      by (simp add: llama_inv_def keeps_def ring_ok_def portOf_def describes_def newProcess_def tuned_def)
  qed
qed

lemma stopped_inv: "llama_inv b \<Longrightarrow> llama_inv (b\<lparr>lb_ready := False, lb_proc := pr, lb_residentMB := m\<rparr>)"
  "llama_inv b \<Longrightarrow> llama_inv (b\<lparr>lb_ready := False, lb_proc := pr\<rparr>)"
  by (simp_all add: llama_inv_def ring_ok_def)

lemma ensureRunning_spec:
  assumes "ensureRunning env b s = (b', s', r)" "llama_inv b"
  shows "llama_inv b' \<and> keeps b b' \<and>
    (case r of Inr url \<Rightarrow> lb_ready b' \<and> lb_runningWithVision b' = lb_nextNeedsVision b' \<and> url = lb_baseURL b'
     | Inl e \<Rightarrow> isBackendErr e = Some ''model_load_failed'' \<and> \<not> lb_ready b')"
proof -
  have via: ?thesis if "spawn env b0 s0 = (b', s', r)" "llama_inv b0" "\<not> lb_ready b0" "keeps b b0" for b0 s0
    using spawn_spec [OF that(1,2)] that(3,4) keeps_trans by (auto split: sum.splits)
  consider (cold) "\<not> lb_ready b" | (mode) "lb_ready b" "lb_runningWithVision b \<noteq> lb_nextNeedsVision b"
    | (noproc) "lb_ready b" "lb_runningWithVision b = lb_nextNeedsVision b" "lb_proc b = None"
    | (proc) p where "lb_ready b" "lb_runningWithVision b = lb_nextNeedsVision b" "lb_proc b = Some p" by (cases "lb_proc b") auto
  then show ?thesis
  proof cases
    case cold
    with assms show ?thesis by (intro via [of b s]) (simp_all add: ensureRunning_def)
  next
    case mode
    then obtain s1 where "spawn env (b\<lparr>lb_ready := False, lb_proc := None, lb_residentMB := 0\<rparr>) s1 = (b', s', r)"
      using assms(1) by (auto simp: ensureRunning_def Let_def)
    then show ?thesis by (rule via) (use assms(2) in \<open>auto simp: stopped_inv keeps_def tuned_def\<close>)
  next
    case noproc
    with assms show ?thesis by (auto simp: ensureRunning_def)
  next
    case proc
    obtain s1 h where h: "probeHealthy env (lb_baseURL b) s = (s1, h)" by fastforce
    show ?thesis
    proof (cases h)
      case True
      with proc h assms show ?thesis by (auto simp: ensureRunning_def)
    next
      case False
      with proc h assms(1) have "spawn env (b\<lparr>lb_ready := False, lb_proc := None\<rparr>) s1 = (b', s', r)" by (simp add: ensureRunning_def)
      then show ?thesis by (rule via) (use assms(2) in \<open>auto simp: stopped_inv keeps_def tuned_def\<close>)
    qed
  qed
qed

lemma restart_spec:
  assumes "restartSubprocess env b s = (b', s', r)" "llama_inv b"
  shows "llama_inv b' \<and> keeps (b\<lparr>lb_restarting := False\<rparr>) b' \<and> (\<forall>e. r = Inl e \<longrightarrow> isBackendErr e = Some ''model_load_failed'')"
proof -
  obtain b2 s1 where e: "ensureRunning env (b\<lparr>lb_ready := False, lb_proc := None, lb_restarting := True\<rparr>) s1 = (b2, s', r)"
    "b' = b2\<lparr>lb_restarting := False\<rparr>"
    using assms(1) by (auto simp: restartSubprocess_def Let_def split: prod.splits)
  have "llama_inv (b\<lparr>lb_ready := False, lb_proc := None, lb_restarting := True\<rparr>)"
    using assms(2) by (simp add: llama_inv_def ring_ok_def)
  from ensureRunning_spec [OF e(1) this] e(2) show ?thesis
    by (auto simp: keeps_def llama_inv_def ring_ok_def portOf_def describes_def tuned_def split: sum.splits)
qed

lemma nCtx_update: "llama_inv (b\<lparr>lb_nCtx := n\<rparr>) = llama_inv b" "keeps a (b\<lparr>lb_nCtx := n\<rparr>) = keeps a b"
  by (simp_all add: llama_inv_def keeps_def ring_ok_def portOf_def describes_def)

lemma NCtx_spec:
  assumes "NCtx_llama env b s = (b', s', r)" "llama_inv b"
  shows "llama_inv b' \<and> keeps b b' \<and> (\<forall>n. r = Inr n \<longrightarrow> lb_nCtx b' = n)"
proof (cases "lb_nCtx b > 0")
  case True
  with assms show ?thesis by (auto simp: NCtx_llama_def)
next
  case False
  obtain b1 s1 r1 where E: "ensureRunning env b s = (b1, s1, r1)" by (metis prod_cases3)
  note S = ensureRunning_spec [OF E assms(2)]
  have "b' = b1 \<and> (\<exists>e. r = Inl e) \<or> (\<exists>n. b' = b1\<lparr>lb_nCtx := n\<rparr> \<and> r = Inr n)"
  proof (cases r1)
    case (Inl e)
    with assms(1) False E show ?thesis by (auto simp: NCtx_llama_def)
  next
    case (Inr url)
    obtain s2 x where d: "do_call (le_props env url) s1 = (s2, x)" by fastforce
    show ?thesis
    proof (cases "props x")
      case (Inl e)
      with assms(1) False E Inr d have "b' = b1 \<and> r = Inl e" by (simp add: NCtx_llama_def)
      then show ?thesis by blast
    next
      case ok: (Inr n)
      with assms(1) False E Inr d have "b' = b1\<lparr>lb_nCtx := n\<rparr> \<and> r = Inr n" by (auto simp: NCtx_llama_def)
      then show ?thesis by blast
    qed
  qed
  moreover have "llama_inv b1" "keeps b b1" using S by blast+
  ultimately show ?thesis by (elim disjE exE conjE) (simp_all add: nCtx_update)
qed

lemma resolve_spec:
  assumes "resolveChatMaxTokens env b s url req = (b', s', n)" "llama_inv b"
  shows "llama_inv b' \<and> keeps b b'"
proof (cases "MaxTokens req > 0")
  case True
  with assms show ?thesis by (auto simp: resolveChatMaxTokens_def)
next
  case False
  obtain b1 s1 r1 where N: "NCtx_llama env b s = (b1, s1, r1)" by (metis prod_cases3)
  have "b' = b1" using assms(1) False N
    by (auto simp: resolveChatMaxTokens_def Let_def split: prod.splits sum.splits if_splits)
  with NCtx_spec [OF N assms(2)] show ?thesis by simp
qed

lemma runComplete_spec:
  assumes "runComplete env b s url req = (b', s', r)" "llama_inv b"
  shows "llama_inv b' \<and> keeps b b'"
proof -
  obtain b1 s1 n where R: "resolveChatMaxTokens env b s url (chatShape req (RequireChatTemplate (lb_desc b))) = (b1, s1, n)" by (metis prod_cases3)
  have "b' = b1 \<or> b' = b" using assms(1) R by (auto simp: runComplete_def Let_def split: prod.splits if_splits)
  with resolve_spec [OF R assms(2)] assms(2) show ?thesis by auto
qed

lemma runCompleteStream_spec:
  assumes "runCompleteStream env b s url req = (b', s', r)" "llama_inv b"
  shows "llama_inv b' \<and> keeps b b'"
proof -
  obtain b1 s1 n where R: "resolveChatMaxTokens env b s url (chatShape req (RequireChatTemplate (lb_desc b))) = (b1, s1, n)" by (metis prod_cases3)
  have "b' = b1 \<or> b' = b" using assms(1) R by (auto simp: runCompleteStream_def Let_def split: prod.splits if_splits)
  with resolve_spec [OF R assms(2)] assms(2) show ?thesis by auto
qed

lemma recordTokSample_inv:
  assumes "llama_inv b"
  shows "llama_inv (recordTokSample x c b) \<and> lb_active (recordTokSample x c b) = lb_active b \<and> lb_desc (recordTokSample x c b) = lb_desc b
    \<and> lb_restarting (recordTokSample x c b) = lb_restarting b"
proof -
  have "(lb_tokHead b + 1) mod tokRingSize = lb_tokN b + 1" if "lb_tokN b + 1 < tokRingSize" "lb_tokHead b = lb_tokN b"
    using that by (simp add: tokRingSize_def)
  with assms show ?thesis
    by (auto simp: recordTokSample_def llama_inv_def ring_ok_def portOf_def describes_def tokRingSize_def split: if_splits)
qed

lemma leave_inv: "llama_inv b \<Longrightarrow> llama_inv (leave b)" "lb_active (leave b) = lb_active b - 1" "lb_desc (leave b) = lb_desc b"
  "lb_restarting (leave b) = lb_restarting b"
  by (simp_all add: leave_def llama_inv_def ring_ok_def portOf_def describes_def)

lemma enter_inv: "llama_inv b \<Longrightarrow> llama_inv (b\<lparr>lb_active := n\<rparr>)"
  by (simp add: llama_inv_def ring_ok_def portOf_def describes_def)

text \<open>What a call leaves: the invariant, the same tier, no trace of itself in \<open>active\<close>.\<close>

definition settled :: "llama \<Rightarrow> llama \<Rightarrow> bool" where
  "settled b b' = (llama_inv b' \<and> lb_desc b' = lb_desc b \<and> lb_active b' = lb_active b
     \<and> (\<not> lb_restarting b \<longrightarrow> \<not> lb_restarting b'))"

text \<open>An inference also leaves the tier in the shape that was asked for.\<close>

definition steady :: "llama \<Rightarrow> llama \<Rightarrow> bool" where
  "steady b b' = (settled b b' \<and> lb_nextGPULayers b' = lb_nextGPULayers b \<and> lb_nextNeedsVision b' = lb_nextNeedsVision b
     \<and> lb_maxParallel b' = lb_maxParallel b \<and> (tuned b \<longrightarrow> tuned b'))"

lemmas steady_defs = steady_def settled_def keeps_def

lemma steady_keeps: "llama_inv b' \<Longrightarrow> keeps b b' \<Longrightarrow> steady b b'"
  by (simp add: steady_defs)

lemma leave_frame: "lb_nextGPULayers (leave b) = lb_nextGPULayers b" "lb_nextNeedsVision (leave b) = lb_nextNeedsVision b"
  "lb_maxParallel (leave b) = lb_maxParallel b"
  by (simp_all add: leave_def)

lemma recordTokSample_frame: "lb_nextGPULayers (recordTokSample x c b) = lb_nextGPULayers b"
  "lb_nextNeedsVision (recordTokSample x c b) = lb_nextNeedsVision b" "lb_maxParallel (recordTokSample x c b) = lb_maxParallel b"
  by (simp_all add: recordTokSample_def)

lemma steady_leave:
  assumes "llama_inv b'" "keeps (b\<lparr>lb_active := lb_active b + 1\<rparr>) b' \<or> keeps (b\<lparr>lb_active := lb_active b + 1, lb_restarting := False\<rparr>) b'"
  shows "steady b (leave b')" "steady b (leave (recordTokSample x c b'))"
proof -
  note I = recordTokSample_inv [OF assms(1), of x c]
  have k: "lb_desc b' = lb_desc b" "lb_active b' = lb_active b + 1" "\<not> lb_restarting b \<longrightarrow> \<not> lb_restarting b'" "tuned b \<longrightarrow> tuned b'"
    "lb_nextGPULayers b' = lb_nextGPULayers b" "lb_nextNeedsVision b' = lb_nextNeedsVision b" "lb_maxParallel b' = lb_maxParallel b"
    using assms(2) unfolding keeps_def by (elim disjE; simp)+
  show "steady b (leave b')" using k assms(1) by (simp add: steady_def settled_def leave_inv leave_frame)
  show "steady b (leave (recordTokSample x c b'))"
    using k I by (simp add: steady_def settled_def leave_inv leave_frame recordTokSample_frame)
qed

lemma steady_via: "keeps b b1 \<Longrightarrow> steady b1 b' \<Longrightarrow> steady b b'"
  by (auto simp: steady_defs)

lemma after_restart:
  assumes "keeps (b\<lparr>lb_active := n\<rparr>) b3" "keeps (b3\<lparr>lb_restarting := False\<rparr>) b4"
  shows "keeps (b\<lparr>lb_active := n, lb_restarting := False\<rparr>) b4"
  using assms by (simp add: keeps_def)

lemma Infer_steady:
  assumes "Infer_llama env b s req = (b', s', r)" "llama_inv b"
  shows "steady b b' \<and> (\<forall>resp. r = Inr resp \<longrightarrow> ModelTier resp = TierLabel (lb_desc b))"
proof -
  obtain b1 s1 r1 where E: "ensureRunning env b s = (b1, s1, r1)" by (metis prod_cases3)
  note ES = ensureRunning_spec [OF E assms(2)]
  show ?thesis
  proof (cases r1)
    case (Inl e)
    with assms(1) E ES show ?thesis by (auto simp: Infer_llama_def intro: steady_keeps)
  next
    case (Inr url)
    define b2 where "b2 = b1\<lparr>lb_active := lb_active b1 + 1\<rparr>"
    obtain b3 s3 r3 where R: "runComplete env b2 s1 url req = (b3, s3, r3)" by (metis prod_cases3)
    have i2: "llama_inv b2" using ES by (simp add: b2_def enter_inv)
    note RS = runComplete_spec [OF R i2]
    have out: "steady b (leave b3) \<and> steady b (leave (recordTokSample x c b3)) \<and> lb_desc b3 = lb_desc b" for x c
      using steady_leave(1) [of b3 b1] steady_leave(2) [of b3 b1 x c] steady_via [of b b1] RS ES by (simp add: b2_def keeps_def)
    note P = assms(1) [unfolded Infer_llama_def E Inr prod.case sum.case Let_def b2_def [symmetric] R]
    show ?thesis
    proof (cases r3)
      case (Inr resp)
      with P out show ?thesis by auto
    next
      case err: (Inl e)
      show ?thesis
      proof (cases "isBackendErr e = Some ''unavailable''")
        case False
        with P err out show ?thesis by auto
      next
        case True
        obtain b4 s4 r4 where T: "restartSubprocess env b3 s3 = (b4, s4, r4)" by (metis prod_cases3)
        note TS = restart_spec [OF T conjunct1 [OF RS]]
        have k4: "keeps (b1\<lparr>lb_active := lb_active b1 + 1, lb_restarting := False\<rparr>) b4"
          using after_restart [of _ b1 b3 b4] RS TS by (simp add: b2_def)
        show ?thesis
        proof (cases r4)
          case (Inl e4)
          with P err True T steady_leave(1) [of b4 b1] steady_via [of b b1] k4 TS ES show ?thesis by auto
        next
          case ok: (Inr url4)
          obtain b5 s5 r5 where R5: "runComplete env b4 s4 url4 req = (b5, s5, r5)" by (metis prod_cases3)
          note RS5 = runComplete_spec [OF R5 conjunct1 [OF TS]]
          have out5: "steady b (leave b5) \<and> steady b (leave (recordTokSample x c b5)) \<and> lb_desc b5 = lb_desc b" for x c
            using steady_leave(1) [of b5 b1] steady_leave(2) [of b5 b1 x c] steady_via [of b b1] RS5 ES keeps_trans [OF k4, of b5] by (simp add: keeps_def)
          with P err True T ok R5 show ?thesis by (cases r5) auto
        qed
      qed
    qed
  qed
qed

text \<open>Where the pieces of a stream come from, and what the call leaves.\<close>

definition fromOneRun :: "'w llamaEnv \<Rightarrow> Request \<Rightarrow> chunk list \<Rightarrow> Response \<Rightarrow> go_error option \<Rightarrow> bool" where
  "fromOneRun env req chunks resp err =
     (chunks = [] \<or> (\<exists>b s url b' s' resp0. runCompleteStream env b s url req = (b', s', chunks, resp0, err)
        \<and> resp = resp0\<lparr>ModelTier := ModelTier resp\<rparr>))"

lemma run_unavailable: "runCompleteStream env b s url req = (b', s', chunks, resp, Some e) \<Longrightarrow> isBackendErr e = Some ''unavailable'' \<Longrightarrow> chunks = []"
  by (auto simp: runCompleteStream_def Let_def split: if_splits prod.splits dest: stream_unavailable)

lemma run_coded: "runCompleteStream env b s url req = (b', s', chunks, resp, Some e) \<Longrightarrow> isBackendErr e \<in> Some ` clientCodes"
  by (auto simp: runCompleteStream_def Let_def split: if_splits prod.splits dest: stream_coded)

lemma loadFailed_code: "isBackendErr e = Some ''model_load_failed'' \<Longrightarrow> isBackendErr e \<in> Some ` clientCodes"
  by (simp add: clientCodes_def)

lemma InferStream_steady:
  assumes "InferStream_llama env b s req = (b', s', chunks, resp, err)" "llama_inv b"
  shows "steady b b' \<and> fromOneRun env req chunks resp err \<and> (\<forall>e. err = Some e \<longrightarrow> isBackendErr e \<in> Some ` clientCodes)
    \<and> (chunks \<noteq> [] \<or> err = None \<longrightarrow> ModelTier resp = TierLabel (lb_desc b))"
proof -
  obtain b1 s1 r1 where E: "ensureRunning env b s = (b1, s1, r1)" by (metis prod_cases3)
  note ES = ensureRunning_spec [OF E assms(2)]
  show ?thesis
  proof (cases r1)
    case (Inl e)
    with assms(1) E ES show ?thesis by (auto simp: InferStream_llama_def fromOneRun_def clientCodes_def intro: steady_keeps)
  next
    case (Inr url)
    define b2 where "b2 = b1\<lparr>lb_active := lb_active b1 + 1\<rparr>"
    obtain b3 s3 c3 p3 e3 where R: "runCompleteStream env b2 s1 url req = (b3, s3, c3, p3, e3)" by (metis prod_cases5)
    have i2: "llama_inv b2" using ES by (simp add: b2_def enter_inv)
    note RS = runCompleteStream_spec [OF R i2]
    have out: "steady b (leave b3) \<and> steady b (leave (recordTokSample x c b3)) \<and> lb_desc b3 = lb_desc b" for x c
      using steady_leave(1) [of b3 b1] steady_leave(2) [of b3 b1 x c] steady_via [of b b1] RS ES by (simp add: b2_def keeps_def)
    have one: "fromOneRun env req c3 (p3\<lparr>ModelTier := t\<rparr>) e3" for t
      unfolding fromOneRun_def by (intro disjI2 exI [of _ b2] exI [of _ s1] exI [of _ url] exI [of _ b3] exI [of _ s3] exI [of _ p3]) (simp add: R)
    note P = assms(1) [unfolded InferStream_llama_def E Inr prod.case sum.case Let_def b2_def [symmetric] R]
    show ?thesis
    proof (cases e3)
      case None
      with P out one show ?thesis by auto
    next
      case err: (Some e)
      show ?thesis
      proof (cases "isBackendErr e = Some ''unavailable'' \<and> c3 = []")
        case False
        with P err out one run_coded [OF R [unfolded err]] show ?thesis by auto
      next
        case True
        obtain b4 s4 r4 where T: "restartSubprocess env b3 s3 = (b4, s4, r4)" by (metis prod_cases3)
        note TS = restart_spec [OF T conjunct1 [OF RS]]
        have k4: "keeps (b1\<lparr>lb_active := lb_active b1 + 1, lb_restarting := False\<rparr>) b4"
          using after_restart [of _ b1 b3 b4] RS TS by (simp add: b2_def)
        show ?thesis
        proof (cases r4)
          case (Inl e4)
          with P err True T steady_leave(1) [of b4 b1] steady_via [of b b1] k4 TS ES loadFailed_code [of e4] show ?thesis
            by (auto simp: fromOneRun_def)
        next
          case ok: (Inr url4)
          obtain b5 s5 c5 p5 e5 where R5: "runCompleteStream env b4 s4 url4 req = (b5, s5, c5, p5, e5)" by (metis prod_cases5)
          note RS5 = runCompleteStream_spec [OF R5 conjunct1 [OF TS]]
          have out5: "steady b (leave b5) \<and> steady b (leave (recordTokSample x c b5)) \<and> lb_desc b5 = lb_desc b" for x c
            using steady_leave(1) [of b5 b1] steady_leave(2) [of b5 b1 x c] steady_via [of b b1] RS5 ES keeps_trans [OF k4, of b5] by (simp add: keeps_def)
          have one5: "fromOneRun env req c5 (p5\<lparr>ModelTier := t\<rparr>) e5" for t
            unfolding fromOneRun_def by (intro disjI2 exI [of _ b4] exI [of _ s4] exI [of _ url4] exI [of _ b5] exI [of _ s5] exI [of _ p5]) (simp add: R5)
          from P err True T ok R5 out5 one5 show ?thesis
          proof (cases e5)
            case (Some x)
            with P err True T ok R5 out5 one5 run_coded [OF R5 [unfolded Some]] show ?thesis by auto
          qed auto
        qed
      qed
    qed
  qed
qed

lemma Tokenize_steady:
  assumes "Tokenize_llama env b s txt = (b', s', r)" "llama_inv b"
  shows "steady b b'"
proof -
  obtain b1 s1 r1 where E: "ensureRunning env b s = (b1, s1, r1)" by (metis prod_cases3)
  note ES = ensureRunning_spec [OF E assms(2)]
  have "b' = b1 \<or> (\<exists>s2 r3. \<exists>s3. ensureRunning env (b1\<lparr>lb_ready := False, lb_proc := None\<rparr>) s2 = (b', s3, r3))"
    using assms(1) E by (cases r1) (auto simp: Tokenize_llama_def split: prod.splits sum.splits if_splits)
  then show ?thesis
  proof
    assume "b' = b1"
    with ES show ?thesis by (auto intro: steady_keeps)
  next
    assume "\<exists>s2 r3. \<exists>s3. ensureRunning env (b1\<lparr>lb_ready := False, lb_proc := None\<rparr>) s2 = (b', s3, r3)"
    then obtain s2 r3 s3 where E3: "ensureRunning env (b1\<lparr>lb_ready := False, lb_proc := None\<rparr>) s2 = (b', s3, r3)" by blast
    have "keeps b1 (b1\<lparr>lb_ready := False, lb_proc := None\<rparr>)" by (simp add: keeps_def tuned_def)
    with ensureRunning_spec [OF E3] ES stopped_inv(2) [of b1] show ?thesis by (blast intro: steady_keeps keeps_trans)
  qed
qed

section \<open>The life of a tier\<close>

inductive llama_step :: "'w llamaEnv \<Rightarrow> llama \<times> 'w sys \<Rightarrow> llama \<times> 'w sys \<Rightarrow> bool" for env where
  setLayers: "llama_step env (b, s) (SetNextGPULayers_llama n b, s)"
| setVision: "llama_step env (b, s) (SetNextNeedsVision_llama v b, s)"
| infer: "Infer_llama env b s req = (b', s', r) \<Longrightarrow> llama_step env (b, s) (b', s')"
| stream: "InferStream_llama env b s req = (b', s', x) \<Longrightarrow> llama_step env (b, s) (b', s')"
| tokenise: "Tokenize_llama env b s txt = (b', s', r) \<Longrightarrow> llama_step env (b, s) (b', s')"
| nctx: "NCtx_llama env b s = (b', s', r) \<Longrightarrow> llama_step env (b, s) (b', s')"
| shutdown: "Shutdown_llama env b s = (b', s', e) \<Longrightarrow> llama_step env (b, s) (b', s')"
| resident: "ResidentMB_llama env b s = (b', s', m) \<Longrightarrow> llama_step env (b, s) (b', s')"
| elsewhere: "llama_step env (b, s) (b, s')"

lemma llama_step_settled:
  assumes "llama_step env (b, s) (b', s')" "llama_inv b"
  shows "settled b b'"
  using assms(1)
proof (cases rule: llama_step.cases)
  case setLayers
  with assms(2) show ?thesis by (simp add: SetNextGPULayers_llama_def settled_def llama_inv_def ring_ok_def portOf_def describes_def)
next
  case setVision
  with assms(2) show ?thesis by (simp add: SetNextNeedsVision_llama_def settled_def llama_inv_def ring_ok_def portOf_def describes_def)
next
  case infer
  then show ?thesis using Infer_steady assms(2) unfolding steady_def by blast
next
  case (stream req x)
  then show ?thesis using InferStream_steady assms(2) unfolding steady_def by (metis prod_cases3)
next
  case tokenise
  then show ?thesis using Tokenize_steady assms(2) unfolding steady_def by blast
next
  case nctx
  then show ?thesis using NCtx_spec [OF _ assms(2)] steady_keeps unfolding steady_def by blast
next
  case shutdown
  then have "b' = b\<lparr>lb_proc := None, lb_ready := False, lb_residentMB := 0, lb_nCtx := 0\<rparr>"
    by (auto simp: Shutdown_llama_def Let_def split: option.splits prod.splits)
  with assms(2) show ?thesis by (simp add: settled_def llama_inv_def ring_ok_def)
next
  case resident
  then have "b' = b \<or> b' = b\<lparr>lb_ready := False, lb_residentMB := 0\<rparr>"
    by (auto simp: ResidentMB_llama_def split: option.splits prod.splits if_splits bool.splits)
  with assms(2) show ?thesis by (auto simp: settled_def llama_inv_def ring_ok_def)
next
  case elsewhere
  with assms(2) show ?thesis by (simp add: settled_def)
qed

lemma New_llama_inv: "llama_inv (New_llama desc exe n)"
  by (simp add: New_llama_def llama_inv_def ring_ok_def tokRingSize_def)

text \<open>
  C34. The bookkeeping describes the subprocess. Whatever sequence of requests, mode changes, token
  counts, evictions and liveness checks a tier goes through, each of them failing or not, whenever the
  tier counts as ready its process was started from this tier's file, with the projector exactly in
  vision mode and with the configured number of slots, and the recorded memory is the estimate for
  exactly the layers that process was given. Between calls no request is counted as running and no
  start or restart as pending.
\<close>

theorem llama_invariant:
  assumes "(llama_step env)\<^sup>*\<^sup>* (New_llama desc exe n, s0) (b, s)"
  shows "lb_desc b = desc \<and> lb_active b = 0 \<and> \<not> lb_starting b \<and> \<not> lb_restarting b
    \<and> (lb_ready b \<longrightarrow> lb_baseURL b = baseURLOf (portOf b) \<and> (\<forall>p. lb_proc b = Some p \<longrightarrow> describes b p))"
proof -
  have "settled (New_llama desc exe n) (fst x)" if "(llama_step env)\<^sup>*\<^sup>* (New_llama desc exe n, s0) x" for x
    using that
  proof (induction rule: rtranclp_induct)
    case base
    then show ?case by (simp add: settled_def New_llama_inv)
  next
    case (step y z)
    then have "settled (fst y) (fst z)" using llama_step_settled [of env "fst y" "snd y" "fst z" "snd z"] by (simp add: settled_def)
    with step.IH show ?case by (auto simp: settled_def)
  qed
  from this [OF assms] show ?thesis by (auto simp: settled_def llama_inv_def New_llama_def)
qed

text \<open>
  C35. Nothing is shown twice. When a streaming call has shown the user anything, all of it came from
  one single run against the subprocess, the response is that run's response, and the tier that served
  it is named even if the run broke off; every failure carries a code of the interface.
\<close>

theorem stream_never_repeats:
  assumes "InferStream_llama env b s req = (b', s', chunks, resp, err)" and "llama_inv b"
  shows "fromOneRun env req chunks resp err \<and> (\<forall>e. err = Some e \<longrightarrow> isBackendErr e \<in> Some ` clientCodes)
    \<and> (chunks \<noteq> [] \<longrightarrow> ModelTier resp = TierLabel (lb_desc b)) \<and> lb_active b' = lb_active b"
  using InferStream_steady [OF assms] by (auto simp: steady_def settled_def)

section \<open>The rolling average\<close>

definition normalised :: "(rat \<times> int) list \<Rightarrow> rat list" where
  "normalised xs = map (\<lambda>(x, c). x * of_int (max 1 c)) (filter (\<lambda>(x, c). x > 0) xs)"

text \<open>A counted sample goes into the ring.\<close>

definition pushTok :: "rat \<Rightarrow> llama \<Rightarrow> llama" where
  "pushTok y b = b\<lparr>lb_tokRing := (lb_tokRing b)[lb_tokHead b := y], lb_tokHead := (lb_tokHead b + 1) mod tokRingSize,
     lb_tokN := (if lb_tokN b < tokRingSize then lb_tokN b + 1 else lb_tokN b)\<rparr>"

interpretation speed: sample_ring tokRingSize lb_tokRing lb_tokHead lb_tokN pushTok TokPerSec_llama
  by unfold_locales (simp_all add: pushTok_def TokPerSec_llama_def tokRingSize_def)

lemma recordTokSample_push:
  "recordTokSample x c b = (if x \<le> 0 then b else pushTok (x * of_int (max 1 c)) b)"
  by (simp add: recordTokSample_def pushTok_def max_def)

text \<open>
  C36. The speed a tier reports is the average over its last ten completions, each scaled by the number of
  requests that ran beside it; samples without a rate do not count, and a tier that has not completed
  anything reports zero. The ring of ten slots implements this list of samples.
\<close>

theorem tok_rate_refines:
  "TokPerSec_llama (fold (\<lambda>(x, c). recordTokSample x c) xs (New_llama desc exe n)) = average (lastn 10 (normalised xs))"
proof -
  have "speed.holds (fold (\<lambda>(x, c). recordTokSample x c) xs (New_llama desc exe n)) (normalised xs)"
  proof (induction xs rule: rev_induct)
    case Nil
    then show ?case by (simp add: normalised_def) (rule speed.holds_empty, simp_all add: New_llama_def)
  next
    case (snoc x xs)
    then show ?case by (cases x) (auto simp: normalised_def recordTokSample_push intro: speed.holds_push)
  qed
  from speed.rate_average [OF this] show ?thesis by (simp add: tokRingSize_def)
qed

section \<open>The token budget\<close>

text \<open>
  An answer is given room, and only the room there is. A cap the caller chose is used as it is;
  otherwise the cap is at least one token, and when the context size and the prompt's tokens are known
  and prompt, turn markers and the reserved tenth leave room, the cap fills exactly what is left, so the
  answer cannot overrun the context.
\<close>

lemma chat_budget_fits:
  assumes "resolveChatMaxTokens env b s url req = (b', s', n)"
  shows "(MaxTokens req > 0 \<longrightarrow> n = MaxTokens req) \<and> 1 \<le> n
    \<and> (\<forall>b1 s1 nCtx s2 x t. \<not> MaxTokens req > 0 \<and> NCtx_llama env b s = (b1, s1, Inr nCtx) \<and> 0 < nCtx
         \<and> do_call (le_tokenize env url (joinLines (map Content (Messages req)))) s1 = (s2, x) \<and> tokenize x = Inr t
         \<and> t + 8 * int (length (Messages req)) + nCtx div 10 < nCtx
       \<longrightarrow> t + 8 * int (length (Messages req)) + n + nCtx div 10 = nCtx)"
proof (intro conjI allI impI)
  show "n = MaxTokens req" if "MaxTokens req > 0" using assms that by (simp add: resolveChatMaxTokens_def)
  show "1 \<le> n" using assms
    by (auto simp: resolveChatMaxTokens_def defaultChatMaxTokens_def Let_def split: if_splits prod.splits sum.splits)
next
  fix b1 s1 nCtx s2 x t
  assume a: "\<not> MaxTokens req > 0 \<and> NCtx_llama env b s = (b1, s1, Inr nCtx) \<and> 0 < nCtx
         \<and> do_call (le_tokenize env url (joinLines (map Content (Messages req)))) s1 = (s2, x) \<and> tokenize x = Inr t
         \<and> t + 8 * int (length (Messages req)) + nCtx div 10 < nCtx"
  have "nCtx * chatMaxTokensSafetyMarginPct sdiv 100 = nCtx div 10"
    using a by (simp add: chatMaxTokensSafetyMarginPct_def sdiv_nonneg) 
  with a assms show "t + 8 * int (length (Messages req)) + n + nCtx div 10 = nCtx"
    by (auto simp: resolveChatMaxTokens_def Let_def split: if_splits)
qed

section \<open>A concrete tier\<close>

definition exampleChatStream :: streamBody where
  "exampleChatStream = \<lparr>st_lines = [''data: b''], st_scanErr = True, st_ctxErr = False\<rparr>"

definition exampleLlamaEnv :: "bool llamaEnv" where
  "exampleLlamaEnv = \<lparr>le_os = exampleOs, le_avail = None, le_completion = (\<lambda>_ _ w. (w, 5, DoFailed False)),
     le_completionStream = (\<lambda>_ _ w. (w, 5, DoFailed False)), le_chat = (\<lambda>_ _ w. (w, 5, Answer 200 '''' (Some exampleAnswer))),
     le_chatStream = (\<lambda>_ _ w. (w, 5, Answer 200 '''' (Some exampleChatStream))), le_tokenize = (\<lambda>_ t w. (w, 1, Answer 200 '''' (Some (replicate (length t) 0)))),
     le_props = (\<lambda>_ w. (w, 1, Answer 200 '''' (Some \<lparr>pr_NCtx = 4096, pr_SlotNCtx = 2048\<rparr>))), le_decode = (\<lambda>_. None), le_decodeChat = exampleDecode\<rparr>"

definition exampleLlama :: llama where "exampleLlama = New_llama exampleStrong ''llama-server'' 2"

definition exampleChatReq :: Request where
  "exampleChatReq = zeroRequest\<lparr>Messages := [userTurn ''user'' ''hello''], MaxTokens := 64\<rparr>"

text \<open>The stream breaks off after one piece; the second is never sent.\<close>

lemma example_stream:
  assumes "ensureRunning exampleLlamaEnv exampleLlama s = (b1, s1, Inr url)"
  shows "\<exists>b' s' resp e. InferStream_llama exampleLlamaEnv exampleLlama s exampleChatReq = (b', s', [(ChunkContent, ''Hel'')], resp, Some e)"
proof -
  have "chatCompleteStream exampleDecode (Answer 200 '''' (Some exampleChatStream))
      = ([(ChunkContent, ''Hel'')], zeroResponse, Some (BackendError ''internal_error'' (Some (PlainError ''read''))))"
    by (simp add: chatCompleteStream_def readReply_def exampleChatStream_def exampleDecode_def has_prefix_def trim_prefix_def scanError_def sawDone_def
        chatStreamStep_def chatStreamStart_def exampleChunk_def)
  then show ?thesis using assms
    by (simp add: InferStream_llama_def runCompleteStream_def chatShape_def exampleChatReq_def resolveChatMaxTokens_def Let_def)
       (simp add: exampleLlamaEnv_def do_call_def)
qed

lemma example_ensure: "\<exists>b1 s1 url. ensureRunning exampleLlamaEnv exampleLlama \<lparr>clock = 0, ext = False\<rparr> = (b1, s1, Inr url)"
proof -
  have "\<exists>p' s'. Start exampleOs (newProcess ''llama-server'' f m t g p n) \<lparr>clock = 0, ext = False\<rparr> = (p', s', None)" for f m t g p n
    by (simp add: Start_def do_call_def exampleOs_def newProcess_def Let_def startDeadline_def)
       (simp add: healthLoop.simps do_call_def propsReady_def healthPoll_def)
  then obtain p' s' where St: "Start (le_os exampleLlamaEnv) (newProcess (lb_exe exampleLlama) (FilePath (lb_desc exampleLlama)) ''''
      (TierLabel (lb_desc exampleLlama)) (-1) (portOf exampleLlama) (lb_maxParallel exampleLlama)) \<lparr>clock = 0, ext = False\<rparr> = (p', s', None)"
    by (metis (no_types, lifting) exampleLlamaEnv_def exampleLlama_def New_llama_def llama.select_convs(2) llamaEnv.select_convs(1))
  have "\<not> lb_ready exampleLlama" "\<not> lb_nextNeedsVision exampleLlama" "\<not> lb_nextGPULayersSet exampleLlama" "le_avail exampleLlamaEnv = None"
    by (simp_all add: exampleLlama_def New_llama_def exampleLlamaEnv_def)
  with St show ?thesis by (simp add: ensureRunning_def spawn_def spawnLayers_def Let_def)
qed

theorem stream_never_repeats_witness:
  "\<exists>b' s' resp e. InferStream_llama exampleLlamaEnv exampleLlama \<lparr>clock = 0, ext = False\<rparr> exampleChatReq = (b', s', [(ChunkContent, ''Hel'')], resp, Some e)
     \<and> ModelTier resp = TierStrong"
proof -
  obtain b' s' resp e where I: "InferStream_llama exampleLlamaEnv exampleLlama \<lparr>clock = 0, ext = False\<rparr> exampleChatReq
      = (b', s', [(ChunkContent, ''Hel'')], resp, Some e)" using example_ensure example_stream by blast
  have "llama_inv exampleLlama" "TierLabel (lb_desc exampleLlama) = TierStrong"
    by (simp_all add: exampleLlama_def New_llama_inv) (simp add: New_llama_def exampleStrong_def)
  with stream_never_repeats [OF I] I show ?thesis by simp
qed

theorem llama_invariant_witness:
  "\<exists>b s. (llama_step exampleLlamaEnv)\<^sup>*\<^sup>* (New_llama exampleStrong ''llama-server'' 2, \<lparr>clock = 0, ext = False\<rparr>) (b, s) \<and> lb_active b = 0 \<and> \<not> lb_restarting b"
proof -
  obtain b' s' resp e where I: "InferStream_llama exampleLlamaEnv exampleLlama \<lparr>clock = 0, ext = False\<rparr> exampleChatReq
      = (b', s', [(ChunkContent, ''Hel'')], resp, Some e)" using example_ensure example_stream by blast
  have r: "(llama_step exampleLlamaEnv)\<^sup>*\<^sup>* (New_llama exampleStrong ''llama-server'' 2, \<lparr>clock = 0, ext = False\<rparr>) (b', s')"
    using llama_step.stream [OF I] by (simp add: exampleLlama_def)
  with llama_invariant [OF r] show ?thesis by blast
qed

lemma chat_budget_fits_witness:
  "snd (snd (resolveChatMaxTokens exampleLlamaEnv (exampleLlama\<lparr>lb_nCtx := 2048\<rparr>) \<lparr>clock = 0, ext = True\<rparr> ''u'' (exampleChatReq\<lparr>MaxTokens := 0\<rparr>))) = 1831"
proof -
  let ?b = "exampleLlama\<lparr>lb_nCtx := 2048\<rparr>" and ?s = "\<lparr>clock = 0, ext = True\<rparr>" and ?req = "exampleChatReq\<lparr>MaxTokens := 0\<rparr>"
  obtain b' s' n where R: "resolveChatMaxTokens exampleLlamaEnv ?b ?s ''u'' ?req = (b', s', n)" by (metis prod_cases3)
  have N: "NCtx_llama exampleLlamaEnv ?b ?s = (?b, ?s, Inr 2048)" by (simp add: NCtx_llama_def)
  obtain s2 x where T: "do_call (le_tokenize exampleLlamaEnv ''u'' (joinLines (map Content (Messages ?req)))) ?s = (s2, x)" "tokenize x = Inr 5"
    by (simp add: do_call_def exampleLlamaEnv_def exampleChatReq_def userTurn_def tokenize_def readReply_def)
  have m: "length (Messages ?req) = 1" "MaxTokens ?req = 0" by (simp_all add: exampleChatReq_def)
  from chat_budget_fits [OF R] N T m have "5 + 8 * int (length (Messages ?req)) + n + 2048 div 10 = 2048" by auto
  with m R show ?thesis by simp
qed

end
