(* ===== verification/Llama_Inner.thy ===== *)
theory Llama_Inner
  imports Llama_Backend Vram_Backend
begin

text \<open>
  The llama.cpp tiers under the VRAM backend, as \<open>src/cmd/server/main.go\<close> puts them together: one
  backend per tier, all behind the interface the VRAM backend calls. The world of that interface holds
  the state of every tier and what lies outside the program.
\<close>

record 'v gpu =
  g_tiers :: "ModelTierLabel \<Rightarrow> llama"
  g_ext :: 'v

text \<open>An operation of one tier as a call on that world; it sees a clock that starts with the call.\<close>

definition onTier :: "ModelTierLabel \<Rightarrow> (llama \<Rightarrow> 'v sys \<Rightarrow> llama \<times> 'v sys \<times> 'r) \<Rightarrow> ('v gpu, 'r) call" where
  "onTier l f w =
     (case f (g_tiers w l) \<lparr>clock = 0, ext = g_ext w\<rparr> of
        (b, s, r) \<Rightarrow> (\<lparr>g_tiers = (g_tiers w)(l := b), g_ext = ext s\<rparr>, nat (clock s), r))"

definition setTier :: "ModelTierLabel \<Rightarrow> (llama \<Rightarrow> llama) \<Rightarrow> 'v gpu \<Rightarrow> 'v gpu" where
  "setTier l f w = w\<lparr>g_tiers := (g_tiers w)(l := f (g_tiers w l))\<rparr>"

definition llamaInner :: "'v llamaEnv \<Rightarrow> ModelTierLabel \<Rightarrow> 'v gpu inner_backend" where
  "llamaInner env l =
     \<lparr>inInfer = (\<lambda>req. onTier l (\<lambda>b s. Infer_llama env b s req)),
      inShutdown = onTier l (Shutdown_llama env),
      SetNextGPULayers = Some (\<lambda>n. setTier l (SetNextGPULayers_llama n)),
      SetNextNeedsVision = Some (\<lambda>v. setTier l (SetNextNeedsVision_llama v)),
      inTokPerSec = Some (\<lambda>w. TokPerSec_llama (g_tiers w l)),
      inInferStream = Some (\<lambda>req. onTier l (\<lambda>b s. case InferStream_llama env b s req of
         (b', s', chunks, resp, err) \<Rightarrow> (b', s', chunks, case err of None \<Rightarrow> Inr resp | Some e \<Rightarrow> Inl e))),
      inRestarting = Some (\<lambda>w. lb_restarting (g_tiers w l)),
      inResidentMB = Some (\<lambda>w. snd (snd (ResidentMB_llama env (g_tiers w l) \<lparr>clock = 0, ext = g_ext w\<rparr>))),
      inTokenize = Some (\<lambda>txt. onTier l (\<lambda>b s. Tokenize_llama env b s txt)),
      inNCtx = Some (onTier l (NCtx_llama env))\<rparr>"

lemma onTier_state:
  assumes "do_call (onTier l f) s = (s', r)" "f (g_tiers (ext s) l) \<lparr>clock = 0, ext = g_ext (ext s)\<rparr> = (b, s1, r1)"
  shows "g_tiers (ext s') = (g_tiers (ext s))(l := b)" "r = r1"
  using assms by (auto simp: do_call_def onTier_def)

lemma onTier_others: "do_call (onTier l f) s = (s', r) \<Longrightarrow> l' \<noteq> l \<Longrightarrow> g_tiers (ext s') l' = g_tiers (ext s) l'"
  by (auto simp: do_call_def onTier_def split: prod.splits)

lemma loadModel_tunes:
  assumes "loadModel b s d layers vision = (b1, s1, None)" "map_of (inners b) (TierLabel d) = Some (llamaInner env (TierLabel d))"
  shows "g_tiers (ext s1) (TierLabel d) = SetNextNeedsVision_llama vision (SetNextGPULayers_llama layers (g_tiers (ext s) (TierLabel d)))
    \<and> loadedLayers b1 = layers \<and> loadedVision b1 = vision"
  using assms by (auto simp: loadModel_def Let_def llamaInner_def setTier_def split: if_splits)

text \<open>
  C37. The two sets of books agree. When the VRAM backend loads a tier that is not running and the first
  request has gone through the tier's own backend, answered or not, then, if the tier is up, its
  subprocess runs with exactly the layers and the mode the VRAM backend decided on, and the memory the
  tier reports is exactly the memory the VRAM backend books for it; an answer names that tier.
\<close>

theorem books_agree:
  assumes "loadModel b s d layers vision = (b1, s1, None)" and "map_of (inners b) (TierLabel d) = Some (llamaInner env (TierLabel d))"
    and "llama_inv (g_tiers (ext s) (TierLabel d))" and "\<not> lb_ready (g_tiers (ext s) (TierLabel d))"
    and "lb_desc (g_tiers (ext s) (TierLabel d)) = d" and "lb_maxParallel (g_tiers (ext s) (TierLabel d)) = MaxParallel (opts b)"
    and "do_call (inInfer (llamaInner env (TierLabel d)) req) s1 = (s2, r)"
  shows "(lb_ready (g_tiers (ext s2) (TierLabel d)) \<longrightarrow>
       (\<exists>p. lb_proc (g_tiers (ext s2) (TierLabel d)) = Some p \<and> p_gpuLayers p = loadedLayers b1
          \<and> p_mmprojPath p = (if loadedVision b1 then MMProjPath d else ''''))
       \<and> lb_residentMB (g_tiers (ext s2) (TierLabel d)) = residentOf d (loadedLayers b1) (loadedVision b1) (MaxParallel (opts b)))
    \<and> (\<forall>resp. r = Inr resp \<longrightarrow> ModelTier resp = TierLabel d)"
proof -
  let ?l = "TierLabel d"
  let ?b0 = "SetNextNeedsVision_llama vision (SetNextGPULayers_llama layers (g_tiers (ext s) ?l))"
  note T = loadModel_tunes [OF assms(1,2)]
  have inv0: "llama_inv ?b0" using assms(3) by (simp add: SetNextNeedsVision_llama_def SetNextGPULayers_llama_def llama_inv_def ring_ok_def portOf_def describes_def)
  have tuned0: "tuned ?b0" "lb_nextGPULayers ?b0 = layers" "lb_nextNeedsVision ?b0 = vision" "lb_desc ?b0 = d" "lb_maxParallel ?b0 = MaxParallel (opts b)"
    using assms(4-6) by (simp_all add: SetNextNeedsVision_llama_def SetNextGPULayers_llama_def tuned_def)
  obtain b2 s2' r2 where I: "Infer_llama env ?b0 \<lparr>clock = 0, ext = g_ext (ext s1)\<rparr> req = (b2, s2', r2)" by (metis prod_cases3)
  have "do_call (onTier ?l (\<lambda>b s. Infer_llama env b s req)) s1 = (s2, r)" using assms(7) by (simp add: llamaInner_def)
  note O = onTier_state [OF this, unfolded conjunct1 [OF T], OF I]
  note S = Infer_steady [OF I inv0]
  have b2: "g_tiers (ext s2) ?l = b2" using O(1) by simp
  from S tuned0 have K: "llama_inv b2" "tuned b2" "lb_desc b2 = d" "lb_nextGPULayers b2 = layers" "lb_nextNeedsVision b2 = vision"
    "lb_maxParallel b2 = MaxParallel (opts b)" by (simp_all add: steady_def settled_def)
  show ?thesis
  proof (intro conjI impI allI)
    assume "lb_ready (g_tiers (ext s2) ?l)"
    then have rd: "lb_ready b2" using b2 by simp
    with K(2) obtain p where p: "lb_proc b2 = Some p" "p_gpuLayers p = layers" "lb_runningWithVision b2 = vision"
      unfolding tuned_def K(4,5) by blast
    with K(1) rd have D: "describes b2 p" by (simp add: llama_inv_def)
    show "\<exists>p. lb_proc (g_tiers (ext s2) ?l) = Some p \<and> p_gpuLayers p = loadedLayers b1 \<and> p_mmprojPath p = (if loadedVision b1 then MMProjPath d else '''')"
      using p D T K b2 by (intro exI [of _ p]) (simp add: describes_def)
    show "lb_residentMB (g_tiers (ext s2) ?l) = residentOf d (loadedLayers b1) (loadedVision b1) (MaxParallel (opts b))"
      using p D T K b2 by (simp add: describes_def)
  next
    fix resp
    assume "r = Inr resp"
    with S O(2) tuned0 show "ModelTier resp = TierLabel d" by simp
  qed
qed

text \<open>The error codes of a tier's stream are never empty, as the streaming endpoint needs.\<close>

lemma llamaInner_coded:
  assumes "llama_inv (g_tiers w l)" "the (inInferStream (llamaInner env l)) req w = (w', dt, chunks, Inl e)"
  shows "isBackendErr e \<in> Some ` clientCodes"
proof -
  obtain b' s' c resp err where I: "InferStream_llama env (g_tiers w l) \<lparr>clock = 0, ext = g_ext w\<rparr> req = (b', s', c, resp, err)" by (metis prod_cases5)
  with assms(2) have "err = Some e" by (auto simp: llamaInner_def onTier_def split: option.splits)
  with InferStream_steady [OF I assms(1)] show ?thesis by blast
qed

section \<open>A concrete tier under the VRAM backend\<close>

definition exampleGpu :: "bool gpu" where
  "exampleGpu = \<lparr>g_tiers = (\<lambda>_. exampleLlama), g_ext = False\<rparr>"

definition exampleVram :: "bool gpu Backend" where
  "exampleVram = New_Backend ''text'' [exampleStrong] (\<lambda>w. (w, 1, Inr 8000)) [(TierStrong, llamaInner exampleLlamaEnv TierStrong)] DefaultOptions"

lemma exampleOs_any: "\<exists>p' s'. Start exampleOs (newProcess e f m t g p n) \<lparr>clock = 0, ext = False\<rparr> = (p', s', None)"
  by (simp add: Start_def do_call_def exampleOs_def newProcess_def Let_def startDeadline_def)
     (simp add: healthLoop.simps do_call_def propsReady_def healthPoll_def)

lemma example_load:
  assumes "\<not> lb_ready b" "lb_nextGPULayersSet b"
  shows "\<exists>b1 s1 url. ensureRunning exampleLlamaEnv b \<lparr>clock = 0, ext = False\<rparr> = (b1, s1, Inr url)"
proof -
  have os: "le_os exampleLlamaEnv = exampleOs" by (simp add: exampleLlamaEnv_def)
  obtain p' s' where "Start exampleOs (newProcess (lb_exe b) (FilePath (lb_desc b)) (if lb_nextNeedsVision b then MMProjPath (lb_desc b) else '''')
      (TierLabel (lb_desc b)) (lb_nextGPULayers b) (portOf b) (lb_maxParallel b)) \<lparr>clock = 0, ext = False\<rparr> = (p', s', None)"
    using exampleOs_any by blast
  with assms show ?thesis by (simp add: ensureRunning_def spawn_def spawnLayers_def Let_def os)
qed

lemma example_answer:
  assumes "ensureRunning exampleLlamaEnv b s = (b1, s1, Inr url)" "lb_ready b1"
  shows "\<exists>b' s' resp. Infer_llama exampleLlamaEnv b s exampleChatReq = (b', s', Inr resp) \<and> lb_ready b'"
proof -
  have "chatComplete (Answer 200 '''' (Some exampleAnswer)) = Inr (zeroResponse\<lparr>Output := ''Hello'', RespReasoning := ''hm'',
      TokensGenerated := 3, TokPerSecSample := 0, RespToolCalls := [], LengthLimited := False\<rparr>)"
    by (simp add: chatComplete_def readReply_def exampleAnswer_def tokRate_def fromWireToolCalls_def)
  with assms show ?thesis
    by (simp add: Infer_llama_def runComplete_def chatShape_def exampleChatReq_def resolveChatMaxTokens_def Let_def)
       (simp add: exampleLlamaEnv_def do_call_def recordTokSample_def leave_def)
qed

theorem books_agree_witness:
  "\<exists>b1 s1 s2 r. loadModel exampleVram \<lparr>clock = 0, ext = exampleGpu\<rparr> exampleStrong 20 False = (b1, s1, None)
     \<and> do_call (inInfer (llamaInner exampleLlamaEnv TierStrong) exampleChatReq) s1 = (s2, r)
     \<and> lb_ready (g_tiers (ext s2) TierStrong) \<and> lb_residentMB (g_tiers (ext s2) TierStrong) = residentOf exampleStrong 20 False 2"
proof -
  let ?s = "\<lparr>clock = 0, ext = exampleGpu\<rparr>" and ?l = TierStrong and ?d = exampleStrong
  have lbl: "TierLabel ?d = ?l" by (simp add: exampleStrong_def)
  have in1: "map_of (inners exampleVram) (TierLabel ?d) = Some (llamaInner exampleLlamaEnv (TierLabel ?d))"
    by (simp add: exampleVram_def New_Backend_def lbl)
  have nosim: "OOMSimulator (opts exampleVram) = None" "MaxParallel (opts exampleVram) = 2"
    by (simp_all add: exampleVram_def New_Backend_def DefaultOptions_def)
  obtain b1 s1 where L: "loadModel exampleVram ?s ?d 20 False = (b1, s1, None)"
    using nosim(1) by (simp add: loadModel_def Let_def)
  obtain s2 r where D: "do_call (inInfer (llamaInner exampleLlamaEnv ?l) exampleChatReq) s1 = (s2, r)" by fastforce
  let ?b0 = "SetNextNeedsVision_llama False (SetNextGPULayers_llama 20 exampleLlama)"
  have G: "g_tiers exampleGpu = (\<lambda>_. exampleLlama)" by (simp add: exampleGpu_def)
  have t: "g_tiers (ext s1) ?l = ?b0" and lay: "loadedLayers b1 = 20" "loadedVision b1 = False"
    using loadModel_tunes [OF L in1] by (simp_all add: lbl G)
  have g: "g_ext (ext s1) = False"
    using L in1 nosim by (auto simp: loadModel_def Let_def llamaInner_def setTier_def exampleGpu_def)
  have f: "\<not> lb_ready exampleLlama" "llama_inv exampleLlama" "lb_desc exampleLlama = ?d" "lb_maxParallel exampleLlama = 2"
    by (simp_all add: exampleLlama_def New_llama_inv) (simp_all add: New_llama_def)
  have b0: "\<not> lb_ready ?b0" "lb_nextGPULayersSet ?b0" "llama_inv ?b0"
    using f(1,2) by (simp_all add: SetNextNeedsVision_llama_def SetNextGPULayers_llama_def llama_inv_def ring_ok_def portOf_def describes_def)
  obtain e1 e2 url where E: "ensureRunning exampleLlamaEnv ?b0 \<lparr>clock = 0, ext = False\<rparr> = (e1, e2, Inr url)" using example_load [OF b0(1,2)] by blast
  have "lb_ready e1" using ensureRunning_spec [OF E b0(3)] by simp
  from example_answer [OF E this] obtain b' s' resp where I: "Infer_llama exampleLlamaEnv ?b0 \<lparr>clock = 0, ext = False\<rparr> exampleChatReq = (b', s', Inr resp)" "lb_ready b'"
    by blast
  have D': "do_call (onTier ?l (\<lambda>b s. Infer_llama exampleLlamaEnv b s exampleChatReq)) s1 = (s2, r)" using D by (simp add: llamaInner_def)
  have rd: "lb_ready (g_tiers (ext s2) ?l)" using onTier_state(1) [OF D', of b' s' "Inr resp"] I t g by simp
  have "lb_residentMB (g_tiers (ext s2) (TierLabel ?d)) = residentOf ?d (loadedLayers b1) (loadedVision b1) (MaxParallel (opts exampleVram))"
    using books_agree [OF L in1, of exampleChatReq s2 r] D rd f G nosim by (simp add: lbl)
  with L D rd lay nosim show ?thesis by (simp add: lbl)
qed

end
