(* ===== verification/His_Client.thy ===== *)
theory His_Client
  imports Server_Stream
begin

text \<open>
  The client library \<open>src/hisclient/hisclient.go\<close> and \<open>chats.go\<close>: requests, the error mapping, the JSON calls
  and the reader of event streams, with the bytes the server writes for a stream. The transport and
  the JSON codecs are arguments; a decoder's \<open>None\<close> is a decoding error. The scanner that splits the body into
  lines (\<open>bufio.Scanner\<close> with its token limit) is modelled here.
\<close>

section \<open>Requests and replies\<close>

record wireReq =
  wq_method :: string
  wq_url :: string
  wq_contentType :: string
  wq_accept :: string
  wq_apiKey :: string
  wq_body :: string

text \<open>\<open>wr_cut\<close>: the connection broke before the body's end, so reading past the received bytes is an error.\<close>

record wireResp =
  wr_status :: nat
  wr_degraded :: string
  wr_body :: string
  wr_cut :: bool

record ClientConf =
  c_baseURL :: string
  c_apiKey :: string

datatype clientError =
    APIError nat string string
  | RequestError
  | TransportError
  | DecodeError
  | ReadError
  | HandlerError string
  | EmptyID

type_synonym 'a cres = "clientError + 'a"

record StreamChunk =
  sc_RequestID :: string
  sc_CorrelationID :: string
  sc_Delta :: string
  sc_Reasoning :: string
  sc_Done :: bool
  sc_TokensGenerated :: int
  sc_TokensPerSec :: rat
  sc_QueueWaitMS :: int
  sc_InferenceMS :: int
  sc_DurationMS :: int
  sc_ModelTier :: string
  sc_Deferred :: bool
  sc_Error :: string
  sc_Truncated :: bool
  sc_ToolCall :: "ToolCallSummary option"

text \<open>
  The environment: which URLs \<open>http.NewRequest\<close> accepts, the transport (\<open>None\<close> is a failed round trip), and the
  codecs. \<open>ce_errOf\<close> is the code and message \<open>json.Unmarshal\<close> leaves in an \<open>ErrorResponse\<close>, empty when it
  fails; \<open>ce_resultURL\<close> is the printed \<open>result_url\<close> entry of a deferral body.
\<close>

record 'w clientEnv =
  ce_urlOk :: "string \<Rightarrow> bool"
  ce_do :: "wireReq \<Rightarrow> ('w, wireResp option) call"
  ce_request :: "InferRequest \<Rightarrow> string"
  ce_chunk :: "string \<Rightarrow> StreamChunk option"
  ce_infer :: "string \<Rightarrow> InferResponse option"
  ce_errOf :: "string \<Rightarrow> string \<times> string"
  ce_resultURL :: "string \<Rightarrow> string"

definition trimRightSlash :: "string \<Rightarrow> string" where
  "trimRightSlash s = rev (dropWhile (\<lambda>c. c = CHR ''/'') (rev s))"

definition WithAPIKey :: "string \<Rightarrow> ClientConf \<Rightarrow> ClientConf" where
  "WithAPIKey key c = c\<lparr>c_apiKey := key\<rparr>"

definition New_client :: "string \<Rightarrow> (ClientConf \<Rightarrow> ClientConf) list \<Rightarrow> ClientConf" where
  "New_client baseURL opts = fold (\<lambda>f c. f c) opts \<lparr>c_baseURL = trimRightSlash baseURL, c_apiKey = ''''\<rparr>"

text \<open>A nil body is \<open>None\<close>.\<close>

definition newRequest :: "'w clientEnv \<Rightarrow> ClientConf \<Rightarrow> string \<Rightarrow> string \<Rightarrow> string option \<Rightarrow> wireReq cres" where
  "newRequest env c method path body =
     (if \<not> ce_urlOk env (c_baseURL c @ path) then Inl RequestError
      else Inr \<lparr>wq_method = method, wq_url = c_baseURL c @ path,
             wq_contentType = (if body \<noteq> None then ''application/json'' else ''''), wq_accept = '''',
             wq_apiKey = c_apiKey c, wq_body = (case body of None \<Rightarrow> '''' | Some b \<Rightarrow> b)\<rparr>)"

definition errorFrom :: "'w clientEnv \<Rightarrow> wireResp \<Rightarrow> clientError" where
  "errorFrom env resp =
     (let raw = take 8192 (wr_body resp); (code, msg) = ce_errOf env raw
      in if code = '''' then APIError (wr_status resp) (''http_'' @ Itoa (int (wr_status resp))) (trim_space raw)
         else APIError (wr_status resp) code msg)"

definition APIErrorText :: "nat \<Rightarrow> string \<Rightarrow> string \<Rightarrow> string" where
  "APIErrorText st code msg =
     (if st > 0 then ''his: '' @ Itoa (int st) @ '' '' @ code @ '': '' @ msg else ''his: '' @ code @ '': '' @ msg)"

definition AsAPIError :: "clientError \<Rightarrow> (nat \<times> string \<times> string) option" where
  "AsAPIError e = (case e of APIError st code msg \<Rightarrow> Some (st, code, msg) | _ \<Rightarrow> None)"

text \<open>The decoder stands for \<open>out\<close>; a nil \<open>out\<close> is the decoder that ignores the body. The header the callers
  read is the degradation flag.\<close>

definition doJSON :: "'w clientEnv \<Rightarrow> 'w sys \<Rightarrow> wireReq \<Rightarrow> (string \<Rightarrow> 'o option) \<Rightarrow> 'w sys \<times> (string \<times> 'o) cres" where
  "doJSON env s req decode =
     (case do_call (ce_do env req) s of
        (s1, None) \<Rightarrow> (s1, Inl TransportError)
      | (s1, Some resp) \<Rightarrow>
          (s1, if wr_status resp < 200 \<or> 300 \<le> wr_status resp then Inl (errorFrom env resp)
               else case decode (wr_body resp) of None \<Rightarrow> Inl DecodeError | Some v \<Rightarrow> Inr (wr_degraded resp, v)))"

definition callJSON :: "'w clientEnv \<Rightarrow> ClientConf \<Rightarrow> 'w sys \<Rightarrow> string \<Rightarrow> string \<Rightarrow> string option \<Rightarrow> (string \<Rightarrow> 'o option) \<Rightarrow>
    'w sys \<times> (string \<times> 'o) cres" where
  "callJSON env c s method path body decode =
     (case newRequest env c method path body of
        Inl e \<Rightarrow> (s, Inl e) | Inr req \<Rightarrow> doJSON env s req decode)"

definition raw_call :: "'w clientEnv \<Rightarrow> 'w sys \<Rightarrow> wireReq \<Rightarrow> 'w sys \<times> (nat \<times> string) cres" where
  "raw_call env s req = (case do_call (ce_do env req) s of
     (s1, None) \<Rightarrow> (s1, Inl TransportError)
   | (s1, Some resp) \<Rightarrow> (s1, Inr (wr_status resp, take 65536 (wr_body resp))))"

definition RawGet :: "'w clientEnv \<Rightarrow> ClientConf \<Rightarrow> 'w sys \<Rightarrow> string \<Rightarrow> 'w sys \<times> (nat \<times> string) cres" where
  "RawGet env c s path = (case newRequest env c ''GET'' path None of Inl e \<Rightarrow> (s, Inl e) | Inr req \<Rightarrow> raw_call env s req)"

definition RawPost :: "'w clientEnv \<Rightarrow> ClientConf \<Rightarrow> 'w sys \<Rightarrow> string \<Rightarrow> string \<Rightarrow> 'w sys \<times> (nat \<times> string) cres" where
  "RawPost env c s path body =
     (if \<not> ce_urlOk env (c_baseURL c @ path) then (s, Inl RequestError)
      else raw_call env s \<lparr>wq_method = ''POST'', wq_url = c_baseURL c @ path, wq_contentType = ''application/json'',
             wq_accept = '''', wq_apiKey = c_apiKey c, wq_body = body\<rparr>)"

section \<open>Blocking inference and the other endpoints\<close>

definition Infer_client :: "'w clientEnv \<Rightarrow> ClientConf \<Rightarrow> 'w sys \<Rightarrow> InferRequest \<Rightarrow> 'w sys \<times> (InferResponse \<times> bool) cres" where
  "Infer_client env c s req =
     (case callJSON env c s ''POST'' ''/v1/infer'' (Some (ce_request env req)) (ce_infer env) of
        (s1, Inl e) \<Rightarrow> (s1, Inl e)
      | (s1, Inr (deg, ir)) \<Rightarrow> (s1, Inr (ir, deg = ''true'')))"

definition discardHeader :: "'w sys \<times> (string \<times> 'o) cres \<Rightarrow> 'w sys \<times> 'o cres" where
  "discardHeader r = (fst r, case snd r of Inl e \<Rightarrow> Inl e | Inr (_, v) \<Rightarrow> Inr v)"

definition getMap :: "'w clientEnv \<Rightarrow> ClientConf \<Rightarrow> 'w sys \<Rightarrow> string \<Rightarrow> (string \<Rightarrow> 'o option) \<Rightarrow> 'w sys \<times> 'o cres" where
  "getMap env c s path decode = discardHeader (callJSON env c s ''GET'' path None decode)"

definition Status_client :: "'w clientEnv \<Rightarrow> ClientConf \<Rightarrow> 'w sys \<Rightarrow> (string \<Rightarrow> 'o option) \<Rightarrow> 'w sys \<times> 'o cres" where
  "Status_client env c s decode = getMap env c s ''/v1/status'' decode"

definition Pressure_client :: "'w clientEnv \<Rightarrow> ClientConf \<Rightarrow> 'w sys \<Rightarrow> (string \<Rightarrow> 'o option) \<Rightarrow> 'w sys \<times> 'o cres" where
  "Pressure_client env c s decode = discardHeader (callJSON env c s ''GET'' ''/v1/status/pressure'' None decode)"

definition Health_client :: "'w clientEnv \<Rightarrow> ClientConf \<Rightarrow> 'w sys \<Rightarrow> (string \<Rightarrow> 'o option) \<Rightarrow> 'w sys \<times> 'o cres" where
  "Health_client env c s decode = discardHeader (callJSON env c s ''GET'' ''/healthz'' None decode)"

definition ModelProps_client :: "'w clientEnv \<Rightarrow> ClientConf \<Rightarrow> 'w sys \<Rightarrow> (string \<Rightarrow> 'o option) \<Rightarrow> 'w sys \<times> 'o cres" where
  "ModelProps_client env c s decode = discardHeader (callJSON env c s ''GET'' ''/v1/model/props'' None decode)"

text \<open>\<open>encodeText\<close> is the encoding of \<open>TokenizeRequest\<close>.\<close>

definition Tokenize_client :: "'w clientEnv \<Rightarrow> ClientConf \<Rightarrow> 'w sys \<Rightarrow> (string \<Rightarrow> string) \<Rightarrow> (string \<Rightarrow> 'o option) \<Rightarrow> string \<Rightarrow>
    'w sys \<times> 'o cres" where
  "Tokenize_client env c s encodeText decode text =
     discardHeader (callJSON env c s ''POST'' ''/v1/tokenize'' (Some (encodeText text)) decode)"

text \<open>\<open>url.Values.Encode\<close>: the keys in sorted order, each value escaped.\<close>

definition hexDigit :: "nat \<Rightarrow> char" where
  "hexDigit n = char_of (if n < 10 then 48 + n else 55 + n)"

definition queryEscape :: "string \<Rightarrow> string" where
  "queryEscape s = concat (map (\<lambda>c. let n = of_char c :: nat in
     if 65 \<le> n \<and> n \<le> 90 \<or> 97 \<le> n \<and> n \<le> 122 \<or> 48 \<le> n \<and> n \<le> 57 \<or> c \<in> set ''-_.~'' then [c]
     else if c = CHR '' '' then ''+'' else [CHR ''%'', hexDigit (n div 16), hexDigit (n mod 16)]) s)"

fun joinPairs :: "(string \<times> string) list \<Rightarrow> string" where
  "joinPairs [] = ''''"
| "joinPairs [(k, v)] = k @ ''='' @ queryEscape v"
| "joinPairs ((k, v) # ps) = k @ ''='' @ queryEscape v @ ''&'' @ joinPairs ps"

definition Logs_client :: "'w clientEnv \<Rightarrow> ClientConf \<Rightarrow> 'w sys \<Rightarrow> string \<Rightarrow> string \<Rightarrow> string \<Rightarrow> int \<Rightarrow> (string \<Rightarrow> 'o option) \<Rightarrow>
    'w sys \<times> 'o cres" where
  "Logs_client env c s level event since limit decode =
     getMap env c s (''/v1/logs?'' @ joinPairs
       ((if event \<noteq> '''' then [(''event'', event)] else []) @ (if level \<noteq> '''' then [(''level'', level)] else [])
        @ (if limit > 0 then [(''limit'', Itoa limit)] else []) @ (if since \<noteq> '''' then [(''since'', since)] else []))) decode"

text \<open>Conversations. \<open>encodeChat\<close> is the encoding of a title and messages.\<close>

definition ListChats :: "'w clientEnv \<Rightarrow> ClientConf \<Rightarrow> 'w sys \<Rightarrow> (string \<Rightarrow> ConversationMeta list option) \<Rightarrow>
    'w sys \<times> ConversationMeta list cres" where
  "ListChats env c s decode = discardHeader (callJSON env c s ''GET'' ''/v1/chats'' None decode)"

definition CreateChat :: "'w clientEnv \<Rightarrow> ClientConf \<Rightarrow> 'w sys \<Rightarrow> (string \<Rightarrow> ChatMessage list \<Rightarrow> string) \<Rightarrow>
    (string \<Rightarrow> ConversationMeta option) \<Rightarrow> string \<Rightarrow> ChatMessage list \<Rightarrow> 'w sys \<times> ConversationMeta cres" where
  "CreateChat env c s encodeChat decode title msgs =
     discardHeader (callJSON env c s ''POST'' ''/v1/chats'' (Some (encodeChat title msgs)) decode)"

definition GetChat :: "'w clientEnv \<Rightarrow> ClientConf \<Rightarrow> 'w sys \<Rightarrow> (string \<Rightarrow> Conversation option) \<Rightarrow> string \<Rightarrow> 'w sys \<times> Conversation cres" where
  "GetChat env c s decode i = discardHeader (callJSON env c s ''GET'' (''/v1/chats'' @ ''/'' @ i) None decode)"

definition UpdateChat :: "'w clientEnv \<Rightarrow> ClientConf \<Rightarrow> 'w sys \<Rightarrow> (string \<Rightarrow> ChatMessage list \<Rightarrow> string) \<Rightarrow>
    (string \<Rightarrow> ConversationMeta option) \<Rightarrow> string \<Rightarrow> string \<Rightarrow> ChatMessage list \<Rightarrow> 'w sys \<times> ConversationMeta cres" where
  "UpdateChat env c s encodeChat decode i title msgs =
     discardHeader (callJSON env c s ''PUT'' (''/v1/chats'' @ ''/'' @ i) (Some (encodeChat title msgs)) decode)"

definition DeleteChat :: "'w clientEnv \<Rightarrow> ClientConf \<Rightarrow> 'w sys \<Rightarrow> string \<Rightarrow> 'w sys \<times> unit cres" where
  "DeleteChat env c s i =
     (case newRequest env c ''DELETE'' (''/v1/chats'' @ ''/'' @ i) None of
        Inl e \<Rightarrow> (s, Inl e)
      | Inr req \<Rightarrow>
          (case do_call (ce_do env req) s of
             (s1, None) \<Rightarrow> (s1, Inl TransportError)
           | (s1, Some resp) \<Rightarrow>
               (s1, if wr_status resp \<noteq> 204 \<and> wr_status resp \<noteq> 200 then Inl (errorFrom env resp) else Inr ())))"

section \<open>Event streams\<close>

subsection \<open>What the server writes\<close>

definition zeroChunk :: "string \<Rightarrow> string \<Rightarrow> StreamChunk" where
  "zeroChunk rid cid = \<lparr>sc_RequestID = rid, sc_CorrelationID = cid, sc_Delta = '''', sc_Reasoning = '''', sc_Done = False,
     sc_TokensGenerated = 0, sc_TokensPerSec = 0, sc_QueueWaitMS = 0, sc_InferenceMS = 0, sc_DurationMS = 0,
     sc_ModelTier = '''', sc_Deferred = False, sc_Error = '''', sc_Truncated = False, sc_ToolCall = None\<rparr>"

fun eventChunk :: "string \<Rightarrow> string \<Rightarrow> sse \<Rightarrow> StreamChunk" where
  "eventChunk rid cid (DeltaEv t) = (zeroChunk rid cid)\<lparr>sc_Delta := t\<rparr>"
| "eventChunk rid cid (ReasoningEv t) = (zeroChunk rid cid)\<lparr>sc_Reasoning := t\<rparr>"
| "eventChunk rid cid (ToolEv ts) = (zeroChunk rid cid)\<lparr>sc_ToolCall := Some ts\<rparr>"
| "eventChunk rid cid (DoneEv d) = (zeroChunk rid cid)\<lparr>sc_Done := True, sc_TokensGenerated := sd_TokensGenerated d,
     sc_TokensPerSec := sd_TokensPerSec d, sc_QueueWaitMS := sd_QueueWaitMS d, sc_InferenceMS := sd_InferenceMS d,
     sc_DurationMS := sd_DurationMS d, sc_ModelTier := sd_ModelTier d, sc_Error := sd_Error d, sc_Truncated := sd_Truncated d\<rparr>"
| "eventChunk rid cid Sentinel = zeroChunk rid cid"

abbreviation nl :: char where "nl \<equiv> CHR 0x0A"
abbreviation cr :: char where "cr \<equiv> CHR 0x0D"

definition dataLine :: "string \<Rightarrow> string" where
  "dataLine payload = ''data: '' @ payload @ [nl, nl]"

definition wireEvent :: "(StreamChunk \<Rightarrow> string) \<Rightarrow> string \<Rightarrow> string \<Rightarrow> sse \<Rightarrow> string" where
  "wireEvent marshal rid cid ev =
     (case ev of Sentinel \<Rightarrow> dataLine ''[DONE]'' | _ \<Rightarrow> dataLine (marshal (eventChunk rid cid ev)))"

definition wireStream :: "(StreamChunk \<Rightarrow> string) \<Rightarrow> string \<Rightarrow> string \<Rightarrow> sse list \<Rightarrow> string" where
  "wireStream marshal rid cid evs = concat (map (wireEvent marshal rid cid) evs)"

subsection \<open>What the client reads\<close>

text \<open>
  A line the scanner returns ends before its newline, or at the end of the body, without a trailing
  carriage return. A line that fills the scanner's buffer of a mebibyte is an error. The caller's
  handler acts on a state of its own; its \<open>Some\<close> is the error that stops the loop.
\<close>

definition maxTokenSize :: nat where "maxTokenSize = 1048576"

definition dropCR :: "string \<Rightarrow> string" where
  "dropCR l = (if l \<noteq> [] \<and> last l = cr then butlast l else l)"

type_synonym 'a StreamHandler = "StreamChunk \<Rightarrow> 'a \<Rightarrow> 'a \<times> string option"

datatype loopEnd =
    Stopped StreamChunk string
  | Broke "StreamChunk option"
  | RanOut
  | TooLong

function readEvents :: "(string \<Rightarrow> StreamChunk option) \<Rightarrow> 'a StreamHandler option \<Rightarrow> string \<Rightarrow> 'a \<Rightarrow> 'a \<times> loopEnd" where
  "readEvents unmarsh onChunk bs a =
     (if bs = [] then (a, RanOut)
      else let raw = takeWhile (\<lambda>c. c \<noteq> nl) bs; rest = drop (Suc (length raw)) bs; line = dropCR raw;
               payload = trim_prefix line ''data: ''
           in if maxTokenSize \<le> length raw then (a, TooLong)
              else if \<not> has_prefix line ''data: '' then readEvents unmarsh onChunk rest a
              else if payload = ''[DONE]'' then (a, Broke None)
              else case unmarsh payload of
                     None \<Rightarrow> readEvents unmarsh onChunk rest a
                   | Some chunk \<Rightarrow>
                       (case (case onChunk of None \<Rightarrow> (a, None) | Some f \<Rightarrow> f chunk a) of
                          (a1, Some e) \<Rightarrow> (a1, Stopped chunk e)
                        | (a1, None) \<Rightarrow>
                            if sc_Done chunk then (a1, Broke (Some chunk)) else readEvents unmarsh onChunk rest a1))"
  by pat_completeness auto
termination
  by (relation "measure (\<lambda>(_, _, bs, _). length bs)") auto

declare readEvents.simps [simp del]

definition streamResult :: "bool \<Rightarrow> loopEnd \<Rightarrow> StreamChunk option \<times> clientError option" where
  "streamResult isCut e = (case e of
     Stopped chunk err \<Rightarrow> (Some chunk, Some (HandlerError err))
   | TooLong \<Rightarrow> (None, Some ReadError)
   | RanOut \<Rightarrow> (None, if isCut then Some ReadError else None)
   | Broke None \<Rightarrow> (None, None)
   | Broke (Some final) \<Rightarrow>
       (Some final, if sc_Error final \<noteq> '''' then Some (APIError 0 (sc_Error final) ''stream ended with an error'') else None))"

definition InferStream_client :: "'w clientEnv \<Rightarrow> ClientConf \<Rightarrow> 'w sys \<Rightarrow> InferRequest \<Rightarrow> 'a StreamHandler option \<Rightarrow> 'a \<Rightarrow>
    'w sys \<times> 'a \<times> StreamChunk option \<times> clientError option" where
  "InferStream_client env c s req onChunk a =
     (case newRequest env c ''POST'' ''/v1/infer'' (Some (ce_request env (req\<lparr>ir_Stream := True\<rparr>))) of
        Inl e \<Rightarrow> (s, a, None, Some e)
      | Inr wreq \<Rightarrow>
          (case do_call (ce_do env (wreq\<lparr>wq_accept := ''text/event-stream''\<rparr>)) s of
             (s1, None) \<Rightarrow> (s1, a, None, Some TransportError)
           | (s1, Some resp) \<Rightarrow>
               if wr_status resp = 202 then (s1, a, None, Some (APIError 202 ''deferred'' (ce_resultURL env (wr_body resp))))
               else if wr_status resp < 200 \<or> 300 \<le> wr_status resp then (s1, a, None, Some (errorFrom env resp))
               else (case readEvents (ce_chunk env) onChunk (wr_body resp) a of
                       (a1, e) \<Rightarrow> (s1, a1, streamResult (wr_cut resp) e))))"

section \<open>Reading a stream back\<close>

text \<open>
  What the reader relies on from the JSON codec, for one chunk: the encoding is an object on one line
  that decodes to the chunk, fits the scanner's buffer, and no proper prefix of it decodes.
\<close>

definition encodes :: "(string \<Rightarrow> StreamChunk option) \<Rightarrow> (StreamChunk \<Rightarrow> string) \<Rightarrow> StreamChunk \<Rightarrow> bool" where
  "encodes unmarsh marshal c = (let e = marshal c in hd (e @ ''.'') = CHR ''{'' \<and> nl \<notin> set e \<and> cr \<notin> set e
     \<and> length e + 6 < maxTokenSize \<and> unmarsh e = Some c \<and> list_all (\<lambda>n. unmarsh (take n e) = None) [0..<length e])"

definition collect :: "StreamChunk list StreamHandler" where
  "collect c a = (a @ [c], None)"

lemma dropCR_id [simp]: "cr \<notin> set l \<Longrightarrow> dropCR l = l"
  by (auto simp: dropCR_def dest: last_in_set)

lemma take_data: "take (6 + k) (''data: '' @ bs) = ''data: '' @ take k bs"
  by (simp add: eval_nat_numeral)

lemma readEvents_blank [simp]: "readEvents u h (nl # bs) a = readEvents u h bs a"
  by (subst readEvents.simps) (simp add: maxTokenSize_def has_prefix_def dropCR_def)

lemma readEvents_end [simp]: "readEvents u h [] a = (a, RanOut)"
  by (subst readEvents.simps) simp

lemma readEvents_line:
  assumes "nl \<notin> set l" "cr \<notin> set l" "length l + 6 < maxTokenSize" "l \<noteq> ''[DONE]''" "rest = [] \<or> hd rest = nl"
  shows "readEvents u (Some collect) (''data: '' @ l @ rest) a = (case u l of
      None \<Rightarrow> readEvents u (Some collect) (tl rest) a
    | Some c \<Rightarrow> if sc_Done c then (a @ [c], Broke (Some c)) else readEvents u (Some collect) (tl rest) (a @ [c]))"
proof -
  let ?l = "''data: '' @ l"
  have tw: "takeWhile (\<lambda>c. c \<noteq> nl) (?l @ rest) = ?l"
    using assms(1,5) by (cases rest) (auto simp: takeWhile_eq_all_conv takeWhile_tail)
  have "cr \<notin> set ?l" using assms(2) by auto
  then have cr: "dropCR ?l = ?l" by simp
  have dr: "drop (Suc (length ?l)) (?l @ rest) = tl rest" by (cases rest) auto
  have "\<not> maxTokenSize \<le> length ?l" using assms(3) by simp
  moreover have "has_prefix ?l ''data: ''" "trim_prefix ?l ''data: '' = l" by (rule has_prefix_append, rule trim_prefix_append)
  ultimately have "readEvents u (Some collect) (?l @ rest) a = (case u l of
      None \<Rightarrow> readEvents u (Some collect) (tl rest) a
    | Some c \<Rightarrow> if sc_Done c then (a @ [c], Broke (Some c)) else readEvents u (Some collect) (tl rest) (a @ [c]))"
    by (subst readEvents.simps) (simp only: Let_def tw cr dr, simp add: collect_def assms(4) split: option.split)
  then show ?thesis by simp
qed

text \<open>A line cut short is either the whole encoding, or nothing the reader acts on.\<close>

lemma encodesD:
  assumes "encodes u m c"
  shows "nl \<notin> set (m c)" "cr \<notin> set (m c)" "length (m c) + 6 < maxTokenSize" "u (m c) = Some c"
    "n < length (m c) \<Longrightarrow> u (take n (m c)) = None" "take n (m c) \<noteq> ''[DONE]''"
proof -
  show "nl \<notin> set (m c)" "cr \<notin> set (m c)" "length (m c) + 6 < maxTokenSize" "u (m c) = Some c"
    "n < length (m c) \<Longrightarrow> u (take n (m c)) = None"
    using assms by (auto simp: encodes_def Let_def list_all_iff)
  from assms have "hd (m c @ ''.'') = CHR ''{''" by (simp add: encodes_def Let_def)
  then show "take n (m c) \<noteq> ''[DONE]''" by (cases "m c"; cases n) auto
qed

lemma readEvents_partial:
  assumes "encodes u m c" "n < 6 + length (m c)"
  shows "readEvents u (Some collect) (take n (''data: '' @ m c)) a = (a, RanOut)"
proof (cases "n < 6")
  case True
  let ?l = "take n ''data: ''"
  have "length ''data: '' = 6" by simp
  with True have l: "take n (''data: '' @ m c) = ?l" by (simp only: take_append) simp
  have "n \<in> {0, 1, 2, 3, 4, 5}" using True by auto
  then show ?thesis unfolding l
    by (subst readEvents.simps) (auto simp: maxTokenSize_def has_prefix_def dropCR_def)
next
  case False
  then obtain k where k: "n = 6 + k" using le_Suc_ex [of 6 n] by auto
  note e = encodesD [OF assms(1)]
  have "nl \<notin> set (take k (m c))" "cr \<notin> set (take k (m c))" using e(1,2) by (auto dest: in_set_takeD)
  moreover have "length (take k (m c)) + 6 < maxTokenSize" using e(3) by simp
  ultimately have "readEvents u (Some collect) (''data: '' @ take k (m c) @ []) a = (a, RanOut)"
    using e(5) [of k] e(6) [of k] assms(2) k by (subst readEvents_line) auto
  then show ?thesis unfolding k take_data by simp
qed

lemma readEvents_whole:
  assumes "encodes u m c" "rest = [] \<or> hd rest = nl"
  shows "readEvents u (Some collect) (''data: '' @ m c @ rest) a =
    (if sc_Done c then (a @ [c], Broke (Some c)) else readEvents u (Some collect) (tl rest) (a @ [c]))"
  using readEvents_line [OF encodesD(1-3) [OF assms(1)] _ assms(2)] encodesD(4) [OF assms(1)] encodesD(6) [OF assms(1), of "length (m c)"]
  by simp

text \<open>One event on the wire, the body cut after \<open>n\<close> bytes.\<close>

lemma readEvents_event:
  assumes "encodes u m c"
  shows "readEvents u (Some collect) (take n (dataLine (m c) @ bs)) a =
    (if n < 6 + length (m c) then (a, RanOut)
     else if sc_Done c then (a @ [c], Broke (Some c))
     else readEvents u (Some collect) (take (n - (8 + length (m c))) bs) (a @ [c]))"
proof (cases "n < 6 + length (m c)")
  case True
  have "dataLine (m c) @ bs = (''data: '' @ m c) @ nl # nl # bs" "length (''data: '' @ m c) = 6 + length (m c)"
    by (simp_all add: dataLine_def)
  with True have "take n (dataLine (m c) @ bs) = take n (''data: '' @ m c)" by (simp only: take_append) simp
  with readEvents_partial [OF assms True] True show ?thesis by simp
next
  case False
  then obtain k where k: "n = 6 + length (m c) + k" using le_Suc_ex [of "6 + length (m c)" n] by auto
  let ?r = "take k (nl # nl # bs)"
  have t: "take n (dataLine (m c) @ bs) = ''data: '' @ m c @ ?r"
    using take_data [of "length (m c) + k" "m c @ nl # nl # bs"] by (simp add: dataLine_def k add.assoc)
  have "?r = [] \<or> hd ?r = nl" by (cases k) simp_all
  note w = readEvents_whole [OF assms this]
  consider "k = 0" | "k = 1" | j where "k = Suc (Suc j)" by (metis One_nat_def not0_implies_Suc)
  then have "readEvents u (Some collect) (tl ?r) (a @ [c]) = readEvents u (Some collect) (take (k - 2) bs) (a @ [c])"
    by cases simp_all
  then show ?thesis unfolding t w using False by (simp add: k)
qed

lemma readEvents_stream:
  assumes "\<forall>ev\<in>set body. \<not> isEnd ev \<and> encodes u m (eventChunk rid cid ev)" "encodes u m (eventChunk rid cid (DoneEv d))"
  shows "\<exists>k e. readEvents u (Some collect) (take n (wireStream m rid cid (body @ [DoneEv d, Sentinel]))) a
        = (a @ take k (map (eventChunk rid cid) (body @ [DoneEv d])), e)
    \<and> (k = Suc (length body) \<and> e = Broke (Some (eventChunk rid cid (DoneEv d)))
       \<or> k \<le> length body \<and> e = RanOut \<and> n < length (wireStream m rid cid (body @ [DoneEv d, Sentinel])))"
  using assms(1)
proof (induction body arbitrary: n a)
  case Nil
  let ?c = "eventChunk rid cid (DoneEv d)"
  have w: "wireStream m rid cid ([] @ [DoneEv d, Sentinel]) = dataLine (m ?c) @ wireEvent m rid cid Sentinel"
    by (simp add: wireStream_def wireEvent_def)
  note r = readEvents_event [OF assms(2), of n "wireEvent m rid cid Sentinel" a]
  show ?case
  proof (cases "n < 6 + length (m ?c)")
    case True
    then show ?thesis unfolding w r by (intro exI [of _ 0] exI [of _ RanOut]) (simp add: dataLine_def)
  next
    case False
    then show ?thesis unfolding w r by (intro exI [of _ 1] exI [of _ "Broke (Some ?c)"]) simp
  qed
next
  case (Cons ev body)
  let ?c = "eventChunk rid cid ev" and ?W = "wireStream m rid cid (body @ [DoneEv d, Sentinel])"
  from Cons.prems have enc: "encodes u m ?c" and ne: "\<not> isEnd ev" by simp_all
  have nd: "\<not> sc_Done ?c" using ne by (cases ev) (simp_all add: isEnd_def zeroChunk_def)
  have w: "wireStream m rid cid ((ev # body) @ [DoneEv d, Sentinel]) = dataLine (m ?c) @ ?W"
    using ne by (cases ev) (simp_all add: wireStream_def wireEvent_def isEnd_def)
  note r = readEvents_event [OF enc, of n ?W a]
  show ?case
  proof (cases "n < 6 + length (m ?c)")
    case True
    then show ?thesis unfolding w r by (intro exI [of _ 0] exI [of _ RanOut]) (simp add: dataLine_def)
  next
    case False
    from Cons.prems have "\<forall>ev\<in>set body. \<not> isEnd ev \<and> encodes u m (eventChunk rid cid ev)" by simp
    from Cons.IH [OF this, of "n - (8 + length (m ?c))" "a @ [?c]"] obtain k e where
      "readEvents u (Some collect) (take (n - (8 + length (m ?c))) ?W) (a @ [?c])
        = ((a @ [?c]) @ take k (map (eventChunk rid cid) (body @ [DoneEv d])), e)"
      "k = Suc (length body) \<and> e = Broke (Some (eventChunk rid cid (DoneEv d)))
       \<or> k \<le> length body \<and> e = RanOut \<and> n - (8 + length (m ?c)) < length ?W" by blast
    then show ?thesis unfolding w r using False nd
      by (intro exI [of _ "Suc k"] exI [of _ e]) (auto simp: dataLine_def)
  qed
qed

lemma InferStream_client_reads:
  assumes "ce_urlOk env (c_baseURL c @ ''/v1/infer'')" "\<forall>q. snd (snd (ce_do env q (ext s))) = Some resp" "wr_status resp = 200"
    and "InferStream_client env c s creq h a = (s', seen, final, err)"
    and "readEvents (ce_chunk env) h (wr_body resp) a = (a1, e)"
  shows "seen = a1 \<and> (final, err) = streamResult (wr_cut resp) e"
proof -
  have "\<exists>s1. do_call (ce_do env q) s = (s1, Some resp)" for q
    using spec [OF assms(2), of q] by (cases "ce_do env q (ext s)") (simp add: do_call_def)
  then obtain f where "do_call (ce_do env q) s = (f q, Some resp)" for q by metis
  with assms(1,3,4,5) show ?thesis by (simp add: InferStream_client_def newRequest_def)
qed


section \<open>Blocking calls\<close>

definition wireResponse :: "(httpBody \<Rightarrow> string) \<Rightarrow> httpResponse \<Rightarrow> wireResp" where
  "wireResponse encode r = \<lparr>wr_status = hr_status r, wr_degraded = (if hr_degraded r then ''true'' else ''''),
     wr_body = encode (hr_body r), wr_cut = False\<rparr>"

lemma callJSON_answer:
  assumes "ce_urlOk env (c_baseURL c @ path)" "\<forall>q. snd (snd (ce_do env q (ext s))) = Some resp"
  shows "snd (callJSON env c s method path body decode) =
    (if wr_status resp < 200 \<or> 300 \<le> wr_status resp then Inl (errorFrom env resp)
     else case decode (wr_body resp) of None \<Rightarrow> Inl DecodeError | Some v \<Rightarrow> Inr (wr_degraded resp, v))"
  using assms by (simp add: callJSON_def newRequest_def doJSON_def do_call_def case_prod_beta)

lemma Infer_client_snd:
  "snd (Infer_client env c s req) = (case snd (callJSON env c s ''POST'' ''/v1/infer'' (Some (ce_request env req)) (ce_infer env)) of
     Inl e \<Rightarrow> Inl e | Inr r \<Rightarrow> Inr (snd r, fst r = ''true''))"
  by (auto simp: Infer_client_def split: prod.splits sum.splits)

text \<open>A blocking call returns the server's answer with its degradation flag, or the server's status and code.\<close>

lemma infer_client_agrees:
  assumes "ce_urlOk env (c_baseURL c @ ''/v1/infer'')" "\<forall>q. snd (snd (ce_do env q (ext s))) = Some (wireResponse encode r)"
    and "\<And>ir. ce_infer env (encode (InferBody ir)) = Some ir"
    and "\<And>code cid. fst (ce_errOf env (take 8192 (encode (ErrorBody code cid)))) = code"
  shows "hr_status r = 200 \<Longrightarrow> hr_body r = InferBody ir \<Longrightarrow> snd (Infer_client env c s req) = Inr (ir, hr_degraded r)"
    and "300 \<le> hr_status r \<Longrightarrow> hr_body r = ErrorBody code cid \<Longrightarrow> code \<noteq> '''' \<Longrightarrow>
      \<exists>msg. snd (Infer_client env c s req) = Inl (APIError (hr_status r) code msg)"
proof -
  note J = callJSON_answer [OF assms(1,2), of "''POST''" "Some (ce_request env req)" "ce_infer env"]
  show "snd (Infer_client env c s req) = Inr (ir, hr_degraded r)" if "hr_status r = 200" "hr_body r = InferBody ir"
    using J that assms(3) by (simp add: Infer_client_snd wireResponse_def)
  show "\<exists>msg. snd (Infer_client env c s req) = Inl (APIError (hr_status r) code msg)"
    if "300 \<le> hr_status r" "hr_body r = ErrorBody code cid" "code \<noteq> ''''"
    using J that assms(4) [of code cid]
    by (simp add: Infer_client_snd wireResponse_def errorFrom_def case_prod_beta)
qed

text \<open>
  A deferral (status 202) is an error with the result's address for the streaming call. The blocking
  call decodes the deferral body as an answer and reports success.
\<close>

lemma deferral_seen_by_clients:
  assumes "ce_urlOk env (c_baseURL c @ ''/v1/infer'')" "\<forall>q. snd (snd (ce_do env q (ext s))) = Some resp" "wr_status resp = 202"
  shows "snd (InferStream_client env c s req h a) = (a, None, Some (APIError 202 ''deferred'' (ce_resultURL env (wr_body resp))))"
    and "ce_infer env (wr_body resp) = Some ir \<Longrightarrow> snd (Infer_client env c s req) = Inr (ir, wr_degraded resp = ''true'')"
proof -
  show "snd (InferStream_client env c s req h a) = (a, None, Some (APIError 202 ''deferred'' (ce_resultURL env (wr_body resp))))"
    using assms by (simp add: InferStream_client_def newRequest_def do_call_def case_prod_beta)
  show "snd (Infer_client env c s req) = Inr (ir, wr_degraded resp = ''true'')" if "ce_infer env (wr_body resp) = Some ir"
    using callJSON_answer [OF assms(1,2), of "''POST''" "Some (ce_request env req)" "ce_infer env"] that assms(3)
    by (simp add: Infer_client_snd)
qed

section \<open>A concrete stream\<close>

definition exampleEvents :: "sse list" where
  "exampleEvents = [ReasoningEv ''hm'', DeltaEv ''hi'', DoneEv (zeroDone\<lparr>sd_InferenceMS := 7, sd_DurationMS := 7, sd_ModelTier := ''mid''\<rparr>), Sentinel]"

definition exampleMarshal :: "StreamChunk \<Rightarrow> string" where
  "exampleMarshal c = ''{'' @ (if sc_Done c then ''done'' else if sc_Delta c \<noteq> '''' then ''delta'' else ''reasoning'') @ ''}''"

definition exampleResp :: "nat \<Rightarrow> wireResp" where
  "exampleResp n = \<lparr>wr_status = 200, wr_degraded = '''', wr_body = take n (wireStream exampleMarshal ''r1'' ''c'' exampleEvents),
     wr_cut = (n < length (wireStream exampleMarshal ''r1'' ''c'' exampleEvents))\<rparr>"

definition exampleClientEnv :: "nat \<Rightarrow> unit clientEnv" where
  "exampleClientEnv n = \<lparr>ce_urlOk = (\<lambda>_. True), ce_do = (\<lambda>q w. (w, 3, Some (exampleResp n))), ce_request = (\<lambda>_. ''{}''),
     ce_chunk = (\<lambda>e. find (\<lambda>c. exampleMarshal c = e) (map (eventChunk ''r1'' ''c'') (butlast exampleEvents))),
     ce_infer = (\<lambda>_. None), ce_errOf = (\<lambda>_. ('''', '''')), ce_resultURL = (\<lambda>b. b)\<rparr>"

lemma example_encodes:
  "\<forall>ev\<in>set exampleEvents. ev \<noteq> Sentinel \<longrightarrow> encodes (ce_chunk (exampleClientEnv n)) exampleMarshal (eventChunk ''r1'' ''c'' ev)"
  by (simp add: exampleEvents_def encodes_def exampleClientEnv_def exampleMarshal_def zeroChunk_def maxTokenSize_def upt_rec
      zeroDone_def)

lemma example_served:
  "\<exists>srv' s'. handleInferStream exampleToolEnv [''text'' \<mapsto> exampleToolBackend] True exampleBusyServer \<lparr>clock = 0, ext = 0\<rparr>
      (exampleInfer\<lparr>ir_Tools := []\<rparr>) exampleToolReq ChanReady (ContextEnded 0 False) = (srv', s', Sse exampleEvents)"
  by (simp add: handleInferStream_def deferToRelay_def shouldDefer_def exampleBusyServer_def New_Server_def exampleInfer_def
      exampleToolBackend_def do_call_def finishStream_def writeDone_def chunkEv_def zeroResponse_def zeroDone_def exampleEvents_def)


end
