(* ===== verification/Relay_Clients.thy ===== *)
theory Relay_Clients
  imports Remote_Relay His_Client
begin

text \<open>
  The two clients of the relay's public routes, \<open>src/internal/relayenqueue\<close> (the server's hand-off under
  pressure) and \<open>src/hisclient/relay.go\<close> (the library's relay client), and their composition with the relay
  of \<open>src/internal/railwayq\<close> over the network of \<open>Remote_Relay\<close>. The JSON codecs are arguments.
\<close>

section \<open>The clients\<close>

text \<open>
  \<open>rc_encode\<close> is the encoding of an enqueue request with its correlation id and raw payload (\<open>None\<close>: the
  payload is not JSON), \<open>rc_id\<close> and \<open>rc_result\<close> decode the replies, \<open>rc_errOf\<close> the error body.
\<close>

record 'w relayCodec =
  rc_urlOk :: "string \<Rightarrow> bool"
  rc_do :: "wireReq \<Rightarrow> ('w, wireResp option) call"
  rc_encode :: "string \<Rightarrow> string \<Rightarrow> string option"
  rc_id :: "string \<Rightarrow> string option"
  rc_result :: "string \<Rightarrow> ResultResponse option"
  rc_errOf :: "string \<Rightarrow> string \<times> string"
  rc_request :: "InferRequest \<Rightarrow> string"

record RelayClient =
  rl_baseURL :: string
  rl_apiKey :: string

definition NewRelay :: "string \<Rightarrow> string \<Rightarrow> RelayClient" where
  "NewRelay base key = \<lparr>rl_baseURL = trimRightSlash base, rl_apiKey = key\<rparr>"

definition relayRequest :: "RelayClient \<Rightarrow> string \<Rightarrow> string \<Rightarrow> string option \<Rightarrow> wireReq" where
  "relayRequest c method path body = \<lparr>wq_method = method, wq_url = rl_baseURL c @ path,
     wq_contentType = (if body \<noteq> None then ''application/json'' else ''''), wq_accept = '''', wq_apiKey = rl_apiKey c,
     wq_body = (case body of None \<Rightarrow> '''' | Some b \<Rightarrow> b)\<rparr>"

text \<open>\<open>RelayClient.do\<close>. A nil \<open>out\<close> is the decoder that ignores the body.\<close>

definition relay_do :: "'w relayCodec \<Rightarrow> RelayClient \<Rightarrow> 'w sys \<Rightarrow> string \<Rightarrow> string \<Rightarrow> string option \<Rightarrow> (string \<Rightarrow> 'o option) \<Rightarrow>
    'w sys \<times> 'o cres" where
  "relay_do rc c s method path body decode =
     (if \<not> rc_urlOk rc (rl_baseURL c @ path) then (s, Inl RequestError)
      else case do_call (rc_do rc (relayRequest c method path body)) s of
             (s1, None) \<Rightarrow> (s1, Inl TransportError)
           | (s1, Some resp) \<Rightarrow>
               (s1, if wr_status resp < 200 \<or> 300 \<le> wr_status resp then
                      (let raw = take 8192 (wr_body resp); (code, msg) = rc_errOf rc raw
                       in Inl (APIError (wr_status resp) code (if code = '''' then trim_space raw else msg)))
                    else (case decode (wr_body resp) of None \<Rightarrow> Inl DecodeError | Some v \<Rightarrow> Inr v)))"

text \<open>The payload is encoded by \<open>json.Marshal\<close>, so the enclosing request always encodes.\<close>

definition Enqueue_relayClient :: "'w relayCodec \<Rightarrow> RelayClient \<Rightarrow> 'w sys \<Rightarrow> string \<Rightarrow> InferRequest \<Rightarrow> 'w sys \<times> string cres" where
  "Enqueue_relayClient rc c s cid req =
     (case relay_do rc c s ''POST'' ''/enqueue'' (rc_encode rc cid (rc_request rc req)) (rc_id rc) of
        (s1, Inl e) \<Rightarrow> (s1, Inl e)
      | (s1, Inr i) \<Rightarrow> (s1, if i = '''' then Inl EmptyID else Inr i))"

definition Result_relayClient :: "'w relayCodec \<Rightarrow> RelayClient \<Rightarrow> 'w sys \<Rightarrow> string \<Rightarrow> 'w sys \<times> ResultResponse cres" where
  "Result_relayClient rc c s i = relay_do rc c s ''GET'' (''/result/'' @ i) None (rc_result rc)"

definition Cancel_relayClient :: "'w relayCodec \<Rightarrow> RelayClient \<Rightarrow> 'w sys \<Rightarrow> string \<Rightarrow> 'w sys \<times> unit cres" where
  "Cancel_relayClient rc c s i = relay_do rc c s ''DELETE'' (''/job/'' @ i) None (\<lambda>_. Some ())"

definition Status_relayClient :: "'w relayCodec \<Rightarrow> RelayClient \<Rightarrow> 'w sys \<Rightarrow> (string \<Rightarrow> 'o option) \<Rightarrow> 'w sys \<times> 'o cres" where
  "Status_relayClient rc c s decode = relay_do rc c s ''GET'' ''/status'' None decode"

text \<open>\<open>relayenqueue.Client.Enqueue\<close> and \<open>ResultURL\<close>: only 201 with an id counts.\<close>

definition Enqueue_handoff :: "'w relayCodec \<Rightarrow> RelayClient \<Rightarrow> string \<Rightarrow> string \<Rightarrow> ('w, string res) call" where
  "Enqueue_handoff rc c cid payload w =
     (case rc_encode rc cid payload of
        None \<Rightarrow> (w, 0, Err (PlainError ''marshal enqueue request''))
      | Some body \<Rightarrow>
          if \<not> rc_urlOk rc (rl_baseURL c @ ''/enqueue'') then (w, 0, Err (PlainError ''request''))
          else (case rc_do rc (relayRequest c ''POST'' ''/enqueue'' (Some body)) w of
                  (w1, dt, None) \<Rightarrow> (w1, dt, Err (PlainError ''relay /enqueue unreachable''))
                | (w1, dt, Some resp) \<Rightarrow>
                    (w1, dt, if wr_status resp \<noteq> 201 then Err (PlainError ''relay /enqueue returned'')
                       else (case rc_id rc (wr_body resp) of
                               None \<Rightarrow> Err (PlainError ''decode enqueue response'')
                             | Some i \<Rightarrow> if i = '''' then Err (PlainError ''empty id'') else Ok i))))"

definition ResultURL :: "RelayClient \<Rightarrow> string \<Rightarrow> string" where
  "ResultURL c i = rl_baseURL c @ ''/result/'' @ i"

text \<open>The server's hand-off interface on this client; the request is encoded by the handler.\<close>

definition handoffClient :: "'w relayCodec \<Rightarrow> RelayClient \<Rightarrow> 'w relayClient" where
  "handoffClient rc c = \<lparr>relEnqueue = (\<lambda>cid req. Enqueue_handoff rc c cid (rc_request rc req)), relResultURL = ResultURL c\<rparr>"

section \<open>The relay behind the wire\<close>

record wireCodec =
  wc_base :: string
  wc_body :: "string \<Rightarrow> relayBody"
  wc_out :: "relayOut \<Rightarrow> string"

definition relayWire :: "(nat \<Rightarrow> 'l relayEnv) \<Rightarrow> (nat \<Rightarrow> fault) \<Rightarrow> wireCodec \<Rightarrow> wireReq \<Rightarrow> ('l net, wireResp option) call" where
  "relayWire envs faults wc q n =
     (case overNet envs faults \<lparr>rq_method = wq_method q, rq_path = drop (length (wc_base wc)) (wq_url q), rq_authz = '''',
             rq_apiKey = wq_apiKey q, rq_body = wc_body wc (wq_body q)\<rparr> n of
        (n1, out) \<Rightarrow> (n1, 0, map_option (\<lambda>c. \<lparr>wr_status = nat c, wr_degraded = '''', wr_body = wc_out wc out, wr_cut = False\<rparr>) (statusOf out)))"

text \<open>What the two sides' JSON promises each other: requests and replies decode to what was encoded.\<close>

definition codecsAgree :: "'w relayCodec \<Rightarrow> wireCodec \<Rightarrow> bool" where
  "codecsAgree rc wc = ((\<forall>cid p b. rc_encode rc cid p = Some b \<longrightarrow> wc_body wc b = EnqueueBody cid p 0)
     \<and> (\<forall>i. rc_id rc (wc_out wc (Created i)) = Some i) \<and> (\<forall>r. rc_result rc (wc_out wc (ResultOut r)) = Some r))"

section \<open>A deferred request\<close>

lemma handleEnqueue_row:
  assumes "handleEnqueue env st identity (EnqueueBody cid p m) = (st', Created i)"
  shows "\<exists>row. jobs (rs_db st') = jobs (rs_db st) @ [row] \<and> q_ID row = i \<and> i = re_newID env \<and> q_Identity row = identity
    \<and> q_Status row = QueueJobPending \<and> q_Payload row = p \<and> q_CorrelationID row = cid \<and> q_ResultPayload row = None \<and> q_ErrorCode row = None"
  using assms by (auto simp: handleEnqueue_def Let_def Enqueue_job_def sig_notify_def IncrementUsage_def split: if_splits)

lemma owner_identity:
  assumes "ownerKey envs key" "rq_authz r = ''''" "rq_apiKey r = key"
  shows "resolveIdentity (envs k) st r = Caller OwnerIdentity None"
  using assms by (simp add: resolveIdentity_def ownerKey_def has_prefix_def)

lemma handleEnqueue_201:
  assumes "handleEnqueue env st identity body = (st', out)" "statusOf out = Some 201"
  shows "\<exists>i. out = Created i"
  using assms
  by (cases body) (auto simp: handleEnqueue_def statusOf_def Let_def split: if_splits prod.splits option.splits)

lemma owner_enqueue:
  assumes "ownerKey envs key" "rq_authz r = ''''" "rq_apiKey r = key" "rq_path r = ''/enqueue''"
    and "ServeRelay (envs k) st fb r = (st', out)" "statusOf out = Some 201"
  shows "\<exists>st1 i. rs_db st1 = rs_db st \<and> out = Created i \<and> handleEnqueue (envs k) st1 OwnerIdentity (rq_body r) = (st', Created i)"
proof -
  obtain st1 res where M: "identityMiddleware (envs k) st r = (st1, res)" by fastforce
  from identityMiddleware_frame [OF M] have f: "rs_db st1 = rs_db st" ..
  have "res = Inr OwnerIdentity \<or> (\<exists>e. res = Inl e \<and> statusOf e \<noteq> Some 201)"
    using M owner_identity [OF assms(1-3)] assms(4)
    by (auto simp: identityMiddleware_def enqueueAllowed_def publicPaths_def workerPaths_def statusOf_def Let_def case_prod_beta split: if_splits)
  with assms(4-6) M have "handleEnqueue (envs k) st1 OwnerIdentity (rq_body r) = (st', out)" by (auto simp: ServeRelay_def relayMux_def)
  with handleEnqueue_201 [OF this assms(6)] f show ?thesis by blast
qed

text \<open>A hand-off that returns an id has put the request in the relay's table, under the owner's identity.\<close>

lemma handoff_lands:
  assumes "ownerKey envs (rl_apiKey c)" "rl_baseURL c = wc_base wc" "codecsAgree rc wc" "rc_do rc = relayWire envs faults wc"
    and "Enqueue_handoff rc c cid p n = (n', dt, Ok i)"
  shows "\<exists>row. jobs (rs_db (n_srv n')) = jobs (rs_db (n_srv n)) @ [row] \<and> q_ID row = i \<and> i \<noteq> '''' \<and> i = re_newID (envs (n_count n))
    \<and> q_Identity row = OwnerIdentity \<and> q_Status row = QueueJobPending \<and> q_Payload row = p \<and> q_CorrelationID row = cid
    \<and> q_ResultPayload row = None \<and> q_ErrorCode row = None \<and> n_count n' = Suc (n_count n)"
proof -
  from assms(5) obtain b where b: "rc_encode rc cid p = Some b" by (cases "rc_encode rc cid p") (simp_all add: Enqueue_handoff_def)
  let ?r = "\<lparr>rq_method = ''POST'', rq_path = ''/enqueue'', rq_authz = '''', rq_apiKey = rl_apiKey c, rq_body = EnqueueBody cid p 0\<rparr>"
  have body: "wc_body wc b = EnqueueBody cid p 0" using assms(3) b by (simp add: codecsAgree_def)
  obtain n1 out where O: "overNet envs faults ?r n = (n1, out)" by fastforce
  have w: "rc_do rc (relayRequest c ''POST'' ''/enqueue'' (Some b)) n = (n1, 0, map_option (\<lambda>c. \<lparr>wr_status = nat c, wr_degraded = '''',
      wr_body = wc_out wc out, wr_cut = False\<rparr>) (statusOf out))"
    using O assms(2) body by (simp add: assms(4) relayWire_def relayRequest_def)
  have "n' = n1 \<and> statusOf out = Some 201 \<and> rc_id rc (wc_out wc out) = Some i \<and> i \<noteq> ''''"
    using assms(5) b w by (cases "statusOf out") (auto simp: Enqueue_handoff_def split: if_splits option.splits)
  then have C: "n' = n1" "statusOf out = Some 201" "rc_id rc (wc_out wc out) = Some i" "i \<noteq> ''''" by auto
  from O C(1,2) have S: "ServeRelay (envs (n_count n)) (n_srv n) False ?r = (n_srv n', out)" "n_count n' = Suc (n_count n)"
    by (auto simp: overNet_def Let_def statusOf_def split: if_splits prod.splits)
  from owner_enqueue [OF assms(1) _ _ _ S(1) C(2)] obtain st1 i' where
    E: "rs_db st1 = rs_db (n_srv n)" "out = Created i'" "handleEnqueue (envs (n_count n)) st1 OwnerIdentity (EnqueueBody cid p 0) = (n_srv n', Created i')"
    by auto
  have "i' = i" using C(3) E(2) assms(3) by (simp add: codecsAgree_def)
  with handleEnqueue_row [OF E(3)] E(1) C(4) S(2) show ?thesis by auto
qed

text \<open>Reading a result over a network that delivers.\<close>

lemma result_over_wire:
  assumes "ownerKey envs (rl_apiKey c)" "rl_baseURL c = wc_base wc" "codecsAgree rc wc" "rc_do rc = relayWire envs faults wc"
    and "rc_urlOk rc (ResultURL c i)" "faults (n_count (ext s)) = Delivered" "re_ok (envs (n_count (ext s))) ''result''"
    and "i \<noteq> ''''" "CHR ''/'' \<notin> set i" "GetResult (rs_db (n_srv (ext s))) i OwnerIdentity = Some r"
  shows "snd (Result_relayClient rc c s i) = Inr r"
proof -
  let ?k = "n_count (ext s)"
  let ?r = "\<lparr>rq_method = ''GET'', rq_path = ''/result/'' @ i, rq_authz = '''', rq_apiKey = rl_apiKey c, rq_body = wc_body wc ''''\<rparr>"
  have p: "''/result/'' @ i \<notin> set publicPaths" "''/result/'' @ i \<notin> set workerPaths" by (simp_all add: publicPaths_def workerPaths_def)
  have "identityMiddleware (envs ?k) (n_srv (ext s)) ?r = (n_srv (ext s), Inr OwnerIdentity)"
    using owner_identity [OF assms(1), of ?r ?k "n_srv (ext s)"] p by (simp add: identityMiddleware_def)
  moreover have "handleResult (envs ?k) (n_srv (ext s)) OwnerIdentity (''/result/'' @ i) = ResultOut r"
    unfolding handleResult_def trim_prefix_append Let_def using assms(7-10) by simp
  moreover have "has_prefix (''/result/'' @ i) ''/result/''" by (rule has_prefix_append)
  ultimately have "ServeRelay (envs ?k) (n_srv (ext s)) False ?r = (n_srv (ext s), ResultOut r)"
    by (simp add: ServeRelay_def relayMux_def)
  then have "\<exists>n'. overNet envs faults ?r (ext s) = (n', ResultOut r)" using assms(6) by (simp add: overNet_def Let_def)
  then obtain n' where "overNet envs faults ?r (ext s) = (n', ResultOut r)" ..
  then have "rc_do rc (relayRequest c ''GET'' (''/result/'' @ i) None) (ext s)
      = (n', 0, Some \<lparr>wr_status = 200, wr_degraded = '''', wr_body = wc_out wc (ResultOut r), wr_cut = False\<rparr>)"
    using assms(2) by (simp add: assms(4) relayWire_def relayRequest_def statusOf_def)
  then show ?thesis using assms(3,5)
    by (simp add: Result_relayClient_def relay_do_def do_call_def codecsAgree_def ResultURL_def)
qed


text \<open>
  The converse does not hold: when the reply to a hand-off is lost after the relay has stored the job,
  the server answers 503 and the job stays in the table.
\<close>

lemma lost_reply_stays_queued:
  assumes "relay srv = Some (handoffClient rc c)" "rl_baseURL c = wc_base wc" "codecsAgree rc wc" "rc_do rc = relayWire envs faults wc"
    and "shouldDefer srv s (ir_Priority req) = (s1, True)" "rc_encode rc (ir_CorrelationID req) (rc_request rc req) = Some b" "\<forall>u. rc_urlOk rc u"
    and "faults (n_count (ext s1)) = ReplyLost"
    and "ServeRelay (envs (n_count (ext s1))) (n_srv (ext s1)) False \<lparr>rq_method = ''POST'', rq_path = ''/enqueue'', rq_authz = '''',
          rq_apiKey = rl_apiKey c, rq_body = EnqueueBody (ir_CorrelationID req) (rc_request rc req) 0\<rparr> = (st', Created i)"
    and "deferToRelay srv s req = (srv', s', r)"
  shows "n_srv (ext s') = st' \<and> srv' = srv \<and> r = Some (writeError 503 ''overloaded'' (ir_CorrelationID req))"
proof -
  have "wc_body wc b = EnqueueBody (ir_CorrelationID req) (rc_request rc req) 0" using assms(3,6) by (simp add: codecsAgree_def)
  then have "rc_do rc (relayRequest c ''POST'' ''/enqueue'' (Some b)) (ext s1) = ((ext s1)\<lparr>n_count := Suc (n_count (ext s1)), n_srv := st'\<rparr>, 0, None)"
    using assms(2,8,9) by (simp add: assms(4) relayWire_def relayRequest_def overNet_def statusOf_def)
  with assms(1,5,6,7,10) show ?thesis by (auto simp: deferToRelay_def handoffClient_def Enqueue_handoff_def do_call_def)
qed

section \<open>A concrete deferral\<close>

text \<open>A codec by length prefixes.\<close>

definition exFrame :: "string \<Rightarrow> string" where "exFrame x = replicate (length x) CHR ''1'' @ ''0'' @ x"

definition exUnframe :: "string \<Rightarrow> string \<times> string" where
  "exUnframe b = (let n = length (takeWhile (\<lambda>c. c = CHR ''1'') b); r = drop (Suc n) b in (take n r, drop n r))"

lemma exUnframe_frame [simp]: "exUnframe (exFrame x @ y) = (x, y)"
proof -
  have "takeWhile (\<lambda>c. c = CHR ''1'') (replicate (length x) CHR ''1'' @ CHR ''0'' # x @ y) = replicate (length x) CHR ''1''"
    by (simp add: takeWhile_tail)
  then show ?thesis by (simp add: exUnframe_def exFrame_def)
qed

definition exEncodeResult :: "ResultResponse \<Rightarrow> string" where
  "exEncodeResult r = (case rr_Status r of QueueJobPending \<Rightarrow> CHR ''p'' | QueueJobProcessing \<Rightarrow> CHR ''r'' | QueueJobDone \<Rightarrow> CHR ''d''
      | QueueJobFailed \<Rightarrow> CHR ''f'') # (case rr_ResultPayload r of None \<Rightarrow> ''n'' | Some p \<Rightarrow> ''s'' @ exFrame p) @ rr_ErrorCode r"

definition exDecodeResult :: "string \<Rightarrow> ResultResponse option" where
  "exDecodeResult b = (let st = (if hd b = CHR ''p'' then QueueJobPending else if hd b = CHR ''r'' then QueueJobProcessing
      else if hd b = CHR ''d'' then QueueJobDone else QueueJobFailed); t = tl b
     in Some (if hd t = CHR ''n'' then \<lparr>rr_Status = st, rr_ResultPayload = None, rr_ErrorCode = tl t\<rparr>
        else case exUnframe (tl t) of (p, e) \<Rightarrow> \<lparr>rr_Status = st, rr_ResultPayload = Some p, rr_ErrorCode = e\<rparr>))"

definition exWire :: wireCodec where
  "exWire = \<lparr>wc_base = ''https://relay'', wc_body = (\<lambda>b. case exUnframe b of (cid, p) \<Rightarrow> EnqueueBody cid p 0),
     wc_out = (\<lambda>out. case out of Created i \<Rightarrow> i | ResultOut r \<Rightarrow> exEncodeResult r | _ \<Rightarrow> '''')\<rparr>"

definition exRelayCodec :: "nat net relayCodec" where
  "exRelayCodec = \<lparr>rc_urlOk = (\<lambda>_. True), rc_do = relayWire (\<lambda>_. exampleRelayEnv) (\<lambda>_. Delivered) exWire,
     rc_encode = (\<lambda>cid p. Some (exFrame cid @ p)), rc_id = Some, rc_result = exDecodeResult, rc_errOf = (\<lambda>_. ('''', '''')),
     rc_request = (\<lambda>r. ir_Modality r)\<rparr>"

lemma exCodecs: "codecsAgree exRelayCodec exWire"
proof -
  have "exDecodeResult (exEncodeResult r) = Some r" for r
    by (cases r; cases "rr_Status r"; cases "rr_ResultPayload r") (simp_all add: exDecodeResult_def exEncodeResult_def)
  then show ?thesis by (simp add: codecsAgree_def exRelayCodec_def exWire_def)
qed

definition exPressedServer :: "nat net Server" where
  "exPressedServer = (New_Server (New_Queue 4) 0)\<lparr>relay := Some (handoffClient exRelayCodec (NewRelay ''https://relay/'' ''owner'')),
     vramSrc := Some (\<lambda>w. (w, 2, Ok 100)), cpu := Some (\<lambda>_. 95)\<rparr>"

lemma example_enqueue:
  assumes "cid \<noteq> ''''" "p \<noteq> ''''"
  shows "\<exists>st'. ServeRelay exampleRelayEnv exampleRelaySrv False \<lparr>rq_method = ''POST'', rq_path = ''/enqueue'', rq_authz = '''',
      rq_apiKey = ''owner'', rq_body = EnqueueBody cid p 0\<rparr> = (st', Created ''n'')"
proof -
  have "resolveIdentity exampleRelayEnv exampleRelaySrv \<lparr>rq_method = ''POST'', rq_path = ''/enqueue'', rq_authz = '''',
      rq_apiKey = ''owner'', rq_body = EnqueueBody cid p 0\<rparr> = Caller OwnerIdentity None"
    using owner_identity [OF example_ownerKey] by simp
  moreover have "\<exists>st1. enqueueAllowed exampleRelayEnv exampleRelaySrv OwnerIdentity None = (st1, None) \<and> rs_db st1 = rs_db exampleRelaySrv"
    by (simp add: enqueueAllowed_def AllowAt_def UsageToday_def exampleRelayEnv_def exampleRelaySrv_def exampleBucket_def exampleTable_defs)
  then obtain st1 where "enqueueAllowed exampleRelayEnv exampleRelaySrv OwnerIdentity None = (st1, None)" "rs_db st1 = rs_db exampleRelaySrv" by blast
  ultimately show ?thesis using assms
    by (simp add: ServeRelay_def identityMiddleware_def publicPaths_def workerPaths_def relayMux_def handleEnqueue_def CountPending_def
        Enqueue_job_def exampleRelayEnv_def exampleRelaySrv_def exampleTable_defs)
qed


end
