(* ===== verification/Server_Main.thy ===== *)
theory Server_Main
  imports System Layers_Machine Relay_Clients
begin

text \<open>
  The program \<open>src/cmd/server/main.go\<close>: its configuration from the environment and \<open>config.json\<close>, the
  shipped model roster, the construction of the backend and the server, the outer handler, and the
  end of a run; with the stub backend of \<open>src/internal/backend/stub\<close>. The environment, the configuration
  file and its JSON decoding are arguments. Flags, logging, the tray and the dashboard are left out.
\<close>

section \<open>Configuration\<close>

definition envStr :: "(string \<Rightarrow> string) \<Rightarrow> string \<Rightarrow> string \<Rightarrow> string" where
  "envStr getenv' key fallback = (if getenv' key \<noteq> '''' then getenv' key else fallback)"

text \<open>\<open>strconv.Atoi\<close>: an optional sign and decimal digits, within 64 bits.\<close>

definition digitsVal :: "string \<Rightarrow> int" where
  "digitsVal ds = fold (\<lambda>c n. n * 10 + (of_char c - 48)) ds 0"

definition strconvAtoi :: "string \<Rightarrow> int option" where
  "strconvAtoi s =
     (let neg = (s \<noteq> [] \<and> hd s = CHR ''-''); ds = (if s \<noteq> [] \<and> (hd s = CHR ''-'' \<or> hd s = CHR ''+'') then tl s else s);
          v = (if neg then - digitsVal ds else digitsVal ds)
      in if ds = [] \<or> \<not> list_all (\<lambda>c. 48 \<le> (of_char c :: nat) \<and> (of_char c :: nat) \<le> 57) ds then None
         else if - (2 ^ 63) \<le> v \<and> v < 2 ^ 63 then Some v else None)"

definition envInt_main :: "(string \<Rightarrow> string) \<Rightarrow> string \<Rightarrow> int \<Rightarrow> int" where
  "envInt_main getenv' key fallback =
     (if getenv' key \<noteq> '''' then (case strconvAtoi (getenv' key) of Some n \<Rightarrow> n | None \<Rightarrow> fallback) else fallback)"

record appConfig =
  RailwayQueueURL :: string
  RailwayAPIKey :: string

text \<open>\<open>file\<close> is what reading \<open>config.json\<close> returned, \<open>decode\<close> its decoding.\<close>

definition loadConfig :: "(string \<Rightarrow> string) \<Rightarrow> (string \<Rightarrow> appConfig option) \<Rightarrow> string option \<Rightarrow> appConfig" where
  "loadConfig getenv' decode file =
     (let cfg = (case Option.bind file decode of Some c \<Rightarrow> c | None \<Rightarrow> \<lparr>RailwayQueueURL = '''', RailwayAPIKey = ''''\<rparr>)
      in \<lparr>RailwayQueueURL = envStr getenv' ''RAILWAY_QUEUE_URL'' (RailwayQueueURL cfg),
          RailwayAPIKey = envStr getenv' ''RAILWAY_QUEUE_API_KEY'' (RailwayAPIKey cfg)\<rparr>)"

definition defaultMaxParallel :: int where "defaultMaxParallel = 2"

definition maxParallelOf :: "(string \<Rightarrow> string) \<Rightarrow> int" where
  "maxParallelOf getenv' = (let n = envInt_main getenv' ''HIS_MAX_PARALLEL'' defaultMaxParallel in if n < 1 then 1 else n)"

section \<open>The shipped roster\<close>

definition rosterWeak :: ModelDescriptor where
  "rosterWeak = \<lparr>TierLabel = TierWeak, Name = ''lfm2-vl-3b-instruct'', FilePath = ''models'' @ [CHR 0x5C] @ ''lfm2-vl-3b-instruct-q4_k_m.gguf'',
     MMProjPath = ''models'' @ [CHR 0x5C] @ ''mmproj-lfm2-vl-3b-instruct-q8_0.gguf'', RequiredVRAMMB = 1568, Modality = ''text'',
     GPULayers = 0, Port = 8093, TotalLayers = 30, KVOverheadMB = 0, KVCacheMB = 40, KVFixedMB = 182,
     VisionRequiredVRAMMB = 1568, VisionKVCacheMB = 40, VisionKVFixedMB = 982, RequireChatTemplate = True\<rparr>"

definition rosterMid :: ModelDescriptor where
  "rosterMid = \<lparr>TierLabel = TierMid, Name = ''gemma-4-e2b-q4_k_m'', FilePath = ''models'' @ [CHR 0x5C] @ ''gemma-4-e2b-q4_k_m.gguf'',
     MMProjPath = '''', RequiredVRAMMB = 2963, Modality = ''text'',
     GPULayers = 0, Port = 8091, TotalLayers = 30, KVOverheadMB = 0, KVCacheMB = 450, KVFixedMB = 250,
     VisionRequiredVRAMMB = 0, VisionKVCacheMB = 0, VisionKVFixedMB = 0, RequireChatTemplate = False\<rparr>"

definition rosterStrong :: ModelDescriptor where
  "rosterStrong = \<lparr>TierLabel = TierStrong, Name = ''gemma-4-e4b-q4_k_m'', FilePath = ''models'' @ [CHR 0x5C] @ ''gemma-4-e4b-q4_k_m.gguf'',
     MMProjPath = '''', RequiredVRAMMB = 4747, Modality = ''text'',
     GPULayers = 0, Port = 8092, TotalLayers = 34, KVOverheadMB = 0, KVCacheMB = 580, KVFixedMB = 320,
     VisionRequiredVRAMMB = 0, VisionKVCacheMB = 0, VisionKVFixedMB = 0, RequireChatTemplate = False\<rparr>"

definition defaultRoster :: "ModelDescriptor list" where
  "defaultRoster = [rosterWeak, rosterMid, rosterStrong]"

lemmas roster_defs = defaultRoster_def rosterWeak_def rosterMid_def rosterStrong_def

definition rosterPorts :: "int list" where "rosterPorts = map Port defaultRoster"

text \<open>The reaper's set of live subprocesses; an inner backend that runs none reports process 0.\<close>

definition ownedPIDs :: "int list \<Rightarrow> int \<Rightarrow> bool" where
  "ownedPIDs runningPIDs pid = (pid \<noteq> 0 \<and> pid \<in> set runningPIDs)"

section \<open>The stub backend\<close>

function fields :: "string \<Rightarrow> string list" where
  "fields s = (let t = dropWhile is_space s
     in if t = [] then [] else takeWhile (\<lambda>c. \<not> is_space c) t # fields (dropWhile (\<lambda>c. \<not> is_space c) t))"
  by pat_completeness auto
termination
proof (relation "measure length")
  fix s t :: string
  assume t: "t = dropWhile is_space s" "t \<noteq> []"
  then have "\<not> is_space (hd t)" using hd_dropWhile [of is_space s] by simp
  then have "dropWhile (\<lambda>c. \<not> is_space c) t = dropWhile (\<lambda>c. \<not> is_space c) (tl t)" using t(2) by (cases t) auto
  moreover have "length (dropWhile (\<lambda>c. \<not> is_space c) (tl t)) \<le> length (tl t)" by (rule length_dropWhile_le)
  moreover have "length (tl t) < length t" using t(2) by (cases t) auto
  moreover have "length t \<le> length s" using t(1) by (simp add: length_dropWhile_le)
  ultimately show "(dropWhile (\<lambda>c. \<not> is_space c) t, s) \<in> measure length" by simp
qed simp

declare fields.simps [simp del]

definition stubOutput :: "Request \<Rightarrow> string" where
  "stubOutput req = (if Messages req \<noteq> [] then ''stub reply ['' @ RequestID req @ ''] to '' @ Itoa (int (length (Messages req))) @ '' messages''
     else ''stub output ['' @ RequestID req @ '']'')"

definition chunkWords :: "string \<Rightarrow> string list" where
  "chunkWords s = (case fields s of [] \<Rightarrow> [s] | f # fs \<Rightarrow> f # map (\<lambda>w. CHR '' '' # w) fs)"

text \<open>\<open>ends n\<close>: the caller's context has ended by the \<open>n\<close>-th look at it; the first look is the wait for the
  latency. The occupancy counters of the tests are left out.\<close>

definition stub_Infer :: "nat \<Rightarrow> (nat \<Rightarrow> 'w \<Rightarrow> bool) \<Rightarrow> Request \<Rightarrow> ('w, Response res) call" where
  "stub_Infer latency ends req w = (if ends 0 w then (w, 0, Err (BackendError ''unavailable'' (Some (PlainError ''context''))))
     else (w, latency, Ok (zeroResponse\<lparr>Output := stubOutput req, TokensGenerated := 4, ModelTier := ''weak'', TokPerSecSample := 12\<rparr>)))"

fun stubChunks :: "(nat \<Rightarrow> bool) \<Rightarrow> nat \<Rightarrow> string list \<Rightarrow> chunk list \<times> bool" where
  "stubChunks ended n [] = ([], True)"
| "stubChunks ended n (p # ps) =
     (if ended n then ([], False) else case stubChunks ended (Suc n) ps of (out, ok) \<Rightarrow> ((ChunkContent, p) # out, ok))"

definition stub_InferStream :: "nat \<Rightarrow> (nat \<Rightarrow> 'w \<Rightarrow> bool) \<Rightarrow> Request \<Rightarrow> ('w, chunk list \<times> Response res) call" where
  "stub_InferStream latency ends req w =
     (if ends 0 w then (w, 0, [], Err (BackendError ''unavailable'' (Some (PlainError ''context''))))
      else case stubChunks (\<lambda>n. ends n w) 1 (chunkWords (stubOutput req)) of
             (out, ok) \<Rightarrow> (w, latency, out, if ok then Ok (zeroResponse\<lparr>TokensGenerated := 4, ModelTier := ''weak'', TokPerSecSample := 12\<rparr>)
                else Err (BackendError ''unavailable'' (Some (PlainError ''context'')))))"

definition stubBackend :: "nat \<Rightarrow> (nat \<Rightarrow> 'w \<Rightarrow> bool) \<Rightarrow> 'w inner_backend" where
  "stubBackend latency ends = \<lparr>inInfer = stub_Infer latency ends, inShutdown = (\<lambda>w. (w, 0, None)), SetNextGPULayers = None,
     SetNextNeedsVision = None, inTokPerSec = Some (\<lambda>_. 12), inInferStream = Some (stub_InferStream latency ends),
     inRestarting = None, inResidentMB = None, inTokenize = None, inNCtx = None\<rparr>"

section \<open>Construction\<close>

text \<open>
  \<open>llama d n\<close> is \<open>llamacpp.New\<close> for a descriptor and the degree of parallelism, \<open>nvml\<close> the GPU driver's reading
  of free memory.
\<close>

definition mainBackend :: "(string \<Rightarrow> string) \<Rightarrow> bool \<Rightarrow> (ModelDescriptor \<Rightarrow> int \<Rightarrow> 'w inner_backend) \<Rightarrow> ('w, int res) call \<Rightarrow>
    (nat \<Rightarrow> 'w \<Rightarrow> bool) \<Rightarrow> 'w Backend" where
  "mainBackend getenv' stub llama nvml ends =
     (let n = maxParallelOf getenv'
      in New_Backend ''text'' defaultRoster (if stub then (\<lambda>w. (w, 0, Ok 8000)) else nvml)
           (map (\<lambda>d. (TierLabel d, if stub then stubBackend 0 ends else llama d n)) defaultRoster)
           (DefaultOptions\<lparr>NotifyCh := Some 4, MaxParallel := n, HasReaper := \<not> stub\<rparr>))"

text \<open>A timeout of more than 292 years, where the conversion to nanoseconds would wrap, is not considered.\<close>

definition mainServer :: "(string \<Rightarrow> string) \<Rightarrow> appConfig \<Rightarrow> 'w relayCodec \<Rightarrow> ('w, int res) call \<Rightarrow> ('w \<Rightarrow> rat) \<Rightarrow> time \<Rightarrow> 'w Server" where
  "mainServer getenv' cfg rc nvml cpuPct now =
     (let srv = (New_Server (New_Queue 256) now)\<lparr>cpu := Some cpuPct, restartCh := Some (make_chan 1)\<rparr>;
          ms = envInt_main getenv' ''HIS_INFER_TIMEOUT_MS'' 0;
          srv1 = (if ms > 0 then SetInferTimeout ms srv else srv)
      in if RailwayQueueURL cfg \<noteq> '''' then
           SetRelayEnqueuer (Some (handoffClient rc (NewRelay (RailwayQueueURL cfg) (RailwayAPIKey cfg)))) (Some nvml)
             (srv1\<lparr>pauseSink := Some False\<rparr>)
         else srv1)"

definition chatsDirOf :: "(string \<Rightarrow> string) \<Rightarrow> (string list \<Rightarrow> string) \<Rightarrow> string \<Rightarrow> string" where
  "chatsDirOf getenv' joinPath flagChatsDir =
     (let d = (if flagChatsDir = '''' then getenv' ''CHATS_DIR'' else flagChatsDir)
      in if d = '''' then joinPath [getenv' ''LOCALAPPDATA'', ''home-inference-server'', ''chats''] else d)"

definition bindAddrOf :: "(string \<Rightarrow> string) \<Rightarrow> string" where
  "bindAddrOf getenv' = (if getenv' ''HIS_BIND_ADDR'' = '''' then '':'' @ envStr getenv' ''PORT'' ''8080'' else getenv' ''HIS_BIND_ADDR'')"

text \<open>\<open>strings.Split\<close> at commas, and the outer handler: CORS around the key check around the routes.\<close>

fun splitComma :: "string \<Rightarrow> string list" where
  "splitComma [] = [[]]"
| "splitComma (c # rest) = (if c = CHR '','' then [] # splitComma rest else (c # hd (splitComma rest)) # tl (splitComma rest))"

definition mainRoutes :: "(httpRequest \<Rightarrow> 'r) \<Rightarrow> (httpRequest \<Rightarrow> 'r) \<Rightarrow> httpRequest \<Rightarrow> 'r" where
  "mainRoutes srv dash r = (if has_prefix (hq_path r) ''/v1/'' \<or> hq_path r = ''/healthz'' then srv r else dash r)"

definition mainHandler :: "(string \<Rightarrow> string) \<Rightarrow> (httpRequest \<Rightarrow> 'r) \<Rightarrow> (httpRequest \<Rightarrow> 'r) \<Rightarrow> (httpResponse \<Rightarrow> 'r) \<Rightarrow> httpRequest \<Rightarrow>
    string option \<times> 'r" where
  "mainHandler getenv' srv dash answer r =
     (let inside = APIKeyAuth (getenv' ''HIS_API_KEY'') (mainRoutes srv dash) answer
      in if getenv' ''HIS_CORS_ORIGINS'' \<noteq> '''' then CORS (splitComma (getenv' ''HIS_CORS_ORIGINS'')) inside answer r else (None, inside r))"

text \<open>The end of a run: the backend stops every subprocess, then the queue closes; a restart leaves its
  sentinel (the last component) for the relaunch loop.\<close>

definition mainStop :: "bool \<Rightarrow> 'w Backend \<Rightarrow> 'w sys \<Rightarrow> 'w Server \<Rightarrow> 'w Backend \<times> 'w sys \<times> 'w Server \<times> bool" where
  "mainStop restart b s srv = (case Vram_Select.Shutdown b s of (b1, s1) \<Rightarrow> (b1, s1, srv\<lparr>queue := chan_close (queue srv)\<rparr>, restart))"

section \<open>Properties\<close>

lemma maxParallel_pos: "1 \<le> maxParallelOf getenv'"
  by (simp add: maxParallelOf_def Let_def)

lemma roster_sorted: "sort_key RequiredVRAMMB defaultRoster = defaultRoster"
  by (simp add: roster_defs)

lemma mainBackend_simps [simp]:
  "roster (mainBackend getenv' stub llama nvml ends) = defaultRoster"
  "MaxParallel (opts (mainBackend getenv' stub llama nvml ends)) = maxParallelOf getenv'"
  "BufferPct (opts (mainBackend getenv' stub llama nvml ends)) = 10" "sem (mainBackend getenv' stub llama nvml ends) = 0"
  using maxParallel_pos [of getenv']
  by (simp_all add: mainBackend_def New_Backend_def Let_def roster_sorted DefaultOptions_def)

lemma mainBackend_wf: "wf_backend (mainBackend getenv' stub llama nvml ends)"
  unfolding mainBackend_def Let_def
  by (rule New_Backend_wf) (auto simp: roster_defs wf_desc_def tier_label_defs DefaultOptions_def)

text \<open>
  C39. The shipped program starts in a state all other results apply to, whatever the environment
  says: the backend satisfies its invariant with a free slot and at least one worker, its roster is
  ordered by size as the tiers are by rank, every tier has sizes that are sizes, a weight and a port of
  its own, and vision is on the weak tier only.
\<close>

theorem shipped_configuration_sound:
  "let b = mainBackend getenv' stub llama nvml ends in
      wf_backend b \<and> hasSlot b \<and> sorted (map (tierRank \<circ> TierLabel) (roster b)) \<and> sorted (map RequiredVRAMMB (roster b))
    \<and> distinct (map Port (roster b)) \<and> rosterPorts = map Port (roster b)
    \<and> filter HasVision (roster b) = [rosterWeak] \<and> list_all (\<lambda>d. wf_desc d \<and> 0 < WeightMB d False) (roster b)"
proof -
  let ?b = "mainBackend getenv' stub llama nvml ends"
  have "hasSlot ?b" using maxParallel_pos [of getenv'] by (simp add: hasSlot_def)
  then show ?thesis using mainBackend_wf [of getenv' stub llama nvml ends]
    by (simp add: Let_def roster_defs wf_desc_def WeightMB_def HasVision_def tierRank_def tier_label_defs rosterPorts_def)
qed

text \<open>The layer split as plain integer division, and its three thresholds on the shipped sizes.\<close>

lemma div_lt_one: "0 < (w::int) \<Longrightarrow> a div w < 1 \<longleftrightarrow> a < w"
  using div_le_iff_mult [of w 1 a] by linarith

lemma FitLayers_div:
  assumes "0 < w" "0 \<le> avail" "0 < t"
  shows "FitLayers w kv avail t 10 = (let x = avail * 100 div 110 - kv in
    if w \<le> x then -1 else if x * t < w then 0 else x * t div w)"
proof -
  define x where "x = avail * 100 div 110 - kv"
  have "avail * 100 sdiv 110 = avail * 100 div 110" using assms(2) by (intro sdiv_nonneg) auto
  then have F: "FitLayers w kv avail t 10 = (if x \<ge> w then -1 else if x \<le> 0 then 0
      else let l = x * t sdiv w in if l < 1 then 0 else if l \<ge> t then -1 else l)"
    using assms unfolding FitLayers_def Let_def x_def by simp
  have low: "x * t < w" if "x \<le> 0" using that assms(1,3) mult_nonpos_nonneg [of x t] by linarith
  have "\<not> t \<le> x * t div w" if "x < w" using that assms(1,3) by (simp add: div_le_iff_mult mult.commute)
  moreover have "x * t sdiv w = x * t div w" if "0 < x" using that assms(1,3) by (intro sdiv_nonneg) auto
  ultimately show ?thesis unfolding F x_def [symmetric] Let_def using low assms(1) by (auto simp: div_lt_one)
qed

lemma free_threshold: "avail * 100 div 110 < (y::int) \<longleftrightarrow> avail * 10 < y * 11"
  using div_le_iff_mult [of 110 y "avail * 100"] by linarith

text \<open>
  C40. Which tier the shipped program loads for a text request, as a function of the free memory in
  megabytes and at the default two slots: from 1782 the strong tier, fully on the GPU from 6850 and
  with part of its layers below; down to 1374 part of the middle tier; down to 347 part of the weak tier;
  down to 288 the weak tier on the CPU with its caches on the GPU; below that nothing.
\<close>

theorem shipped_tier_thresholds:
  assumes "maxParallelOf getenv' = 2" and "0 \<le> avail"
  shows "chooseTier (mainBackend getenv' stub llama nvml ends) None False avail =
    (if 6850 \<le> avail then Some (rosterStrong, - 1)
     else if 1782 \<le> avail then Some (rosterStrong, (avail * 100 div 110 - 1480) * 34 div 4747)
     else if 1374 \<le> avail then Some (rosterMid, (avail * 100 div 110 - 1150) * 30 div 2963)
     else if 347 \<le> avail then Some (rosterWeak, (avail * 100 div 110 - 262) * 30 div 1568)
     else if 288 \<le> avail then Some (rosterWeak, 0) else None)"
proof -
  let ?b = "mainBackend getenv' stub llama nvml ends"
  have fit: "fitOf ?b False avail rosterStrong = FitLayers 4747 1480 avail 34 10"
    "fitOf ?b False avail rosterMid = FitLayers 2963 1150 avail 30 10"
    "fitOf ?b False avail rosterWeak = FitLayers 1568 262 avail 30 10"
    and kv: "ScaledKVOverheadMB rosterStrong 2 False = 1480" "ScaledKVOverheadMB rosterMid 2 False = 1150" "ScaledKVOverheadMB rosterWeak 2 False = 262"
    by (simp_all add: fitOf_def assms(1) roster_defs WeightMB_def ScaledKVOverheadMB_def KVParts_def)
  define y where "y = avail * 100 div 110"
  have T: "y < n \<longleftrightarrow> avail * 10 < n * 11" for n using free_threshold [of avail n] by (simp add: y_def)
  note F = FitLayers_div [OF _ assms(2), of 4747 34 1480] FitLayers_div [OF _ assms(2), of 2963 30 1150] FitLayers_div [OF _ assms(2), of 1568 30 262]
  have S: "fitOf ?b False avail rosterStrong = (if 6850 \<le> avail then - 1 else if avail < 1782 then 0 else (y - 1480) * 34 div 4747)"
    using F(1) fit(1) T [of 6227] T [of 1620] by (auto simp: y_def [symmetric] Let_def)
  have M: "fitOf ?b False avail rosterMid = (if avail < 1374 then 0 else (y - 1150) * 30 div 2963)" if "avail < 1782"
    using F(2) fit(2) T [of 4113] T [of 1249] that by (auto simp: y_def [symmetric] Let_def)
  have W: "fitOf ?b False avail rosterWeak = (if avail < 347 then 0 else (y - 262) * 30 div 1568)" if "avail < 1374"
    using F(3) fit(3) T [of 1830] T [of 315] that by (auto simp: y_def [symmetric] Let_def)
  have nz: "(y - 1480) * 34 div 4747 \<noteq> 0" if "1782 \<le> avail" using T [of 1620] that div_le_iff_mult [of 4747 1 "(y - 1480) * 34"] by auto
  have nz2: "(y - 1150) * 30 div 2963 \<noteq> 0" if "1374 \<le> avail" using T [of 1249] that div_le_iff_mult [of 2963 1 "(y - 1150) * 30"] by auto
  have nz3: "(y - 262) * 30 div 1568 \<noteq> 0" if "347 \<le> avail" using T [of 315] that div_le_iff_mult [of 1568 1 "(y - 262) * 30"] by auto
  have m: "matches None False d" for d by (simp add: matches_def forcedOk_def)
  have fb: "fitsWithBuffer 262 avail 10 \<longleftrightarrow> 288 \<le> avail" "fitsWithBuffer 1150 avail 10 \<longleftrightarrow> 1265 \<le> avail"
     "fitsWithBuffer 1480 avail 10 \<longleftrightarrow> 1628 \<le> avail" by (simp_all add: fitsWithBuffer_def sdiv_nonneg)
  show ?thesis
    using assms(2) S M W nz nz2 nz3 unfolding y_def [symmetric]
    by (simp add: chooseTier_def m defaultRoster_def kv fb assms(1))
qed

theorem shipped_tier_thresholds_witness:
  "chooseTier (mainBackend (\<lambda>_. '''') False (\<lambda>_ _. stubBackend 0 (\<lambda>_ _. False)) (\<lambda>w. (w, 0, Ok w)) (\<lambda>_ _. False)) None False 3000
     = Some (rosterStrong, 8)"
proof -
  have n: "maxParallelOf (\<lambda>_. '''') = 2" by (simp add: maxParallelOf_def envInt_main_def defaultMaxParallel_def)
  show ?thesis by (subst shipped_tier_thresholds [OF n]) simp_all
qed

text \<open>
  The stub backend streams exactly the text its blocking call returns, word by word, for request ids
  without white space (the server's own are UUIDs).
\<close>

definition joinSp :: "string list \<Rightarrow> string" where
  "joinSp ws = (case ws of [] \<Rightarrow> [] | w # ws' \<Rightarrow> w @ concat (map (\<lambda>w. CHR '' '' # w) ws'))"

definition isWord :: "string \<Rightarrow> bool" where
  "isWord w = (w \<noteq> [] \<and> list_all (\<lambda>c. \<not> is_space c) w)"

lemma fields_word:
  assumes "isWord w" "rest = [] \<or> is_space (hd rest)"
  shows "fields (w @ rest) = w # fields rest"
proof -
  have d: "dropWhile is_space (w @ rest) = w @ rest" using assms(1) by (cases w) (auto simp: isWord_def)
  have "takeWhile (\<lambda>c. \<not> is_space c) (w @ rest) = w" "dropWhile (\<lambda>c. \<not> is_space c) (w @ rest) = rest"
    using assms by (cases rest; auto simp: isWord_def list_all_iff)+
  then show ?thesis using d assms(1) by (subst fields.simps) (simp add: Let_def isWord_def)
qed

lemma fields_space: "fields (CHR '' '' # bs) = fields bs"
  by (subst (1 2) fields.simps) (simp add: is_space_def Let_def)

lemma fields_joinSp: "list_all isWord ws \<Longrightarrow> fields (joinSp ws) = ws"
proof (induction ws)
  case Nil
  then show ?case by (subst fields.simps) (simp add: joinSp_def)
next
  case (Cons w ws)
  have "fields (w @ concat (map (\<lambda>w. CHR '' '' # w) ws)) = w # fields (concat (map (\<lambda>w. CHR '' '' # w) ws))"
    using Cons.prems by (intro fields_word) (cases ws; simp add: is_space_def)+
  also have "fields (concat (map (\<lambda>w. CHR '' '' # w) ws)) = fields (joinSp ws)"
    by (cases ws) (simp_all add: joinSp_def fields_space)
  finally show ?case using Cons by (simp add: joinSp_def)
qed

lemma isWord_decimal: "isWord (decimal n)"
proof (induction n rule: decimal.induct)
  case (1 n)
  have d: "\<not> is_space (char_of (48 + k))" if "k < 10" for k :: nat
  proof -
    have "k \<in> {0, 1, 2, 3, 4, 5, 6, 7, 8, 9}" using that by auto
    then show ?thesis by (auto simp: is_space_def char_of_def)
  qed
  show ?case using 1 d [of n] d [of "n mod 10"] by (subst decimal.simps) (auto simp: isWord_def)
qed

lemma stub_stream_matches:
  assumes "list_all (\<lambda>c. \<not> is_space c) (RequestID req)"
  shows "concat (chunkWords (stubOutput req)) = stubOutput req"
proof -
  have id: "isWord (''['' @ RequestID req @ '']'')" using assms by (simp add: isWord_def is_space_def)
  have "\<exists>ws. ws \<noteq> [] \<and> list_all isWord ws \<and> stubOutput req = joinSp ws"
  proof (cases "Messages req = []")
    case True
    then show ?thesis using id
      by (intro exI [of _ "[''stub'', ''output'', ''['' @ RequestID req @ '']'']"]) (simp add: stubOutput_def joinSp_def isWord_def is_space_def)
  next
    case False
    then show ?thesis using id isWord_decimal [of "length (Messages req)"]
      by (intro exI [of _ "[''stub'', ''reply'', ''['' @ RequestID req @ '']'', ''to'', Itoa (int (length (Messages req))), ''messages'']"])
         (simp add: stubOutput_def joinSp_def isWord_def is_space_def Itoa_def)
  qed
  then obtain ws where "ws \<noteq> []" "list_all isWord ws" "stubOutput req = joinSp ws" by blast
  then show ?thesis using fields_joinSp [of ws] by (cases ws) (simp_all add: chunkWords_def joinSp_def)
qed

end
