(* ===== verification/Services.thy ===== *)
theory Services
  imports Apps_Retrieve Sample_Ring
begin

text \<open>
  The program's side of the services it depends on: the knowledge files of the public apps
  (\<open>src/internal/apps/knowledge.go\<close>), the hosted fallback model (\<open>src/internal/hosted\<close>), web search
  (\<open>src/internal/websearch\<close>) and the CPU meter (\<open>src/internal/system\<close>). What the network or the host
  answers, and JSON, are arguments.
\<close>

section \<open>Knowledge files\<close>

definition MaxKnowledgeBytes :: nat where "MaxKnowledgeBytes = 524288"

text \<open>One download: no answer, or a status with the body and whether reading it failed.\<close>

type_synonym download = "(nat \<times> string \<times> bool) option"

record Source =
  src_url :: string
  src_ready :: bool
  src_index :: "Index option"

definition NewSource :: "string \<Rightarrow> Source" where
  "NewSource url = \<lparr>src_url = url, src_ready = False, src_index = None\<rparr>"

text \<open>\<open>decode\<close> is the JSON decoding of a version and documents.\<close>

record knowledgeEnv =
  ke_decode :: "string \<Rightarrow> (int \<times> Document list) option"
  ke_isLetter :: "string \<Rightarrow> bool"

definition Refresh :: "knowledgeEnv \<Rightarrow> download \<Rightarrow> Source \<Rightarrow> Source \<times> string option" where
  "Refresh env out s =
     (case out of
        None \<Rightarrow> (s, Some ''unreachable'')
      | Some (status, full, readErr) \<Rightarrow>
          if status \<noteq> 200 then (s, Some ''status'')
          else let body = take (MaxKnowledgeBytes + 1) full in
               if readErr then (s, Some ''read'')
               else if length body > MaxKnowledgeBytes then (s, Some ''too large'')
               else (case ke_decode env body of
                       None \<Rightarrow> (s, Some ''not JSON'')
                     | Some (version, docs) \<Rightarrow>
                         if \<not> knowledgeOk version docs then (s, Some ''invalid'')
                         else (s\<lparr>src_index := Some (NewIndex (ke_isLetter env) docs)\<rparr>, None)))"

text \<open>\<open>Run\<close>: the first attempt makes the source ready, good or bad; each tick refreshes again.\<close>

definition firstRefresh :: "knowledgeEnv \<Rightarrow> download \<Rightarrow> Source \<Rightarrow> Source" where
  "firstRefresh env out s = (fst (Refresh env out s))\<lparr>src_ready := True\<rparr>"

definition tickRefresh :: "knowledgeEnv \<Rightarrow> download \<Rightarrow> Source \<Rightarrow> Source" where
  "tickRefresh env out s = fst (Refresh env out s)"

definition Run_source :: "knowledgeEnv \<Rightarrow> download list \<Rightarrow> Source \<Rightarrow> Source" where
  "Run_source env outs s = (case outs of [] \<Rightarrow> s | out # ticks \<Rightarrow> fold (tickRefresh env) ticks (firstRefresh env out s))"

text \<open>
  The registry starts a source the first time its URL is asked for. \<open>first\<close> is the first download when it ends
  before the caller's context does; a source that is ready is read at once.
\<close>

type_synonym Registry = "string \<rightharpoonup> Source"

definition Registry_Index :: "knowledgeEnv \<Rightarrow> Registry \<Rightarrow> string \<Rightarrow> download option \<Rightarrow> Registry \<times> Index option" where
  "Registry_Index env reg url first =
     (let s = (case reg url of Some s \<Rightarrow> s | None \<Rightarrow> NewSource url);
          s1 = (if src_ready s then s else case first of None \<Rightarrow> s | Some out \<Rightarrow> firstRefresh env out s)
      in (reg(url \<mapsto> s1), src_index s1))"

subsection \<open>Properties\<close>

text \<open>The documents a download supplies, if it is acceptable.\<close>

definition accepted :: "knowledgeEnv \<Rightarrow> download \<Rightarrow> Document list option" where
  "accepted env out = (case out of None \<Rightarrow> None | Some (st, body, bad) \<Rightarrow>
      if st = 200 \<and> \<not> bad \<and> length body \<le> MaxKnowledgeBytes then
        (case ke_decode env body of Some (v, docs) \<Rightarrow> if knowledgeOk v docs then Some docs else None | None \<Rightarrow> None)
      else None)"

lemma Refresh_accepted:
  "fst (Refresh env out s) = (case accepted env out of None \<Rightarrow> s | Some docs \<Rightarrow> s\<lparr>src_index := Some (NewIndex (ke_isLetter env) docs)\<rparr>)"
proof (cases out)
  case (Some r)
  obtain st body bad where r: "r = (st, body, bad)" by (metis prod_cases3)
  show ?thesis
  proof (cases "st = 200 \<and> \<not> bad")
    case True
    then show ?thesis by (cases "length body \<le> MaxKnowledgeBytes") (auto simp: Some r Refresh_def accepted_def Let_def split: option.splits)
  next
    case False
    have "accepted env (Some (st, body, bad)) = None" using False by (auto simp: accepted_def)
    with False show ?thesis by (auto simp: Some r Refresh_def Let_def)
  qed
qed (simp add: Refresh_def accepted_def)

fun lastSome :: "'a option list \<Rightarrow> 'a option" where
  "lastSome [] = None"
| "lastSome (x # xs) = (case lastSome xs of None \<Rightarrow> x | Some y \<Rightarrow> Some y)"

lemma fold_tick_index:
  "src_index (fold (tickRefresh env) outs s) =
     (case lastSome (map (accepted env) outs) of None \<Rightarrow> src_index s | Some docs \<Rightarrow> Some (NewIndex (ke_isLetter env) docs))"
  by (induction outs arbitrary: s) (auto simp: tickRefresh_def Refresh_accepted split: option.split)

text \<open>
  C38. A public app answers from the latest good copy of its knowledge. After any sequence of
  downloads, failed, oversized, malformed or well formed, the index in use is built from the documents
  of the last acceptable one, and there is none only if no download was acceptable; what is accepted
  is never empty, and every document in it has an id of its own, a title and a text.
\<close>

theorem knowledge_last_good:
  "src_index (Run_source env outs (NewSource url)) = map_option (NewIndex (ke_isLetter env)) (lastSome (map (accepted env) outs))
    \<and> (\<forall>docs. lastSome (map (accepted env) outs) = Some docs \<longrightarrow>
        docs \<noteq> [] \<and> distinct (map doc_ID docs) \<and> list_all (\<lambda>d. doc_ID d \<noteq> '''' \<and> doc_Title d \<noteq> '''' \<and> doc_Text d \<noteq> '''') docs)"
proof
  show "src_index (Run_source env outs (NewSource url)) = map_option (NewIndex (ke_isLetter env)) (lastSome (map (accepted env) outs))"
    by (cases outs) (auto simp: Run_source_def fold_tick_index firstRefresh_def Refresh_accepted NewSource_def split: option.split)
  have ok: "docsOk ds seen \<Longrightarrow> distinct (map doc_ID ds) \<and> set (map doc_ID ds) \<inter> set seen = {}
      \<and> list_all (\<lambda>d. doc_ID d \<noteq> '''' \<and> doc_Title d \<noteq> '''' \<and> doc_Text d \<noteq> '''') ds" for ds seen
    by (induction ds seen rule: docsOk.induct) (auto split: if_splits)
  have acc: "docs \<noteq> [] \<and> docsOk docs []" if "accepted env out = Some docs" for out docs
    using that by (auto simp: accepted_def knowledgeOk_def split: option.splits prod.splits if_splits)
  have mem: "lastSome xs = Some docs \<Longrightarrow> Some docs \<in> set xs" for xs :: "Document list option list" and docs
    by (induction xs) (auto split: option.splits)
  show "\<forall>docs. lastSome (map (accepted env) outs) = Some docs \<longrightarrow>
      docs \<noteq> [] \<and> distinct (map doc_ID docs) \<and> list_all (\<lambda>d. doc_ID d \<noteq> '''' \<and> doc_Title d \<noteq> '''' \<and> doc_Text d \<noteq> '''') docs"
  proof (intro allI impI)
    fix docs assume "lastSome (map (accepted env) outs) = Some docs"
    from mem [OF this] obtain out where "accepted env out = Some docs" by auto
    from acc [OF this] have "docs \<noteq> []" "docsOk docs []" by auto
    with ok [of docs "[]"] show "docs \<noteq> [] \<and> distinct (map doc_ID docs)
        \<and> list_all (\<lambda>d. doc_ID d \<noteq> '''' \<and> doc_Title d \<noteq> '''' \<and> doc_Text d \<noteq> '''') docs" by blast
  qed
qed

definition exampleKnowledgeEnv :: knowledgeEnv where
  "exampleKnowledgeEnv = \<lparr>ke_decode = (\<lambda>b. if b = ''good'' then Some (1, [\<lparr>doc_ID = ''a'', doc_Title = ''T'', doc_Link = '''', doc_Text = ''x'',
      doc_Always = False\<rparr>]) else None), ke_isLetter = (\<lambda>_. False)\<rparr>"

theorem knowledge_last_good_witness:
  "\<exists>docs. src_index (Run_source exampleKnowledgeEnv [None, Some (200, ''good'', False), Some (500, '''', False), Some (200, ''bad'', False)] (NewSource ''u''))
      = Some (NewIndex (\<lambda>_. False) docs) \<and> docs \<noteq> [] \<and> distinct (map doc_ID docs)"
proof -
  let ?outs = "[None, Some (200, ''good'', False), Some (500, '''', False), Some (200, ''bad'', False)] :: download list"
  obtain docs where l: "lastSome (map (accepted exampleKnowledgeEnv) ?outs) = Some docs"
    by (simp add: accepted_def exampleKnowledgeEnv_def knowledgeOk_def MaxKnowledgeBytes_def)
  from knowledge_last_good [of exampleKnowledgeEnv ?outs "''u''"] l show ?thesis
    by (intro exI [of _ docs]) (simp add: exampleKnowledgeEnv_def)
qed

text \<open>The registry hands out only indexes of validated documents, and never drops one it has.\<close>

definition validated :: "knowledgeEnv \<Rightarrow> Index \<Rightarrow> bool" where
  "validated env ix = (\<exists>out docs. accepted env out = Some docs \<and> ix = NewIndex (ke_isLetter env) docs)"

definition registry_ok :: "knowledgeEnv \<Rightarrow> Registry \<Rightarrow> bool" where
  "registry_ok env reg = (\<forall>url s ix. reg url = Some s \<longrightarrow> src_index s = Some ix \<longrightarrow> validated env ix)"

lemma Registry_Index_ok:
  assumes "registry_ok env reg" "Registry_Index env reg url first = (reg', ix)"
  shows "registry_ok env reg' \<and> (\<forall>i. ix = Some i \<longrightarrow> validated env i)
    \<and> (\<forall>s. reg url = Some s \<longrightarrow> src_index s \<noteq> None \<longrightarrow> ix \<noteq> None)"
proof -
  define s where "s = (case reg url of Some s \<Rightarrow> s | None \<Rightarrow> NewSource url)"
  define s1 where "s1 = (if src_ready s then s else case first of None \<Rightarrow> s | Some out \<Rightarrow> firstRefresh env out s)"
  have R: "reg' = reg(url \<mapsto> s1)" "ix = src_index s1"
    using assms(2) unfolding Registry_Index_def Let_def s_def [symmetric] s1_def [symmetric] by simp_all
  have s: "validated env i" if "src_index s = Some i" for i
    using that assms(1) by (cases "reg url") (auto simp: s_def registry_ok_def NewSource_def)
  have "src_index s1 = src_index s \<or> (\<exists>i. validated env i \<and> src_index s1 = Some i)"
  proof (cases first)
    case (Some out)
    then show ?thesis by (cases "accepted env out") (auto simp: s1_def firstRefresh_def Refresh_accepted validated_def)
  qed (simp add: s1_def)
  with s R assms(1) show ?thesis by (auto simp: registry_ok_def s_def split: option.splits)
qed

section \<open>The hosted model\<close>

record completionRequest =
  cr_model :: string
  cr_messages :: "(string \<times> string) list"
  cr_maxTokens :: int
  cr_temperature :: rat
  cr_reasoning :: bool

record completionReply =
  rp_contents :: "string list"
  rp_error :: "int option"

datatype hostedError =
    CtxError
  | RequestFailed
  | StatusError nat
  | UnreadableReply
  | UpstreamError int
  | ErrEmpty

record hostedClient =
  hc_key :: string
  hc_model :: string

definition New_hosted :: "string \<Rightarrow> string \<Rightarrow> hostedClient option" where
  "New_hosted key model = (if key = '''' then None else Some \<lparr>hc_key = key, hc_model = model\<rparr>)"

definition hostedRequest :: "hostedClient \<Rightarrow> InferRequest \<Rightarrow> completionRequest" where
  "hostedRequest c req = \<lparr>cr_model = hc_model c,
     cr_messages = [(''system'', ir_SystemPrompt req), (''user'', (case ir_TextInput req of None \<Rightarrow> '''' | Some t \<Rightarrow> ti_Prompt t))],
     cr_maxTokens = ir_MaxTokens req, cr_temperature = ir_Temperature req, cr_reasoning = False\<rparr>"

definition maxReplyBytes :: nat where "maxReplyBytes = 262144"

text \<open>The transport answers with a status and a body, or not at all; \<open>ctxEnded\<close> tells whether the caller's
  context was the reason. A request always encodes and its URL is a constant.\<close>

definition Answer_hosted :: "(string \<Rightarrow> completionReply option) \<Rightarrow> (string \<Rightarrow> completionRequest \<Rightarrow> (nat \<times> string) option) \<Rightarrow> bool \<Rightarrow>
    hostedClient \<Rightarrow> InferRequest \<Rightarrow> hostedError + string" where
  "Answer_hosted decode send ctxEnded c req =
     (case send (hc_key c) (hostedRequest c req) of
        None \<Rightarrow> Inl (if ctxEnded then CtxError else RequestFailed)
      | Some (status, body) \<Rightarrow>
          if status \<noteq> 200 then Inl (StatusError status)
          else (case decode (take maxReplyBytes body) of
                  None \<Rightarrow> Inl UnreadableReply
                | Some out \<Rightarrow>
                    (case rp_error out of
                       Some code \<Rightarrow> Inl (UpstreamError code)
                     | None \<Rightarrow>
                         (case rp_contents out of
                            [] \<Rightarrow> Inl ErrEmpty
                          | content # _ \<Rightarrow> if trim_space content = '''' then Inl ErrEmpty else Inr content))))"

text \<open>A hosted answer is never blank, and it is the model's own text of a reply without an error.\<close>

lemma hosted_answer_real:
  assumes "Answer_hosted decode send ctxEnded c req = Inr txt"
  shows "\<exists>body out. send (hc_key c) (hostedRequest c req) = Some (200, body) \<and> decode (take maxReplyBytes body) = Some out
    \<and> rp_error out = None \<and> hd (rp_contents out) = txt \<and> trim_space txt \<noteq> ''''"
  using assms by (auto simp: Answer_hosted_def split: option.splits prod.splits if_splits list.splits)

section \<open>Web search\<close>

record Result_search =
  sr_Title :: string
  sr_URL :: string
  sr_Content :: string

definition maxResults :: nat where "maxResults = 5"
definition retryWait :: nat where "retryWait = 1500"

definition errConnFailed :: go_error where "errConnFailed = PlainError ''search backend unreachable''"

text \<open>\<open>errors.Is\<close> along the chain of causes.\<close>

fun errIs :: "go_error \<Rightarrow> go_error \<Rightarrow> bool" where
  "errIs (BackendError c cause) target = (BackendError c cause = target \<or> (case cause of None \<Rightarrow> False | Some e \<Rightarrow> errIs e target))"
| "errIs e target = (e = target)"

text \<open>
  \<open>se_send\<close> is the POST of a query with its result limit, \<open>se_ctxEnded\<close> whether the caller's context has ended,
  \<open>se_waitEnds\<close> whether it ends during the wait before a retry.
\<close>

record 'w searchEnv =
  se_send :: "string \<Rightarrow> nat \<Rightarrow> ('w, (nat \<times> string) option) call"
  se_decode :: "string \<Rightarrow> Result_search list option"
  se_ctxEnded :: "'w \<Rightarrow> bool"
  se_waitEnds :: "'w \<Rightarrow> bool"

definition doSearch :: "'w searchEnv \<Rightarrow> string \<Rightarrow> 'w sys \<Rightarrow> 'w sys \<times> Result_search list res" where
  "doSearch env query s =
     (case do_call (se_send env query maxResults) s of
        (s1, None) \<Rightarrow>
          (s1, Err (if se_ctxEnded env (ext s1) then BackendError ''timeout'' (Some (PlainError ''context''))
                    else BackendError ''tool_unavailable'' (Some errConnFailed)))
      | (s1, Some (status, body)) \<Rightarrow>
          (s1, if status = 429 then Err (berr ''tool_rate_limited'')
               else if status \<noteq> 200 then Err (berr ''tool_unavailable'')
               else (case se_decode env body of
                       None \<Rightarrow> Err (BackendError ''tool_unavailable'' (Some (PlainError ''decode'')))
                     | Some rs \<Rightarrow> Ok (take maxResults rs))))"

definition Search :: "'w searchEnv \<Rightarrow> string \<Rightarrow> 'w sys \<Rightarrow> 'w sys \<times> Result_search list res" where
  "Search env query s =
     (case doSearch env query s of
        (s1, Inr rs) \<Rightarrow> (s1, Inr rs)
      | (s1, Inl e) \<Rightarrow>
          if \<not> errIs e errConnFailed then (s1, Inl e)
          else if se_waitEnds env (ext s1) then (s1, Err (BackendError ''timeout'' (Some (PlainError ''context''))))
          else doSearch env query (s1\<lparr>clock := clock s1 + int retryWait\<rparr>))"

text \<open>The message of a rate-limit reply: the keyless envelope, then the flat form, then a fixed text.\<close>

record rateEnvelope =
  rv_Code :: string
  rv_Message :: string
  rv_Window :: string
  rv_RetryAfter :: "int option"

definition keylessCapped :: string where
  "keylessCapped = ''rate limited (keyless access is capped '' @ [CHR 0xE2, CHR 0x80, CHR 0x94] @ '' consider a free Tavily API key)''"

definition rateLimitMessage :: "(string \<Rightarrow> rateEnvelope option) \<Rightarrow> (string \<Rightarrow> string option) \<Rightarrow> string \<Rightarrow> string" where
  "rateLimitMessage envelope flat body =
     (let data = take 4096 body in
      case envelope data of
        Some e \<Rightarrow>
          if rv_Code e \<noteq> '''' then
            (if rv_Message e = '''' then ''rate limited'' else rv_Message e)
            @ (if rv_Window e \<noteq> '''' then '' (limit resets every '' @ rv_Window e @ '')'' else '''')
            @ (case rv_RetryAfter e of None \<Rightarrow> '''' | Some n \<Rightarrow> ''; retry after '' @ Itoa n @ ''s'')
          else (case flat data of Some m \<Rightarrow> if m \<noteq> '''' then m else keylessCapped | None \<Rightarrow> keylessCapped)
      | None \<Rightarrow> (case flat data of Some m \<Rightarrow> if m \<noteq> '''' then m else keylessCapped | None \<Rightarrow> keylessCapped))"

lemma doSearch_codes:
  assumes "doSearch env query s = (s1, r)"
  shows "(\<forall>rs. r = Inr rs \<longrightarrow> length rs \<le> maxResults)
    \<and> (\<forall>e. r = Inl e \<longrightarrow> isBackendErr e \<in> Some ` {''timeout'', ''tool_unavailable'', ''tool_rate_limited''})"
  using assms by (auto simp: doSearch_def split: prod.splits option.splits if_splits)

text \<open>
  A search gives the model at most five results or an error with a code of its own; it is sent a second
  time only when the service could not be reached at all, and at most once.
\<close>

lemma search_contract:
  assumes "Search env query s = (s', r)"
  shows "(\<forall>rs. r = Inr rs \<longrightarrow> length rs \<le> maxResults)
    \<and> (\<forall>e. r = Inl e \<longrightarrow> isBackendErr e \<in> Some ` {''timeout'', ''tool_unavailable'', ''tool_rate_limited''})
    \<and> (doSearch env query s = (s', r) \<or> (\<exists>s1. doSearch env query s = (s1, Err (BackendError ''tool_unavailable'' (Some errConnFailed)))
         \<and> (if se_waitEnds env (ext s1) then s' = s1 else doSearch env query (s1\<lparr>clock := clock s1 + 1500\<rparr>) = (s', r))))"
proof -
  obtain s1 r1 where 1: "doSearch env query s = (s1, r1)" by fastforce
  show ?thesis
  proof (cases "\<exists>e. r1 = Inl e \<and> errIs e errConnFailed")
    case True
    then obtain e where e: "r1 = Inl e" "errIs e errConnFailed" by blast
    have c: "e = BackendError ''tool_unavailable'' (Some errConnFailed)"
      using 1 e by (auto simp: doSearch_def errConnFailed_def split: prod.splits option.splits if_splits)
    show ?thesis
    proof (cases "se_waitEnds env (ext s1)")
      case True
      with 1 e assms have "s' = s1" "r = Err (BackendError ''timeout'' (Some (PlainError ''context'')))" by (simp_all add: Search_def)
      with 1 e c True show ?thesis by simp
    next
      case False
      with 1 e assms have "doSearch env query (s1\<lparr>clock := clock s1 + 1500\<rparr>) = (s', r)" by (simp add: Search_def retryWait_def)
      with doSearch_codes [OF this] 1 e c False show ?thesis by simp
    qed
  next
    case False
    with 1 assms have "s' = s1 \<and> r = r1" by (cases r1) (auto simp: Search_def)
    with 1 doSearch_codes [OF 1] show ?thesis by simp
  qed
qed

section \<open>The CPU meter\<close>

definition cpuRingSize :: nat where "cpuRingSize = 5"

record CPUMonitor =
  cm_ring :: "rat list"
  cm_n :: nat
  cm_head :: nat

definition NewCPUMonitor :: CPUMonitor where
  "NewCPUMonitor = \<lparr>cm_ring = replicate cpuRingSize 0, cm_n = 0, cm_head = 0\<rparr>"

definition cpuSample :: "rat \<Rightarrow> CPUMonitor \<Rightarrow> CPUMonitor" where
  "cpuSample x m = m\<lparr>cm_ring := (cm_ring m)[cm_head m := x], cm_head := (cm_head m + 1) mod cpuRingSize,
     cm_n := (if cm_n m < cpuRingSize then cm_n m + 1 else cm_n m)\<rparr>"

text \<open>One tick: an error or an empty list of readings is skipped.\<close>

definition cpuTick :: "rat list option \<Rightarrow> CPUMonitor \<Rightarrow> CPUMonitor" where
  "cpuTick reading m = (case reading of Some (x # _) \<Rightarrow> cpuSample x m | _ \<Rightarrow> m)"

definition Pct :: "CPUMonitor \<Rightarrow> rat" where
  "Pct m = (if cm_n m = 0 then 0 else sum_list (take (cm_n m) (cm_ring m)) / of_nat (cm_n m))"

definition Ready_cpu :: "CPUMonitor \<Rightarrow> bool" where
  "Ready_cpu m = (cm_n m > 0)"

interpretation cpu_meter: sample_ring cpuRingSize cm_ring cm_head cm_n cpuSample Pct
  by unfold_locales (simp_all add: cpuSample_def Pct_def cpuRingSize_def)

definition cpuReadings :: "rat list option list \<Rightarrow> rat list" where
  "cpuReadings rs = concat (map (\<lambda>r. case r of Some (x # _) \<Rightarrow> [x] | _ \<Rightarrow> []) rs)"

text \<open>The load the deferral decision reads is the average of the last five good readings, and zero before the first.\<close>

lemma cpu_average: "Pct (fold cpuTick rs NewCPUMonitor) = average (lastn 5 (cpuReadings rs))"
proof -
  have "cpu_meter.holds (fold cpuTick rs NewCPUMonitor) (cpuReadings rs)"
  proof (induction rs rule: rev_induct)
    case Nil
    show ?case by (simp add: cpuReadings_def) (rule cpu_meter.holds_empty, simp_all add: NewCPUMonitor_def)
  next
    case (snoc r rs)
    then show ?case by (auto simp: cpuReadings_def cpuTick_def intro: cpu_meter.holds_push split: option.split list.split)
  qed
  from cpu_meter.rate_average [OF this] show ?thesis by (simp add: cpuRingSize_def)
qed

end
