(* ===== verification/Members.thy ===== *)
theory Members
  imports Relay_Http
begin

text \<open>
  Who may use the relay with a token: the verifier of \<open>src/internal/stackauth/verifier.go\<close> with its cached key
  set, the account client of \<open>admin.go\<close>, and the member table as \<open>src/cmd/memberadd\<close> edits it. JSON, base64,
  the signature check and the token library are arguments; e-mail comparison is on ASCII letters.
\<close>

section \<open>Token verification\<close>

datatype authError = ErrNoToken | ErrKeyID | ErrInvalid | ErrIssuer | FetchError

record Claims =
  cl_Subject :: string
  cl_Email :: string

text \<open>The claims of a token as the library returns them, absent ones empty.\<close>

record tokenClaims =
  tk_iss :: string
  tk_sub :: string
  tk_primaryEmail :: string
  tk_email :: string

record jwk =
  jwk_Kty :: string
  jwk_Crv :: string
  jwk_Kid :: string
  jwk_X :: string
  jwk_Y :: string

text \<open>\<open>vf_fetched\<close> is \<open>None\<close> before the first successful fetch (the zero time).\<close>

record 'k Verifier =
  vf_projectID :: string
  vf_keys :: "(string \<times> 'k) list"
  vf_fetched :: "time option"
  vf_minRefre :: int

text \<open>
  \<open>av_header\<close>: algorithm and key id of a well-formed token. \<open>av_claims\<close>: the claims at a time, \<open>None\<close> when the
  library's own checks (expiry among them) fail.
\<close>

record ('k, 'w) authEnv =
  av_fetch :: "('w, (nat \<times> string) option) call"
  av_doc :: "string \<Rightarrow> jwk list option"
  av_b64 :: "string \<Rightarrow> nat list option"
  av_point :: "nat list \<Rightarrow> nat list \<Rightarrow> 'k"
  av_header :: "string \<Rightarrow> (string \<times> string) option"
  av_check :: "'k \<Rightarrow> string \<Rightarrow> bool"
  av_claims :: "time \<Rightarrow> string \<Rightarrow> tokenClaims option"

definition New_verifier :: "string \<Rightarrow> 'k Verifier" where
  "New_verifier projectID = \<lparr>vf_projectID = projectID, vf_keys = [], vf_fetched = None, vf_minRefre = 60000\<rparr>"

fun usableKeys :: "('k, 'w) authEnv \<Rightarrow> jwk list \<Rightarrow> (string \<times> 'k) list \<Rightarrow> (string \<times> 'k) list" where
  "usableKeys env [] keys = keys"
| "usableKeys env (k # ks) keys =
     (if jwk_Kty k \<noteq> ''EC'' \<or> jwk_Crv k \<noteq> ''P-256'' \<or> jwk_Kid k = '''' then usableKeys env ks keys
      else case (av_b64 env (jwk_X k), av_b64 env (jwk_Y k)) of
             (Some xb, Some yb) \<Rightarrow> usableKeys env ks ((jwk_Kid k, av_point env xb yb) # filter (\<lambda>e. fst e \<noteq> jwk_Kid k) keys)
           | _ \<Rightarrow> usableKeys env ks keys)"

definition refresh :: "('k, 'w) authEnv \<Rightarrow> 'k Verifier \<Rightarrow> 'w sys \<Rightarrow> 'k Verifier \<times> 'w sys \<times> authError option" where
  "refresh env v s =
     (case do_call (av_fetch env) s of
        (s1, None) \<Rightarrow> (v, s1, Some FetchError)
      | (s1, Some (status, body)) \<Rightarrow>
          if status \<noteq> 200 then (v, s1, Some FetchError)
          else (case av_doc env body of
                  None \<Rightarrow> (v, s1, Some FetchError)
                | Some doc \<Rightarrow>
                    let keys = usableKeys env doc [] in
                    if keys = [] then (v, s1, Some FetchError)
                    else (v\<lparr>vf_keys := keys, vf_fetched := Some (clock s1)\<rparr>, s1, None)))"

definition keyForID :: "('k, 'w) authEnv \<Rightarrow> 'k Verifier \<Rightarrow> 'w sys \<Rightarrow> string \<Rightarrow> 'k Verifier \<times> 'w sys \<times> (authError + 'k)" where
  "keyForID env v s kid =
     (case map_of (vf_keys v) kid of
        Some key \<Rightarrow> (v, s, Inr key)
      | None \<Rightarrow>
          let stale = (case vf_fetched v of None \<Rightarrow> True | Some t \<Rightarrow> clock s - t > vf_minRefre v) in
          if \<not> stale then (v, s, Inl ErrKeyID)
          else (case refresh env v s of
                  (v1, s1, Some e) \<Rightarrow> (v1, s1, Inl e)
                | (v1, s1, None) \<Rightarrow>
                    (v1, s1, case map_of (vf_keys v1) kid of Some key \<Rightarrow> Inr key | None \<Rightarrow> Inl ErrKeyID)))"

definition issuerOf :: "string \<Rightarrow> string" where
  "issuerOf projectID = ''https://api.stack-auth.com/api/v1/projects/'' @ projectID"

text \<open>What follows the key lookup: the signature, the library's checks, the issuer and the subject.\<close>

definition claimsOf :: "('k, 'w) authEnv \<Rightarrow> string \<Rightarrow> time \<Rightarrow> 'k \<Rightarrow> string \<Rightarrow> authError + Claims" where
  "claimsOf env projectID now key token =
     (if \<not> av_check env key token then Inl ErrInvalid
      else case av_claims env now token of
             None \<Rightarrow> Inl ErrInvalid
           | Some c \<Rightarrow>
               if tk_iss c \<noteq> issuerOf projectID then Inl ErrIssuer
               else if tk_sub c = '''' then Inl ErrInvalid
               else Inr \<lparr>cl_Subject = tk_sub c,
                 cl_Email = (if tk_primaryEmail c = '''' then tk_email c else tk_primaryEmail c)\<rparr>)"

definition Verify :: "('k, 'w) authEnv \<Rightarrow> 'k Verifier \<Rightarrow> 'w sys \<Rightarrow> string \<Rightarrow> 'k Verifier \<times> 'w sys \<times> (authError + Claims)" where
  "Verify env v s token =
     (if token = '''' then (v, s, Inl ErrNoToken)
      else case av_header env token of
             None \<Rightarrow> (v, s, Inl ErrInvalid)
           | Some (alg, kid) \<Rightarrow>
               if alg \<noteq> ''ES256'' then (v, s, Inl ErrInvalid)
               else (case keyForID env v s kid of
                       (v1, s1, Inl e) \<Rightarrow> (v1, s1, Inl (if e = ErrKeyID then ErrKeyID else ErrInvalid))
                     | (v1, s1, Inr key) \<Rightarrow> (v1, s1, claimsOf env (vf_projectID v) (clock s1) key token)))"

subsection \<open>Properties\<close>

text \<open>The key set is the cached one, or the usable keys of a document fetched in this call.\<close>

definition keysFrom :: "('k, 'w) authEnv \<Rightarrow> 'k Verifier \<Rightarrow> 'w sys \<Rightarrow> (string \<times> 'k) list \<Rightarrow> bool" where
  "keysFrom env v s keys = (keys = vf_keys v \<or> (\<exists>s1 body doc. do_call (av_fetch env) s = (s1, Some (200, body))
     \<and> av_doc env body = Some doc \<and> keys = usableKeys env doc [] \<and> keys \<noteq> []))"

lemma keysFrom_cached [simp]: "keysFrom env v s (vf_keys v)"
  by (simp add: keysFrom_def)

lemma refresh_keys:
  assumes "refresh env v s = (v', s', r)"
  shows "keysFrom env v s (vf_keys v')" "vf_projectID v' = vf_projectID v" "r \<noteq> Some ErrKeyID" "r \<noteq> None \<longrightarrow> v' = v"
  using assms by (auto simp: refresh_def keysFrom_def Let_def split: prod.splits option.splits if_splits)

lemma keyForID_keys:
  assumes "keyForID env v s kid = (v', s', r)"
  shows "keysFrom env v s (vf_keys v') \<and> vf_projectID v' = vf_projectID v \<and> (\<forall>k. r = Inr k \<longrightarrow> map_of (vf_keys v') kid = Some k)"
proof (cases "map_of (vf_keys v) kid")
  case None
  obtain v1 s1 e where R: "refresh env v s = (v1, s1, e)" by (metis prod_cases3)
  from assms None R refresh_keys(1,2) [OF R] show ?thesis
    by (auto simp: keyForID_def Let_def split: if_splits option.splits)
next
  case (Some k)
  with assms show ?thesis by (auto simp: keyForID_def)
qed

text \<open>
  C28. A token opens nothing unless it is genuine. When the verifier accepts a token, the token names
  ES256 and a key id, the key under that id in the cached set, or in the set fetched from the
  authentication service during this call, verifies its signature, the library's own checks passed at
  that time, and its issuer is this project. Within a minute of a successful fetch no request
  makes the verifier ask the service again.
\<close>

theorem token_verified:
  assumes "Verify env v s token = (v', s', r)"
  shows "(\<forall>c. r = Inr c \<longrightarrow> (\<exists>kid key t. av_header env token = Some (''ES256'', kid) \<and> keysFrom env v s (vf_keys v')
        \<and> map_of (vf_keys v') kid = Some key \<and> av_check env key token \<and> av_claims env (clock s') token = Some t
        \<and> tk_iss t = issuerOf (vf_projectID v) \<and> cl_Subject c = tk_sub t \<and> cl_Subject c \<noteq> ''''))
    \<and> (\<forall>t. vf_fetched v = Some t \<and> clock s - t \<le> vf_minRefre v \<longrightarrow> s' = s \<and> v' = v)"
proof -
  consider (early) "v' = v" "s' = s" "\<exists>e. r = Inl e" | (key) kid v1 s1 k where "token \<noteq> ''''" "av_header env token = Some (''ES256'', kid)"
      "keyForID env v s kid = (v1, s1, k)"
    using assms by (cases "av_header env token") (auto simp: Verify_def split: if_splits prod.splits)
  then show ?thesis
  proof cases
    case key
    from keyForID_keys [OF key(3)] have K: "keysFrom env v s (vf_keys v1)" "k = Inr x \<Longrightarrow> map_of (vf_keys v1) kid = Some x" for x by auto
    have vs: "v' = v1" "s' = s1" "r = (case k of Inl e \<Rightarrow> Inl (if e = ErrKeyID then ErrKeyID else ErrInvalid)
        | Inr x \<Rightarrow> claimsOf env (vf_projectID v) (clock s1) x token)"
      using assms key by (auto simp: Verify_def split: sum.splits)
    have fresh: "s1 = s \<and> v1 = v" if "vf_fetched v = Some t" "clock s - t \<le> vf_minRefre v" for t
      using key(3) that by (auto simp: keyForID_def split: option.splits)
    have ok: "\<exists>x t. k = Inr x \<and> av_check env x token \<and> av_claims env (clock s1) token = Some t
        \<and> tk_iss t = issuerOf (vf_projectID v) \<and> cl_Subject c = tk_sub t \<and> cl_Subject c \<noteq> ''''" if "r = Inr c" for c
      using vs(3) that by (cases k) (auto simp: claimsOf_def split: option.splits if_splits)
    show ?thesis
    proof (intro conjI allI impI)
      fix c assume "r = Inr c"
      from ok [OF this] obtain x t where x: "k = Inr x" "av_check env x token" "av_claims env (clock s1) token = Some t"
        "tk_iss t = issuerOf (vf_projectID v)" "cl_Subject c = tk_sub t" "cl_Subject c \<noteq> ''''" by blast
      show "\<exists>kid key t. av_header env token = Some (''ES256'', kid) \<and> keysFrom env v s (vf_keys v')
        \<and> map_of (vf_keys v') kid = Some key \<and> av_check env key token \<and> av_claims env (clock s') token = Some t
        \<and> tk_iss t = issuerOf (vf_projectID v) \<and> cl_Subject c = tk_sub t \<and> cl_Subject c \<noteq> ''''"
        using K(1) K(2) [OF x(1)] key(2) x unfolding vs(1,2) by (intro exI [of _ kid] exI [of _ x] exI [of _ t]) simp
    next
      fix t assume "vf_fetched v = Some t \<and> clock s - t \<le> vf_minRefre v"
      then show "s' = s" "v' = v" using fresh [of t] vs(1,2) by auto
    qed
  qed auto
qed

definition exampleAuthEnv :: "(nat list, unit) authEnv" where
  "exampleAuthEnv = \<lparr>av_fetch = (\<lambda>w. (w, 20, Some (200, ''jwks''))),
     av_doc = (\<lambda>_. Some [\<lparr>jwk_Kty = ''RSA'', jwk_Crv = '''', jwk_Kid = ''k0'', jwk_X = '''', jwk_Y = ''''\<rparr>,
        \<lparr>jwk_Kty = ''EC'', jwk_Crv = ''P-256'', jwk_Kid = ''k1'', jwk_X = ''x'', jwk_Y = ''y''\<rparr>]),
     av_b64 = (\<lambda>t. Some [length t]), av_point = (\<lambda>x y. x @ y), av_header = (\<lambda>t. Some (''ES256'', ''k1'')),
     av_check = (\<lambda>k t. k = [1, 1]), av_claims = (\<lambda>now t. Some \<lparr>tk_iss = issuerOf ''p'', tk_sub = ''y'', tk_primaryEmail = '''', tk_email = ''y@x''\<rparr>)\<rparr>"

theorem token_verified_witness:
  "\<exists>v' s' c. Verify exampleAuthEnv (New_verifier ''p'') \<lparr>clock = 0, ext = ()\<rparr> ''t'' = (v', s', Inr c) \<and> cl_Subject c \<noteq> ''''
     \<and> map_of (vf_keys v') ''k1'' = Some [1, 1]"
proof -
  obtain v' s' c where V: "Verify exampleAuthEnv (New_verifier ''p'') \<lparr>clock = 0, ext = ()\<rparr> ''t'' = (v', s', Inr c)"
    by (simp add: Verify_def keyForID_def refresh_def claimsOf_def exampleAuthEnv_def New_verifier_def do_call_def)
  from token_verified [OF V] V show ?thesis by (auto simp: exampleAuthEnv_def)
qed

text \<open>
  A fetch that fails is not remembered: with the service down and no key yet, or the last success over
  a minute ago, every token with an unknown key id makes a request of its own.
\<close>

lemma failed_fetch_not_remembered:
  assumes "refresh env v s = (v', s', Some e)"
  shows "vf_fetched v' = vf_fetched v" "vf_keys v' = vf_keys v"
  using refresh_keys(4) [OF assms] by simp_all

section \<open>Accounts and the member table\<close>

text \<open>
  The account service: \<open>ac_find\<close> is the free-text search, \<open>ac_create\<close> the creation of an account; a failed
  request or a status outside 2xx is \<open>None\<close> of the first option, a body that does not decode that of the second.
\<close>

record 'w accountEnv =
  ac_find :: "string \<Rightarrow> ('w, (string \<times> string) list option option) call"
  ac_create :: "string \<Rightarrow> string \<Rightarrow> string \<Rightarrow> ('w, string option option) call"

definition EqualFold :: "string \<Rightarrow> string \<Rightarrow> bool" where
  "EqualFold a b = (to_lower a = to_lower b)"

text \<open>An account that does not exist yet is the empty id.\<close>

definition FindUserByEmail :: "'w accountEnv \<Rightarrow> 'w sys \<Rightarrow> string \<Rightarrow> 'w sys \<times> string option" where
  "FindUserByEmail env s email =
     (case do_call (ac_find env email) s of
        (s1, Some (Some items)) \<Rightarrow> (s1, Some (case find (\<lambda>(i, e). EqualFold e email) items of Some (i, _) \<Rightarrow> i | None \<Rightarrow> ''''))
      | (s1, _) \<Rightarrow> (s1, None))"

definition CreateUser :: "'w accountEnv \<Rightarrow> 'w sys \<Rightarrow> string \<Rightarrow> string \<Rightarrow> string \<Rightarrow> 'w sys \<times> string option" where
  "CreateUser env s email displayName password =
     (case do_call (ac_create env email displayName password) s of
        (s1, Some (Some i)) \<Rightarrow> (s1, Some i) | (s1, _) \<Rightarrow> (s1, None))"

text \<open>The insert of \<open>memberadd\<close>: a blank name is NULL, and on a conflict NULL keeps the stored value.\<close>

definition nullIf :: "string \<Rightarrow> string option" where
  "nullIf x = (if x = '''' then None else Some x)"

definition coalesce :: "'a option \<Rightarrow> 'a option \<Rightarrow> 'a option" where
  "coalesce a b = (case a of None \<Rightarrow> b | Some x \<Rightarrow> Some x)"

definition memberUpsert :: "string \<Rightarrow> string \<Rightarrow> string \<Rightarrow> string \<Rightarrow> relay \<Rightarrow> relay" where
  "memberUpsert i email username name r =
     (if list_ex (\<lambda>m. mp_StackUserID m = i) (members r) then
        r\<lparr>members := map (\<lambda>m. if mp_StackUserID m = i then
            m\<lparr>mp_Email := email, mp_Username := coalesce (nullIf username) (mp_Username m),
              mp_DisplayName := coalesce (nullIf name) (mp_DisplayName m)\<rparr> else m) (members r)\<rparr>
      else r\<lparr>members := members r @ [\<lparr>mp_StackUserID = i, mp_Email = email, mp_Username = nullIf username, mp_DisplayName = nullIf name\<rparr>]\<rparr>)"

definition memberRemove :: "string \<Rightarrow> relay \<Rightarrow> relay" where
  "memberRemove email r = r\<lparr>members := filter (\<lambda>m. to_lower (mp_Email m) \<noteq> to_lower email) (members r)\<rparr>"

text \<open>
  \<open>memberadd\<close> with an address: look the account up, create it when it is missing, then allow it. \<open>None\<close> is an
  exit with an error; a temporary password is an argument, \<open>None\<close> when none could be generated, and
  \<open>credsOk\<close> says that the service's credentials are set.
\<close>

definition memberadd :: "'w accountEnv \<Rightarrow> bool \<Rightarrow> bool \<Rightarrow> string option \<Rightarrow> string \<Rightarrow> string \<Rightarrow> string \<Rightarrow> relay \<Rightarrow> 'w sys \<Rightarrow>
    relay \<times> 'w sys \<times> string option" where
  "memberadd env credsOk dbOk password email username name r s =
     (if email = '''' \<or> \<not> credsOk then (r, s, None)
      else case FindUserByEmail env s email of
             (s1, None) \<Rightarrow> (r, s1, None)
           | (s1, Some found) \<Rightarrow>
               (case (if found \<noteq> '''' then (s1, Some found)
                      else case password of None \<Rightarrow> (s1, None) | Some pw \<Rightarrow> CreateUser env s1 email name pw) of
                  (s2, None) \<Rightarrow> (r, s2, None)
                | (s2, Some i) \<Rightarrow> if dbOk then (memberUpsert i email username name r, s2, Some i) else (r, s2, None)))"

text \<open>
  \<open>appadd\<close>, after its list command: revoke a key, or save a specification, switch the app and issue a key, in
  this order. \<open>Inl\<close> is an exit with an error; the table keeps what was done before it.
\<close>

record appaddFlags =
  fl_revoke :: string
  fl_spec :: "string option"
  fl_app :: string
  fl_disable :: bool
  fl_enable :: bool
  fl_newKey :: string

definition appadd :: "(string \<Rightarrow> Spec option) \<Rightarrow> (Spec \<Rightarrow> string) \<Rightarrow> (string \<Rightarrow> string) \<Rightarrow> string \<Rightarrow> appaddFlags \<Rightarrow> appDB \<Rightarrow>
    appDB \<times> (string + string option)" where
  "appadd parse encode h random f db =
     (if fl_revoke f \<noteq> '''' then
        (case RevokeKey (fl_revoke f) db of None \<Rightarrow> (db, Inl ''revoke'') | Some db1 \<Rightarrow> (db1, Inr None))
      else case (case fl_spec f of
                   None \<Rightarrow> Inr (db, fl_app f)
                 | Some raw \<Rightarrow> (case parse raw of None \<Rightarrow> Inl ''spec'' | Some spec \<Rightarrow> Inr (UpsertApp encode spec db, sp_ID spec))) of
             Inl e \<Rightarrow> (db, Inl e)
           | Inr (db1, appID) \<Rightarrow>
               if appID = '''' then (db1, Inl ''usage'')
               else (case (if fl_disable f \<or> fl_enable f then SetAppEnabled appID (fl_enable f) db1 else Some db1) of
                       None \<Rightarrow> (db1, Inl ''set enabled'')
                     | Some db2 \<Rightarrow>
                         if fl_newKey f = '''' then (db2, Inr None)
                         else (case IssueKey h random appID (fl_newKey f) db2 of
                                 (db3, None) \<Rightarrow> (db3, Inl ''issue key'')
                               | (db3, Some key) \<Rightarrow> (db3, Inr (Some key)))))"

subsection \<open>Properties\<close>

lemma find_map_same:
  "(\<And>m. P (f m) \<longleftrightarrow> P m) \<Longrightarrow> find P (map f xs) = map_option f (find P xs)"
  by (induction xs) auto

lemma member_after_upsert:
  "GetMemberProfile (memberUpsert i email username name r) u =
     (if u = i then Some (case GetMemberProfile r i of
          None \<Rightarrow> \<lparr>mp_StackUserID = i, mp_Email = email, mp_Username = nullIf username, mp_DisplayName = nullIf name\<rparr>
        | Some m \<Rightarrow> m\<lparr>mp_Email := email, mp_Username := coalesce (nullIf username) (mp_Username m),
              mp_DisplayName := coalesce (nullIf name) (mp_DisplayName m)\<rparr>)
      else GetMemberProfile r u)"
proof (cases "list_ex (\<lambda>m. mp_StackUserID m = i) (members r)")
  case True
  let ?f = "\<lambda>m. if mp_StackUserID m = i then m\<lparr>mp_Email := email, mp_Username := coalesce (nullIf username) (mp_Username m),
              mp_DisplayName := coalesce (nullIf name) (mp_DisplayName m)\<rparr> else m"
  have u: "GetMemberProfile (memberUpsert i email username name r) u = map_option ?f (GetMemberProfile r u)"
    using True find_map_same [of "\<lambda>m. mp_StackUserID m = u" ?f "members r"] by (simp add: GetMemberProfile_def memberUpsert_def)
  show ?thesis
  proof (cases "u = i")
    case same: True
    have "GetMemberProfile r i \<noteq> None" using True by (auto simp: GetMemberProfile_def find_None_all list_ex_iff)
    then obtain m where m: "GetMemberProfile r i = Some m" by blast
    then have "mp_StackUserID m = i" unfolding GetMemberProfile_def by (blast dest: find_Some_mem)
    with m u same show ?thesis by simp
  next
    case False
    have "mp_StackUserID m = u" if "GetMemberProfile r u = Some m" for m
      using that unfolding GetMemberProfile_def by (blast dest: find_Some_mem)
    with False u show ?thesis by (cases "GetMemberProfile r u") auto
  qed
next
  case False
  then have "find (\<lambda>m. mp_StackUserID m = i) (members r) = None" by (auto simp: find_None_all list_ex_iff)
  with False show ?thesis by (auto simp: GetMemberProfile_def memberUpsert_def find_append split: option.split)
qed

lemma member_after_remove:
  assumes "distinct (map mp_StackUserID (members r))"
  shows "GetMemberProfile (memberRemove email r) u =
    (case GetMemberProfile r u of None \<Rightarrow> None | Some m \<Rightarrow> if to_lower (mp_Email m) = to_lower email then None else Some m)"
proof -
  have "distinct (map mp_StackUserID ms) \<Longrightarrow> find (\<lambda>m. mp_StackUserID m = u) (filter P ms) =
    (case find (\<lambda>m. mp_StackUserID m = u) ms of None \<Rightarrow> None | Some m \<Rightarrow> if P m then Some m else None)" for ms P
  proof (induction ms)
    case (Cons m ms)
    have "find (\<lambda>m. mp_StackUserID m = u) ms = None" if "mp_StackUserID m = u"
      using Cons.prems that by (simp add: find_None_all image_iff) metis
    with Cons show ?case by auto
  qed simp
  from this [OF assms] show ?thesis by (simp add: GetMemberProfile_def memberRemove_def split: option.split)
qed

text \<open>The request of a caller with a token, as the relay sees it.\<close>

lemma token_request:
  assumes "re_verify env = Some verify" "verify tok = Some u" "trim_space tok = tok" "re_ok env ''member''"
    and "rq_authz q = ''Bearer '' @ tok"
  shows "resolveIdentity env st q = (if IsAllowedMember (rs_db st) u then Caller (''user:'' @ u) None else Denied 403)"
  using assms by (simp add: resolveIdentity_def has_prefix_def)


definition exampleAccounts :: "unit accountEnv" where
  "exampleAccounts = \<lparr>ac_find = (\<lambda>q w. (w, 5, Some (Some [(''z'', ''other@x''), (''y'', ''y@x'')]))), ac_create = (\<lambda>_ _ _ w. (w, 5, None))\<rparr>"


end
