(* ===== verification/Spec2Isabelle.thy ===== *)
theory Spec2Isabelle
  imports Layers_Machine System Remote_Relay Relay_Ask Llama_Inner Server_Main Services Members
begin

text \<open>
  \<^bold>\<open>Home inference server\<close>: a verification library for the Go program under \<open>src/\<close>.

  \<^bold>\<open>The program.\<close> A local server (\<open>cmd/server\<close>) answers inference requests over HTTP with whichever of a
  few model tiers fits the free VRAM; a hosted relay (\<open>cmd/railway\<close>) keeps jobs for it while it is
  away. A request enters through the HTTP handlers, is validated and translated, may be handed to
  the relay under pressure, and then either passes through the queue, the batcher and the worker pool
  to the router, or (streams and tools) goes to the backend directly. Both ways end in the VRAM-managed
  backend, which selects a tier, loads and evicts models, and cascades to smaller tiers; an eviction
  loop frees VRAM behind its back, and a reaper kills stray subprocesses.

  \<^bold>\<open>Conventions\<close> (\<open>Prelude\<close>). Errors are values: \<open>go_error\<close> follows \<open>backend.BackendError\<close>, a fallible call
  returns \<open>res\<close>. The outside world is a type variable \<open>'w\<close>; a call into it has type \<open>('w, 'r) call\<close>: it
  maps the world to a new world, a duration and a result, and \<open>do_call\<close> advances the clock of the
  \<open>sys\<close> record. Times are milliseconds (\<open>int\<close>), floats are \<open>rat\<close>, Go maps with an iteration order that
  matters are association lists. A nil dependency is \<open>None\<close>. Logging has no effect in the model.

  \<^bold>\<open>Theories and sources.\<close>
  \<^item> \<open>Model_Types\<close>: \<open>types/model.go\<close>, \<open>types/job.go\<close>, \<open>backend/backend.go\<close>.
  \<^item> \<open>Layers\<close>, \<open>Layers_Machine\<close>: \<open>internal/backend/vram/layers.go\<close> over the integers, with the admission
    test shown safe and optimal and a resident model never mistaken for a starved one; the second theory
    repeats \<open>FitLayers\<close> and \<open>GPUResidentMB\<close> on 64-bit words and shows that they do not wrap.
  \<^item> \<open>Vram_Backend\<close>, \<open>Vram_Select\<close>, \<open>Vram_Select_Props\<close>: \<open>internal/backend/vram/vram.go\<close>. The first has the
    backend record and the helpers with their frame lemmas (\<open>same_config\<close>) and the invariant
    \<open>wf_backend\<close>; the second the operations, composed as in the code; the third shows the contract of
    each stage, up to what an answered request may rely on, and that both cascade loops end by
    themselves. The loops of \<open>Infer\<close> and \<open>selectInner\<close> are bounded by the roster size in the code; the
    model keeps that bound as fuel and shows that more fuel changes nothing.
  \<^item> \<open>Eviction\<close>, \<open>Vram_Concurrency\<close>: \<open>eviction.go\<close>, \<open>reaper.go\<close>, and the interleaving of requests, eviction
    and outside interference as step relations cut at the lock boundaries, with invariants by rule
    induction: slots are accounted for, eviction never interrupts a request, requests never deadlock.
  \<^item> \<open>Channels\<close>: Go channels behind the locale \<open>bounded_fifo\<close>. \<open>Pipeline\<close>: \<open>internal/queue\<close>,
    \<open>internal/batcher\<close>. \<open>Dispatch\<close>: \<open>internal/router\<close>, \<open>internal/dispatcher\<close> and the batch callback of
    \<open>main\<close>. No job is lost, repeated or answered twice between the handler and the backend.
  \<^item> \<open>Logbuf\<close>: \<open>internal/logbuf\<close>, with the locale \<open>newest_first\<close> that the job history also interprets.
    \<open>Chatstore\<close>: \<open>internal/chatstore\<close> with the files on disk; memory and disk agree.
  \<^item> \<open>Server_Core\<close>, \<open>Server_Stream\<close>, \<open>Server_Http\<close>: \<open>internal/server\<close> and \<open>api\<close>: validation, translation,
    deferral, the blocking path and the history; the tool loop and the event streams; routing,
    middleware, the drain switch and the other endpoints.
  \<^item> \<open>System\<close>: the wiring of \<open>cmd/server/main.go\<close>, in which the server's backend is the VRAM backend.
  \<^item> \<open>Relay_Store\<close>, \<open>Relay_Props\<close>: \<open>internal/railwayq/store.go\<close>, \<open>wake.go\<close>, \<open>ttl.go\<close> and \<open>queue/payload.go\<close>. The
    jobs table is a list of rows in insertion order and each SQL statement a function on it; a step
    relation interleaves clients, workers and the sweeper.
  \<^item> \<open>Relay_Auth\<close>, \<open>Relay_Http\<close>: the rest of the relay: configuration, app keys, the limiter, identities
    (\<open>config.go\<close>, \<open>appstore.go\<close>, \<open>ratelimit.go\<close>, \<open>auth.go\<close>), and the handlers and routes (\<open>handler.go\<close>,
    \<open>server.go\<close>, \<open>status_public.go\<close>). Worker routes belong to the owner, callers are kept apart, every
    accepted job is counted. Each query of a handler may fail (\<open>re_ok\<close>).
  \<^item> \<open>Apps_Spec\<close>, \<open>Apps_Answer\<close>, \<open>Apps_Retrieve\<close>: \<open>internal/apps\<close>: specifications, the prompt around a
    visitor's question, the cleaning of answers with its regular expressions on a backtracking matcher, and
    the choice of sources.
  \<^item> \<open>Relay_Ask\<close>: the public question endpoint \<open>ask.go\<close>, with the relay's other requests interleaved at
    every poll: what a question may cost, that it is never left behind, and a visitor's daily cap.
  \<^item> \<open>Remote_Worker\<close>, \<open>Remote_Relay\<close>: \<open>internal/remote/client.go\<close>, and the worker against the relay over a
    network that loses requests and replies, up to the round trip from claim to result.
  \<^item> \<open>Llama_Client\<close>, \<open>Llama_Process\<close>, \<open>Llama_Backend\<close>: \<open>internal/backend/llamacpp\<close>: the client of
    \<open>llama-server\<close> with its streams, the subprocess, and the backend with restart, rate ring and token
    budget. The health and exit polls are functions with a termination proof, since every round sleeps.
    \<open>Llama_Inner\<close> puts these tiers under the VRAM backend and shows that both keep the same books.
  \<^item> \<open>Sample_Ring\<close>: the locale of a ring buffer of samples and its average, interpreted by the token rate of
    \<open>Llama_Backend\<close> and the CPU meter of \<open>Services\<close>.
  \<^item> \<open>Services\<close>: \<open>internal/apps/knowledge.go\<close>, \<open>internal/hosted\<close>, \<open>internal/websearch\<close>, \<open>internal/system\<close>. A failed
    refresh of a knowledge file keeps serving the last good copy; the hosted model and the search return
    a usable answer or an error.
  \<^item> \<open>Members\<close>: \<open>internal/stackauth\<close>, \<open>cmd/memberadd\<close>, \<open>cmd/appadd\<close>: the token verifier with its key cache, and
    the life of a member from adding to removal against the relay's own authentication.
  \<^item> \<open>His_Client\<close>, \<open>Relay_Clients\<close>: \<open>hisclient\<close> and \<open>internal/relayenqueue\<close>: the client library read against the
    server's own streams, and a deferred job followed from the server's hand-off through the relay to the
    client that polls for it.
  \<^item> \<open>Server_Main\<close>: the configuration \<open>cmd/server/main.go\<close> builds from the environment (tiers, thresholds,
    defaults) and the stub backends: it meets the hypotheses of the theorems about the backend.

  \<^bold>\<open>Not modelled.\<close> NVML and the process table, HTTP transport, the JSON, base64 and token libraries and the
  database driver are arguments of the definitions, with what is relied on as hypotheses. Flag parsing,
  the dashboard, the tray, the bench, test-app and driver-check tools, the start-up of the relay, the
  conformance suite and the operator's listings are I/O around the modelled packages, and the test fakes
  are not part of the program.
\<close>

section \<open>From validation to the tier that answers\<close>

definition systemEnv :: "int world inferEnv" where
  "systemEnv = \<lparr>ie_tools = \<lparr>queryOf = (\<lambda>a. a), msgOf = (\<lambda>e. ''m''), jsonString = (\<lambda>x. x),
       toolSearcher = Some (\<lambda>q w. (w, 20, Ok ''results''))\<rparr>,
     ie_backends = backendsOf, ie_decode64 = (\<lambda>_. None), ie_uuid1 = ''u1'', ie_uuid2 = ''u2'', ie_canFlush = True,
     ie_select = ChanReady, ie_wait = ResultArrived 5 zeroResult\<rparr>"

definition systemServer :: "int world Server" where
  "systemServer = New_Server (New_Queue 4) 0"

text \<open>
  C1. The weak tier, whose chat template has no tool grammar, never answers a request with tools. With
  the VRAM backend wired in as in \<open>main\<close>, and the other services (VRAM sensor, relay, web search) not
  touching it, whatever \<open>handleInfer\<close> replies to such a request, blocking or as a stream, on the first
  turn or after the tool round trip, names no weak tier; and the backend is left sound with its slot free.
\<close>

theorem tools_request_never_weak:
  assumes "servicesApart (ie_tools env) srv" and "ie_backends env = backendsOf" and "goodWorld (ext s)"
    and "ir_Tools req \<noteq> []" and "handleInfer env srv s (Some req) = (srv', s', rep)"
  shows "TierWeak \<notin> set (replyTiers rep) \<and> goodWorld (ext s')"
  using handleInfer_tools_capable [OF assms] by simp

theorem tools_request_never_weak_witness:
  "case handleInfer systemEnv systemServer \<lparr>clock = 0, ext = (exampleBackend, exampleSys)\<rparr> (Some exampleInfer) of
     (srv', s', rep) \<Rightarrow> replyTiers rep = [TierStrong] \<and> TierWeak \<notin> set (replyTiers rep)"
proof -
  let ?s = "\<lparr>clock = 0, ext = (exampleBackend, exampleSys)\<rparr>"
  obtain srv' s' rep where H: "handleInfer systemEnv systemServer ?s (Some exampleInfer) = (srv', s', rep)"
    by (metis prod_cases3)
  have "replyTiers (snd (snd (handleInfer systemEnv systemServer ?s (Some exampleInfer)))) = [TierStrong]"
    by code_simp
  moreover have "TierWeak \<notin> set (replyTiers rep) \<and> goodWorld (ext s')"
  proof (rule tools_request_never_weak [OF _ _ _ _ H])
    show "servicesApart (ie_tools systemEnv) systemServer"
      by (simp add: servicesApart_def leavesBackend_def systemEnv_def systemServer_def New_Server_def)
    show "ie_backends systemEnv = backendsOf" by (simp add: systemEnv_def)
    show "goodWorld (ext ?s)" using exampleBackend_wf exampleBackend_slot by (simp add: goodWorld_def hasSlot_def)
    show "ir_Tools exampleInfer \<noteq> []" by (simp add: exampleInfer_def)
  qed
  ultimately show ?thesis by (simp add: H)
qed

end
